(* ===== verification/Prelude.thy ===== *)
theory Prelude
  imports Main "HOL-Library.Word" "HOL-Library.Monad_Syntax" "HOL-Library.Multiset"
    "HOL-Library.Sublist"
begin

text \<open>
  What every component of the development shares.

  \<^item> The machine integers of the source. The program is built with cargo's default profile
    (the README runs it with \<^verbatim>\<open>cargo run\<close>), in which an overflowing \<open>+\<close>, \<open>-\<close> or \<open>*\<close> on
    \<open>u32\<close>, \<open>u64\<close>, \<open>u128\<close> or \<open>usize\<close> panics, as do a division by zero and an index out of
    range. An unsigned integer is a \<^typ>\<open>nat\<close> and each operation checks its width: the value
    is \<open>None\<close> exactly where the source panics. A conversion with \<open>as\<close> truncates silently and
    is written as a remainder.
  \<^item> A computation that may panic has an \<open>option\<close> type and is written in the \<open>do\<close> notation
    of the option monad: \<open>None\<close> means that the thread panicked. Errors that the source
    returns as values (\<open>Option\<close>, \<open>Result\<close>, a transaction status) are values here too, so
    \<open>Some None\<close> is a regular return of \<open>None\<close>.
  \<^item> The functions of the standard library the source uses on vectors.
  \<^item> The named collection \<open>checked\<close> holds the inversion rules of the checked operations.
\<close>

named_theorems checked

section \<open>Checked machine arithmetic\<close>

text \<open>Addition at width \<open>w\<close> bits.\<close>

definition checked_add :: "nat \<Rightarrow> nat \<Rightarrow> nat \<Rightarrow> nat option" where
  "checked_add w a b = (if a + b < 2 ^ w then Some (a + b) else None)"

definition checked_mul :: "nat \<Rightarrow> nat \<Rightarrow> nat \<Rightarrow> nat option" where
  "checked_mul w a b = (if a * b < 2 ^ w then Some (a * b) else None)"

definition checked_pow :: "nat \<Rightarrow> nat \<Rightarrow> nat \<Rightarrow> nat option" where
  "checked_pow w a n = (if a ^ n < 2 ^ w then Some (a ^ n) else None)"

text \<open>Subtraction and division need no width: the result is never larger than the argument.\<close>

definition checked_sub :: "nat \<Rightarrow> nat \<Rightarrow> nat option" where
  "checked_sub a b = (if b \<le> a then Some (a - b) else None)"

definition checked_div :: "nat \<Rightarrow> nat \<Rightarrow> nat option" where
  "checked_div a b = (if b = 0 then None else Some (a div b))"

abbreviation add32 :: "nat \<Rightarrow> nat \<Rightarrow> nat option" where "add32 \<equiv> checked_add 32"
abbreviation add64 :: "nat \<Rightarrow> nat \<Rightarrow> nat option" where "add64 \<equiv> checked_add 64"
abbreviation add128 :: "nat \<Rightarrow> nat \<Rightarrow> nat option" where "add128 \<equiv> checked_add 128"
abbreviation mul64 :: "nat \<Rightarrow> nat \<Rightarrow> nat option" where "mul64 \<equiv> checked_mul 64"
abbreviation mul128 :: "nat \<Rightarrow> nat \<Rightarrow> nat option" where "mul128 \<equiv> checked_mul 128"

text \<open>The truncating conversions \<open>x as u64\<close> and \<open>x as u32\<close>.\<close>

definition as_u64 :: "nat \<Rightarrow> nat" where
  "as_u64 n = n mod 2 ^ 64"

definition as_u32 :: "nat \<Rightarrow> nat" where
  "as_u32 n = n mod 2 ^ 32"

abbreviation u64_max :: nat where "u64_max \<equiv> 2 ^ 64 - 1"
abbreviation u128_max :: nat where "u128_max \<equiv> 2 ^ 128 - 1"

section \<open>Vectors\<close>

text \<open>\<open>xs[i]\<close>: a panic when \<open>i\<close> is out of range; \<open>xs.get(i)\<close> is the same function.\<close>

definition index :: "'a list \<Rightarrow> nat \<Rightarrow> 'a option" where
  "index xs i = (if i < length xs then Some (xs ! i) else None)"

text \<open>\<open>xs.insert(i, x)\<close>, which panics when \<open>i > len\<close>, and \<open>xs.remove(i)\<close>.\<close>

definition vec_insert :: "'a list \<Rightarrow> nat \<Rightarrow> 'a \<Rightarrow> 'a list option" where
  "vec_insert xs i x = (if i \<le> length xs then Some (take i xs @ x # drop i xs) else None)"

definition vec_remove :: "'a list \<Rightarrow> nat \<Rightarrow> 'a list option" where
  "vec_remove xs i = (if i < length xs then Some (take i xs @ drop (Suc i) xs) else None)"

text \<open>\<open>xs.iter().position(p)\<close>.\<close>

fun position :: "('a \<Rightarrow> bool) \<Rightarrow> 'a list \<Rightarrow> nat option" where
  "position p [] = None"
| "position p (x # xs) = (if p x then Some 0 else map_option Suc (position p xs))"

text \<open>\<open>xs.last()\<close>.\<close>

definition vec_last :: "'a list \<Rightarrow> 'a option" where
  "vec_last xs = (if xs = [] then None else Some (last xs))"

section \<open>Inversion rules\<close>

lemma checked_add_Some [checked]:
  "checked_add w a b = Some c \<longleftrightarrow> c = a + b \<and> a + b < 2 ^ w"
  by (auto simp: checked_add_def)

lemma checked_mul_Some [checked]:
  "checked_mul w a b = Some c \<longleftrightarrow> c = a * b \<and> a * b < 2 ^ w"
  by (auto simp: checked_mul_def)

lemma checked_pow_Some [checked]:
  "checked_pow w a n = Some c \<longleftrightarrow> c = a ^ n \<and> a ^ n < 2 ^ w"
  by (auto simp: checked_pow_def)

lemma checked_sub_Some [checked]:
  "checked_sub a b = Some c \<longleftrightarrow> b \<le> a \<and> a = b + c"
  by (auto simp: checked_sub_def)

lemma checked_div_Some [checked]:
  "checked_div a b = Some c \<longleftrightarrow> b \<noteq> 0 \<and> c = a div b"
  by (auto simp: checked_div_def)

lemma index_Some [checked]: "index xs i = Some x \<longleftrightarrow> i < length xs \<and> x = xs ! i"
  by (auto simp: index_def)

lemma vec_insert_Some [checked]:
  "vec_insert xs i x = Some ys \<longleftrightarrow> i \<le> length xs \<and> ys = take i xs @ x # drop i xs"
  by (auto simp: vec_insert_def)

lemma vec_remove_Some [checked]:
  "vec_remove xs i = Some ys \<longleftrightarrow> i < length xs \<and> ys = take i xs @ drop (Suc i) xs"
  by (auto simp: vec_remove_def)

declare bind_eq_Some_conv [checked]

lemma vec_last_Some [checked]: "vec_last xs = Some x \<longleftrightarrow> xs \<noteq> [] \<and> x = last xs"
  by (auto simp: vec_last_def)

lemma checked_subI [simp]: "b \<le> a \<Longrightarrow> checked_sub a b = Some (a - b)"
  by (simp add: checked_sub_def)

lemma checked_addI: "a + b < 2 ^ w \<Longrightarrow> checked_add w a b = Some (a + b)"
  by (simp add: checked_add_def)

lemma checked_mulI: "a * b < 2 ^ w \<Longrightarrow> checked_mul w a b = Some (a * b)"
  by (simp add: checked_mul_def)

lemma as_u64_le: "as_u64 n \<le> n"
  by (simp add: as_u64_def)

lemma as_u64_less: "as_u64 n < 2 ^ 64"
  by (simp add: as_u64_def)

lemma as_u64_id: "n < 2 ^ 64 \<Longrightarrow> as_u64 n = n"
  by (simp add: as_u64_def)

lemma position_Some:
  "position p xs = Some i \<Longrightarrow> i < length xs \<and> p (xs ! i) \<and> (\<forall>j<i. \<not> p (xs ! j))"
proof (induction xs arbitrary: i)
  case Nil
  then show ?case by simp
next
  case (Cons x xs)
  show ?case
  proof (cases "p x")
    case True
    with Cons.prems show ?thesis by auto
  next
    case False
    with Cons.prems obtain k where k: "position p xs = Some k" "i = Suc k"
      by (auto split: if_splits)
    then show ?thesis using Cons.IH [OF k(1)] False by (auto simp: less_Suc_eq_0_disj)
  qed
qed

lemma position_None: "position p xs = None \<longleftrightarrow> (\<forall>x\<in>set xs. \<not> p x)"
  by (induction xs) auto

section \<open>Subsequences\<close>

lemma subseq_set: "subseq xs ys \<Longrightarrow> set xs \<subseteq> set ys"
  by (auto dest: list_emb_set)

lemma subseq_sorted_wrt: "subseq xs ys \<Longrightarrow> sorted_wrt P ys \<Longrightarrow> sorted_wrt P xs"
proof (induction rule: list_emb.induct)
  case (list_emb_Cons2 x y xs ys)
  then show ?case using subseq_set [of xs ys] by auto
qed auto

lemma subseq_distinct: "subseq xs ys \<Longrightarrow> distinct ys \<Longrightarrow> distinct xs"
proof (induction rule: list_emb.induct)
  case (list_emb_Cons2 x y xs ys)
  then show ?case using subseq_set [of xs ys] by auto
qed auto

end
