(* ===== verification/Orders.thy ===== *)
theory Orders
  imports Prelude
begin

text \<open>
  The data of the spot exchange, from \<^verbatim>\<open>src/src/state/order.rs\<close>, \<^verbatim>\<open>asset.rs\<close> and
  \<^verbatim>\<open>transaction_delta.rs\<close>: orders, their status and direction, the results the matching
  engine returns and the order id counter. A struct is a record whose field names carry a
  prefix that tells the struct; an enum is a datatype.
\<close>

section \<open>Identifiers\<close>

text \<open>A public key or a SHA-256 digest is an array of 32 bytes.\<close>

type_synonym sha256_hash = "8 word list"
type_synonym public_key_hash = sha256_hash

type_synonym order_id = nat
type_synonym order_price_multiple = nat
type_synonym market_id = nat
type_synonym asset_id = nat

section \<open>Orders\<close>

datatype order_status = Open | Cancelled | Rejected | Filled | PartiallyFilled

datatype order_direction = Buy | Sell

record common_order_fields =
  co_id :: order_id
  co_market_id :: market_id
  co_status :: order_status
  co_account :: public_key_hash
  co_direction :: order_direction

record limit_order =
  lo_common :: common_order_fields
  lo_price_multiple :: order_price_multiple
  lo_base_lots :: nat
  lo_filled_base_lots :: nat
  lo_self_filled :: nat

record market_sell_order =
  ms_base_size :: nat
  ms_filled_size :: nat
  ms_self_filled :: nat
  ms_average_execution_price :: nat
  ms_common :: common_order_fields

record market_buy_order =
  mb_quote_size :: nat
  mb_filled_size :: nat
  mb_self_filled :: nat
  mb_average_execution_price :: nat
  mb_common :: common_order_fields

datatype market_order = MarketSell market_sell_order | MarketBuy market_buy_order

datatype order = Limit limit_order | Market market_order

datatype order_type = LimitType order_price_multiple nat | MarketType nat

abbreviation lo_id :: "limit_order \<Rightarrow> order_id" where
  "lo_id lo \<equiv> co_id (lo_common lo)"

abbreviation lo_status :: "limit_order \<Rightarrow> order_status" where
  "lo_status lo \<equiv> co_status (lo_common lo)"

abbreviation lo_account :: "limit_order \<Rightarrow> public_key_hash" where
  "lo_account lo \<equiv> co_account (lo_common lo)"

abbreviation lo_direction :: "limit_order \<Rightarrow> order_direction" where
  "lo_direction lo \<equiv> co_direction (lo_common lo)"

fun market_common :: "market_order \<Rightarrow> common_order_fields" where
  "market_common (MarketSell mo) = ms_common mo"
| "market_common (MarketBuy mo) = mb_common mo"

fun market_get_account :: "market_order \<Rightarrow> public_key_hash" where
  "market_get_account (MarketSell mo) = co_account (ms_common mo)"
| "market_get_account (MarketBuy mo) = co_account (mb_common mo)"

fun get_account :: "order \<Rightarrow> public_key_hash" where
  "get_account (Limit lo) = lo_account lo"
| "get_account (Market (MarketBuy mo)) = co_account (mb_common mo)"
| "get_account (Market (MarketSell mo)) = co_account (ms_common mo)"

fun get_market_id :: "order \<Rightarrow> market_id" where
  "get_market_id (Limit lo) = co_market_id (lo_common lo)"
| "get_market_id (Market (MarketBuy mo)) = co_market_id (mb_common mo)"
| "get_market_id (Market (MarketSell mo)) = co_market_id (ms_common mo)"

fun get_id :: "order \<Rightarrow> order_id" where
  "get_id (Limit lo) = lo_id lo"
| "get_id (Market (MarketBuy mo)) = co_id (mb_common mo)"
| "get_id (Market (MarketSell mo)) = co_id (ms_common mo)"

text \<open>
  \<open>LimitOrder::get_order_remaining\<close> panics when more than \<open>base_lots\<close> are filled.
\<close>

definition get_order_remaining :: "limit_order \<Rightarrow> nat option" where
  "get_order_remaining lo = do {
     r \<leftarrow> checked_sub (lo_base_lots lo) (lo_filled_base_lots lo);
     checked_sub r (lo_self_filled lo)
   }"

section \<open>The order id counter\<close>

record order_state_manager =
  om_next_id :: order_id

definition order_manager_new :: order_state_manager where
  "order_manager_new = \<lparr>om_next_id = 0\<rparr>"

definition new_limit_order ::
  "order_state_manager \<Rightarrow> market_id \<Rightarrow> public_key_hash \<Rightarrow> order_direction \<Rightarrow>
   order_price_multiple \<Rightarrow> nat \<Rightarrow> (limit_order \<times> order_state_manager) option" where
  "new_limit_order om market_id account direction price_multiple quote_size = do {
     let id = om_next_id om;
     next_id \<leftarrow> add64 id 1;
     Some (\<lparr>lo_common = \<lparr>co_id = id, co_market_id = market_id, co_status = Open,
                          co_account = account, co_direction = direction\<rparr>,
            lo_price_multiple = price_multiple, lo_base_lots = quote_size,
            lo_filled_base_lots = 0, lo_self_filled = 0\<rparr>,
           om\<lparr>om_next_id := next_id\<rparr>)
   }"

definition new_market_order ::
  "order_state_manager \<Rightarrow> market_id \<Rightarrow> public_key_hash \<Rightarrow> order_direction \<Rightarrow> nat \<Rightarrow>
   (market_order \<times> order_state_manager) option" where
  "new_market_order om market_id account direction sz = do {
     let id = om_next_id om;
     next_id \<leftarrow> add64 id 1;
     let common = \<lparr>co_id = id, co_market_id = market_id, co_status = Open,
                   co_account = account, co_direction = direction\<rparr>;
     Some ((case direction of
              Buy \<Rightarrow> MarketBuy \<lparr>mb_quote_size = sz, mb_filled_size = 0, mb_self_filled = 0,
                                mb_average_execution_price = 0, mb_common = common\<rparr>
            | Sell \<Rightarrow> MarketSell \<lparr>ms_base_size = sz, ms_filled_size = 0, ms_self_filled = 0,
                                  ms_average_execution_price = 0, ms_common = common\<rparr>),
           om\<lparr>om_next_id := next_id\<rparr>)
   }"

section \<open>Results of matching and settlement\<close>

record residual_order =
  ro_order_id :: order_id
  ro_account_public_key :: public_key_hash
  ro_price_multiple :: order_price_multiple
  ro_filled_base_lots :: nat
  ro_self_fill :: nat

record user_execution_result =
  ue_order_id :: order_id
  ue_asset_in :: asset_id
  ue_lots_in :: nat
  ue_asset_out :: asset_id
  ue_lots_out :: nat
  ue_filled_size :: nat

record limit_fill_result =
  lf_user_order :: user_execution_result
  lf_filled_orders :: "limit_order list"
  lf_residual_order :: "residual_order option"
  lf_last_executed_price :: "nat option"

text \<open>The two variants of \<open>MarketOrderMatchingResults\<close> have fields of their own.\<close>

record sell_results =
  sr_order_id :: order_id
  sr_base_filled_lots :: nat
  sr_quote_lots_in :: nat
  sr_self_fill :: nat
  sr_filled_orders :: "limit_order list"
  sr_residual_order :: "residual_order option"
  sr_last_executed_price :: "nat option"

record buy_results =
  br_order_id :: order_id
  br_quote_filled_lots :: nat
  br_base_lots_in :: nat
  br_self_fill :: nat
  br_filled_orders :: "limit_order list"
  br_residual_order :: "residual_order option"
  br_last_executed_price :: "nat option"

datatype market_order_matching_results = SellResults sell_results | BuyResults buy_results

fun results_last_executed_price :: "market_order_matching_results \<Rightarrow> nat option" where
  "results_last_executed_price (SellResults r) = sr_last_executed_price r"
| "results_last_executed_price (BuyResults r) = br_last_executed_price r"

datatype order_change =
    LimitOrderChange order_id nat nat
  | MarketOrderChange order_id nat nat nat

record execution_results =
  er_filled_orders :: "limit_order list"
  er_residual_order :: "residual_order option"
  er_user_order_change :: "order_change option"

section \<open>Assets\<close>

record asset =
  as_asset_id :: asset_id
  as_asset_name :: string
  as_lot_size :: nat
  as_decimals :: nat

record asset_manager =
  am_next_asset_id :: asset_id
  am_assets :: "asset list"

definition asset_manager_new :: asset_manager where
  "asset_manager_new =
     \<lparr>am_next_asset_id = 2,
      am_assets =
        [\<lparr>as_asset_id = 0, as_asset_name = ''SUPE'', as_lot_size = 100, as_decimals = 4\<rparr>,
         \<lparr>as_asset_id = 1, as_asset_name = ''USD'', as_lot_size = 100, as_decimals = 4\<rparr>]\<rparr>"

section \<open>Facts\<close>

text \<open>The remaining size as a plain difference, and when it exists.\<close>

definition remaining :: "limit_order \<Rightarrow> nat" where
  "remaining lo = lo_base_lots lo - lo_filled_base_lots lo - lo_self_filled lo"

definition order_ok :: "limit_order \<Rightarrow> bool" where
  "order_ok lo \<longleftrightarrow> lo_filled_base_lots lo + lo_self_filled lo \<le> lo_base_lots lo \<and>
     lo_base_lots lo < 2 ^ 64"

lemma get_order_remaining_Some [checked]:
  "get_order_remaining lo = Some r \<longleftrightarrow>
     lo_base_lots lo = lo_filled_base_lots lo + lo_self_filled lo + r"
  by (auto simp: get_order_remaining_def checked)

lemma get_order_remaining_ok [simp]: "order_ok lo \<Longrightarrow> get_order_remaining lo = Some (remaining lo)"
  by (simp add: get_order_remaining_Some remaining_def order_ok_def)

lemma get_account_market: "get_account (Market m) = market_get_account m"
  by (cases m) auto

end
