(* ===== verification/Precision.thy ===== *)
theory Precision
  imports Orders
begin

text \<open>
  Conversion between base lots and quote lots at a price
  (\<^verbatim>\<open>src/src/state/spot_clearinghouse.rs\<close>, \<open>MarketPrecision\<close>, \<open>base_to_quote_lots\<close>,
  \<open>quote_lots_to_base_lots\<close>). The products are formed in 128 bits, where an overflow panics;
  the quotient is cut to 64 bits with \<open>as u64\<close>, which wraps silently. \<open>quote_of\<close> and
  \<open>base_of\<close> are the exact quotients: the lemmas relate the code to them, give the
  order-theoretic laws the matching engine relies on (rounding down, superadditivity, the
  two conversions form a Galois connection up to rounding) and show where the code wraps.
\<close>

record market_precision =
  mp_base_lot_size :: nat
  mp_quote_lot_size :: nat
  mp_tick :: nat
  mp_tick_decimals :: nat

definition base_to_quote_lots :: "nat \<Rightarrow> nat \<Rightarrow> market_precision \<Rightarrow> nat option" where
  "base_to_quote_lots base_lots price_ticks precision = do {
     n1 \<leftarrow> mul128 base_lots (mp_base_lot_size precision);
     n2 \<leftarrow> mul128 n1 price_ticks;
     numerator \<leftarrow> mul128 n2 (mp_tick precision);
     scale \<leftarrow> checked_pow 128 10 (mp_tick_decimals precision);
     denominator \<leftarrow> mul128 (mp_quote_lot_size precision) scale;
     q \<leftarrow> checked_div numerator denominator;
     Some (as_u64 q)
   }"

definition quote_lots_to_base_lots :: "nat \<Rightarrow> nat \<Rightarrow> market_precision \<Rightarrow> nat option" where
  "quote_lots_to_base_lots quote_lots price_ticks precision = do {
     n1 \<leftarrow> mul128 quote_lots (mp_quote_lot_size precision);
     scale \<leftarrow> checked_pow 128 10 (mp_tick_decimals precision);
     numerator \<leftarrow> mul128 n1 scale;
     d1 \<leftarrow> mul128 price_ticks (mp_tick precision);
     denominator \<leftarrow> mul128 d1 (mp_base_lot_size precision);
     q \<leftarrow> checked_div numerator denominator;
     Some (as_u64 q)
   }"

section \<open>The exact quotients\<close>

text \<open>Units of quote per base lot and per quote lot, scaled by the tick decimals.\<close>

definition price_num :: "nat \<Rightarrow> market_precision \<Rightarrow> nat" where
  "price_num p prec = mp_base_lot_size prec * p * mp_tick prec"

definition price_den :: "market_precision \<Rightarrow> nat" where
  "price_den prec = mp_quote_lot_size prec * 10 ^ mp_tick_decimals prec"

definition quote_of :: "nat \<Rightarrow> nat \<Rightarrow> market_precision \<Rightarrow> nat" where
  "quote_of b p prec = b * price_num p prec div price_den prec"

definition base_of :: "nat \<Rightarrow> nat \<Rightarrow> market_precision \<Rightarrow> nat" where
  "base_of q p prec = q * price_den prec div price_num p prec"

text \<open>
  The conversion of \<open>b\<close> lots at price \<open>p\<close> neither panics nor wraps: every intermediate
  product fits in 128 bits and the quotient in 64.
\<close>

definition converts :: "nat \<Rightarrow> nat \<Rightarrow> market_precision \<Rightarrow> bool" where
  "converts b p prec \<longleftrightarrow>
     0 < price_den prec \<and> price_den prec < 2 ^ 128 \<and>
     b * mp_base_lot_size prec < 2 ^ 128 \<and> b * mp_base_lot_size prec * p < 2 ^ 128 \<and>
     b * price_num p prec < 2 ^ 128 \<and> quote_of b p prec < 2 ^ 64"

section \<open>The code computes the quotients\<close>

lemma price_num_product: "b * mp_base_lot_size prec * p * mp_tick prec = b * price_num p prec"
  by (simp add: price_num_def ac_simps)

lemma pow_less_den:
  "0 < price_den prec \<Longrightarrow> price_den prec < n \<Longrightarrow> 10 ^ mp_tick_decimals prec < n"
  by (rule order.strict_trans1 [of _ "price_den prec"]) (auto simp: price_den_def)

lemma base_to_quote_lots_Some:
  assumes "base_to_quote_lots b p prec = Some q"
  shows "q = as_u64 (quote_of b p prec)" and "0 < price_den prec"
  using assms unfolding base_to_quote_lots_def
  by (auto simp: checked quote_of_def price_num_def price_den_def mult.assoc)

lemma base_to_quote_lots_converts:
  assumes "converts b p prec"
  shows "base_to_quote_lots b p prec = Some (quote_of b p prec)"
proof -
  from assms have "10 ^ mp_tick_decimals prec < (2::nat) ^ 128"
    by (intro pow_less_den) (auto simp: converts_def)
  with assms show ?thesis
    unfolding base_to_quote_lots_def converts_def
    by (simp add: checked_mul_def checked_pow_def checked_div_def price_num_product as_u64_id
        quote_of_def del: power_numeral flip: price_den_def)
qed

lemma quote_lots_to_base_lots_Some:
  assumes "quote_lots_to_base_lots q p prec = Some b"
  shows "b = as_u64 (base_of q p prec)" and "0 < price_num p prec"
  using assms unfolding quote_lots_to_base_lots_def
  by (auto simp: checked base_of_def price_num_def price_den_def mult.assoc mult.commute
      mult.left_commute)

section \<open>Laws of the conversion\<close>

lemma quote_of_mono: "b \<le> b' \<Longrightarrow> quote_of b p prec \<le> quote_of b' p prec"
  by (simp add: quote_of_def div_le_mono)

lemma quote_of_0 [simp]: "quote_of 0 p prec = 0"
  by (simp add: quote_of_def)

text \<open>Converting parts never yields more than converting the whole.\<close>

lemma quote_of_superadd: "quote_of a p prec + quote_of b p prec \<le> quote_of (a + b) p prec"
proof -
  have "x div d + y div d \<le> (x + y) div d" for x y d :: nat
    by (metis add.commute div_add1_eq le_add2)
  then show ?thesis by (simp add: quote_of_def distrib_right)
qed

text \<open>The base lots a quote amount buys never cost more than that amount.\<close>

lemma quote_of_base_of: "0 < price_den prec \<Longrightarrow> quote_of (base_of q p prec) p prec \<le> q"
proof -
  assume d: "0 < price_den prec"
  have "base_of q p prec * price_num p prec \<le> q * price_den prec"
    unfolding base_of_def by (rule div_times_less_eq_dividend)
  then have "quote_of (base_of q p prec) p prec \<le> q * price_den prec div price_den prec"
    unfolding quote_of_def by (rule div_le_mono)
  with d show ?thesis by simp
qed

lemma converts_mono: "converts b p prec \<Longrightarrow> b' \<le> b \<Longrightarrow> converts b' p prec"
  unfolding converts_def
  by (intro conjI; (elim conjE)?; (assumption | meson le_less_trans mult_le_mono1 quote_of_mono))

end
