(* ===== verification/Order_Book.thy ===== *)
theory Order_Book
  imports Precision
begin

text \<open>
  One side of the order book (\<^verbatim>\<open>src/src/state/spot_market.rs\<close>): price levels kept in a vector
  with the best price last, each level a queue of limit orders in order of arrival. Adding
  and cancelling search the vector of levels, and cancelling searches a level's orders by
  id, with hand-written binary searches. The section on the reference definitions gives the
  linear scans \<open>book_insert\<close>, \<open>book_cancel\<close> and \<open>mark_linear\<close>; the locale \<open>price_priority\<close>
  holds what the searches need of the comparison closure, and is interpreted for the two
  closures the code passes (bids and asks) in the section after it.
\<close>

section \<open>State\<close>

record level_info =
  li_price :: nat
  li_volume :: nat

record level =
  lv_price :: nat
  lv_volume :: nat
  lv_orders :: "limit_order list"
  lv_cancelled :: nat

text \<open>\<open>std::cmp::Ordering\<close> and the closures \<open>|a, b| a.partial_cmp(&b)\<close> (bids) and
  \<open>|a, b| b.partial_cmp(&a)\<close> (asks); on integers \<open>partial_cmp\<close> never fails.\<close>

datatype ordering = Less | Equal | Greater

definition cmp_bid :: "nat \<Rightarrow> nat \<Rightarrow> ordering" where
  "cmp_bid a b = (if a < b then Less else if a = b then Equal else Greater)"

definition cmp_ask :: "nat \<Rightarrow> nat \<Rightarrow> ordering" where
  "cmp_ask a b = (if b < a then Less else if b = a then Equal else Greater)"

section \<open>Adding an order\<close>

text \<open>What \<open>add_order_with_cmp\<close> does at an existing level and with a new one.\<close>

definition push_order :: "level \<Rightarrow> limit_order \<Rightarrow> level option" where
  "push_order lv order = do {
     unfilled \<leftarrow> checked_sub (lo_base_lots order) (lo_filled_base_lots order);
     volume \<leftarrow> add64 (lv_volume lv) unfilled;
     Some (lv\<lparr>lv_volume := volume, lv_orders := lv_orders lv @ [order]\<rparr>)
   }"

definition new_level :: "limit_order \<Rightarrow> level option" where
  "new_level order = do {
     volume \<leftarrow> checked_sub (lo_base_lots order) (lo_filled_base_lots order);
     Some \<lparr>lv_price = lo_price_multiple order, lv_volume = volume, lv_orders = [order],
           lv_cancelled = 0\<rparr>
   }"

function add_order_loop ::
  "(nat \<Rightarrow> nat \<Rightarrow> ordering) \<Rightarrow> level list \<Rightarrow> limit_order \<Rightarrow> nat \<Rightarrow> nat \<Rightarrow> level list option" where
  "add_order_loop cmp levels order left right =
     (let price = lo_price_multiple order in
      if left < right then
        let mid = left + (right - left) div 2 in
        do {
          lv \<leftarrow> index levels mid;
          if price = lv_price lv then do {
            lv' \<leftarrow> push_order lv order;
            Some (levels[mid := lv'])
          }
          else if cmp price (lv_price lv) = Less then add_order_loop cmp levels order left mid
          else add_order_loop cmp levels order (mid + 1) right
        }
      else do {
        lv \<leftarrow> new_level order;
        vec_insert levels left lv
      })"
  by pat_completeness auto
termination
  by (relation "measure (\<lambda>(cmp, levels, order, left, right). right - left)") auto

definition add_order_with_cmp ::
  "(nat \<Rightarrow> nat \<Rightarrow> ordering) \<Rightarrow> level list \<Rightarrow> limit_order \<Rightarrow> level list option" where
  "add_order_with_cmp cmp levels order = add_order_loop cmp levels order 0 (length levels)"

section \<open>Cancelling an order\<close>

definition set_status :: "order_status \<Rightarrow> limit_order \<Rightarrow> limit_order" where
  "set_status st lo = lo\<lparr>lo_common := (lo_common lo)\<lparr>co_status := st\<rparr>\<rparr>"

text \<open>
  The binary search of \<open>mark_order_as_cancelled\<close> by order id. The result is whether an open
  order was found, and the vector of orders.
\<close>

function mark_loop ::
  "limit_order list \<Rightarrow> order_id \<Rightarrow> nat \<Rightarrow> nat \<Rightarrow> (bool \<times> limit_order list) option" where
  "mark_loop orders order_id left right =
     (if left < right then
        let mid = left + (right - left) div 2 in
        do {
          lo \<leftarrow> index orders mid;
          if order_id = lo_id lo then
            (if lo_status lo = Cancelled then Some (False, orders)
             else Some (True, orders[mid := set_status Cancelled lo]))
          else if order_id < lo_id lo then mark_loop orders order_id left mid
          else mark_loop orders order_id (mid + 1) right
        }
      else Some (False, orders))"
  by pat_completeness auto
termination
  by (relation "measure (\<lambda>(orders, order_id, left, right). right - left)") auto

definition mark_order_as_cancelled ::
  "limit_order list \<Rightarrow> limit_order \<Rightarrow> (bool \<times> limit_order list) option" where
  "mark_order_as_cancelled orders order = mark_loop orders (lo_id order) 0 (length orders)"

text \<open>
  What \<open>cancel_order_with_cmp\<close> does at the level of the order's price: the unfilled size it
  returns, and the level, or \<open>None\<close> where the level is removed. The size is taken from the
  order passed in, which is the caller's copy.
\<close>

definition cancel_in_level :: "level \<Rightarrow> limit_order \<Rightarrow> (nat \<times> level option) option" where
  "cancel_in_level lv order = do {
     (found, orders) \<leftarrow> mark_order_as_cancelled (lv_orders lv) order;
     if \<not> found then Some (0, Some lv)
     else do {
       cancelled \<leftarrow> add32 (lv_cancelled lv) 1;
       unfilled_size \<leftarrow> checked_sub (lo_base_lots order) (lo_filled_base_lots order);
       volume \<leftarrow> checked_sub (lv_volume lv) unfilled_size;
       let lv' = lv\<lparr>lv_orders := orders, lv_cancelled := cancelled, lv_volume := volume\<rparr>;
       if volume = 0 then Some (unfilled_size, None)
       else if as_u32 (length orders div 2) < cancelled then
         Some (unfilled_size,
           Some (lv'\<lparr>lv_orders := filter (\<lambda>lo. lo_status lo \<noteq> Cancelled) orders,
                     lv_cancelled := 0\<rparr>))
       else Some (unfilled_size, Some lv')
     }
   }"

function cancel_order_loop ::
  "(nat \<Rightarrow> nat \<Rightarrow> ordering) \<Rightarrow> level list \<Rightarrow> limit_order \<Rightarrow> nat \<Rightarrow> nat \<Rightarrow>
   (nat \<times> level list) option" where
  "cancel_order_loop cmp levels order left right =
     (let price = lo_price_multiple order in
      if left < right then
        let mid = left + (right - left) div 2 in
        do {
          lv \<leftarrow> index levels mid;
          if price = lv_price lv then do {
            (unfilled_size, lv_opt) \<leftarrow> cancel_in_level lv order;
            (case lv_opt of
               None \<Rightarrow> do { levels' \<leftarrow> vec_remove levels mid; Some (unfilled_size, levels') }
             | Some lv' \<Rightarrow> Some (unfilled_size, levels[mid := lv']))
          }
          else if cmp price (lv_price lv) = Less then cancel_order_loop cmp levels order left mid
          else cancel_order_loop cmp levels order (mid + 1) right
        }
      else Some (0, levels))"
  by pat_completeness auto
termination
  by (relation "measure (\<lambda>(cmp, levels, order, left, right). right - left)") auto

definition cancel_order_with_cmp ::
  "(nat \<Rightarrow> nat \<Rightarrow> ordering) \<Rightarrow> level list \<Rightarrow> limit_order \<Rightarrow> (nat \<times> level list) option" where
  "cancel_order_with_cmp cmp levels order = cancel_order_loop cmp levels order 0 (length levels)"

declare add_order_loop.simps [simp del] mark_loop.simps [simp del]
  cancel_order_loop.simps [simp del]

section \<open>The invariant of a side\<close>

definition live :: "limit_order \<Rightarrow> bool" where
  "live lo \<longleftrightarrow> lo_status lo \<noteq> Cancelled"

definition live_volume :: "limit_order list \<Rightarrow> nat" where
  "live_volume los = sum_list (map remaining (filter live los))"

definition level_ok :: "level \<Rightarrow> bool" where
  "level_ok lv \<longleftrightarrow>
     lv_orders lv \<noteq> [] \<and>
     (\<forall>lo\<in>set (lv_orders lv). lo_price_multiple lo = lv_price lv \<and> order_ok lo) \<and>
     sorted_wrt (<) (map lo_id (lv_orders lv)) \<and>
     lv_volume lv = live_volume (lv_orders lv) \<and> lv_volume lv < 2 ^ 64 \<and>
     lv_cancelled lv = length (filter (\<lambda>lo. \<not> live lo) (lv_orders lv)) \<and> lv_cancelled lv < 2 ^ 32"

definition levels_sorted :: "(nat \<Rightarrow> nat \<Rightarrow> ordering) \<Rightarrow> level list \<Rightarrow> bool" where
  "levels_sorted cmp levels \<longleftrightarrow> sorted_wrt (\<lambda>a b. cmp a b = Less) (map lv_price levels)"

text \<open>All orders of a side, worst level first.\<close>

definition side_orders :: "level list \<Rightarrow> limit_order list" where
  "side_orders levels = concat (map lv_orders levels)"

definition side_ok :: "(nat \<Rightarrow> nat \<Rightarrow> ordering) \<Rightarrow> level list \<Rightarrow> bool" where
  "side_ok cmp levels \<longleftrightarrow>
     levels_sorted cmp levels \<and> (\<forall>lv\<in>set levels. level_ok lv) \<and>
     distinct (map lo_id (side_orders levels))"

text \<open>An order as it is when it enters the book: nothing of it filled against itself.\<close>

definition enters :: "limit_order \<Rightarrow> bool" where
  "enters lo \<longleftrightarrow> order_ok lo \<and> live lo \<and> lo_self_filled lo = 0"

text \<open>The orders a taker can still trade with.\<close>

definition active :: "limit_order \<Rightarrow> bool" where
  "active lo \<longleftrightarrow> live lo \<and> 0 < remaining lo"

text \<open>The effect of \<open>mark_order_as_cancelled\<close> on one order.\<close>

definition mark_id :: "order_id \<Rightarrow> limit_order \<Rightarrow> limit_order" where
  "mark_id k lo = (if lo_id lo = k then set_status Cancelled lo else lo)"

section \<open>Reference definitions: linear scans\<close>

fun book_insert ::
  "(nat \<Rightarrow> nat \<Rightarrow> ordering) \<Rightarrow> level list \<Rightarrow> limit_order \<Rightarrow> level list option" where
  "book_insert cmp [] order = do { lv \<leftarrow> new_level order; Some [lv] }"
| "book_insert cmp (lv # levels) order =
     (if lo_price_multiple order = lv_price lv then do {
        lv' \<leftarrow> push_order lv order;
        Some (lv' # levels)
      }
      else if cmp (lo_price_multiple order) (lv_price lv) = Less then do {
        lv' \<leftarrow> new_level order;
        Some (lv' # lv # levels)
      }
      else do { levels' \<leftarrow> book_insert cmp levels order; Some (lv # levels') })"

definition mark_linear :: "limit_order list \<Rightarrow> order_id \<Rightarrow> bool \<times> limit_order list" where
  "mark_linear orders order_id =
     (case position (\<lambda>lo. lo_id lo = order_id) orders of
        None \<Rightarrow> (False, orders)
      | Some i \<Rightarrow>
          if lo_status (orders ! i) = Cancelled then (False, orders)
          else (True, orders[i := set_status Cancelled (orders ! i)]))"

fun book_cancel :: "level list \<Rightarrow> limit_order \<Rightarrow> (nat \<times> level list) option" where
  "book_cancel [] order = Some (0, [])"
| "book_cancel (lv # levels) order =
     (if lo_price_multiple order = lv_price lv then do {
        (unfilled_size, lv_opt) \<leftarrow> cancel_in_level lv order;
        Some (unfilled_size, (case lv_opt of None \<Rightarrow> levels | Some lv' \<Rightarrow> lv' # levels))
      }
      else do {
        (unfilled_size, levels') \<leftarrow> book_cancel levels order;
        Some (unfilled_size, lv # levels')
      })"

section \<open>Searching a sorted vector\<close>

text \<open>
  The contract of the comparison closure: a strict total order, of which \<open>Less\<close> is the
  "worse than" direction of the side.
\<close>

lemma midpoint:
  fixes left right :: nat
  assumes "left < right"
  shows "left \<le> left + (right - left) div 2 \<and> left + (right - left) div 2 < right"
  using assms by auto

locale price_priority =
  fixes cmp :: "nat \<Rightarrow> nat \<Rightarrow> ordering"
  assumes cmp_Equal: "cmp a b = Equal \<longleftrightarrow> a = b"
    and cmp_Greater: "cmp a b = Greater \<longleftrightarrow> cmp b a = Less"
    and cmp_trans: "cmp a b = Less \<Longrightarrow> cmp b c = Less \<Longrightarrow> cmp a c = Less"
begin

lemma cmp_irrefl [simp]: "cmp a a \<noteq> Less"
  using cmp_Equal [of a a] by simp

lemma cmp_asym: "cmp a b = Less \<Longrightarrow> cmp b a \<noteq> Less"
  using cmp_trans cmp_irrefl by blast

lemma cmp_total: "a \<noteq> b \<Longrightarrow> cmp a b \<noteq> Less \<Longrightarrow> cmp b a = Less"
  using cmp_Equal [of a b] cmp_Greater [of a b] by (cases "cmp a b") auto

lemma sorted_nth_Less:
  assumes "sorted_wrt (\<lambda>a b. cmp a b = Less) (map key xs)" "i < j" "j < length xs"
  shows "cmp (key (xs ! i)) (key (xs ! j)) = Less"
  using sorted_wrt_nth_less [OF assms(1,2)] assms by simp

text \<open>
  The loop invariant of the three searches: everything left of \<open>left\<close> is worse than the key,
  everything from \<open>right\<close> on is better.
\<close>

definition between :: "('a \<Rightarrow> nat) \<Rightarrow> 'a list \<Rightarrow> nat \<Rightarrow> nat \<Rightarrow> nat \<Rightarrow> bool" where
  "between key xs k left right \<longleftrightarrow>
     left \<le> right \<and> right \<le> length xs \<and>
     (\<forall>i<left. cmp (key (xs ! i)) k = Less) \<and>
     (\<forall>i. right \<le> i \<longrightarrow> i < length xs \<longrightarrow> cmp k (key (xs ! i)) = Less)"

lemma between_init: "between key xs k 0 (length xs)"
  by (simp add: between_def)

lemma between_left:
  assumes "between key xs k left right" "left \<le> mid" "mid < right"
    and "sorted_wrt (\<lambda>a b. cmp a b = Less) (map key xs)"
    and "cmp k (key (xs ! mid)) = Less"
  shows "between key xs k left mid"
proof -
  have "cmp k (key (xs ! i)) = Less" if "mid \<le> i" "i < length xs" for i
  proof (cases "mid = i")
    case False
    with that have "cmp (key (xs ! mid)) (key (xs ! i)) = Less"
      by (intro sorted_nth_Less [OF assms(4)]) auto
    with assms(5) show ?thesis by (rule cmp_trans)
  qed (use assms(5) in simp)
  with assms(1-3) show ?thesis by (auto simp: between_def)
qed

lemma between_right:
  assumes "between key xs k left right" "left \<le> mid" "mid < right"
    and "sorted_wrt (\<lambda>a b. cmp a b = Less) (map key xs)"
    and "k \<noteq> key (xs ! mid)" "cmp k (key (xs ! mid)) \<noteq> Less"
  shows "between key xs k (mid + 1) right"
proof -
  have mid: "cmp (key (xs ! mid)) k = Less" using assms(5,6) by (rule cmp_total)
  have "cmp (key (xs ! i)) k = Less" if "i \<le> mid" for i
  proof (cases "mid = i")
    case False
    with that assms(1-3) have "cmp (key (xs ! i)) (key (xs ! mid)) = Less"
      by (intro sorted_nth_Less [OF assms(4)]) (auto simp: between_def)
    then show ?thesis using mid by (rule cmp_trans)
  qed (use mid in simp)
  with assms(1-3) show ?thesis by (auto simp: between_def)
qed

lemma between_absent:
  assumes "between key xs k left left"
  shows "\<forall>x\<in>set xs. key x \<noteq> k"
proof
  fix x
  assume "x \<in> set xs"
  then obtain i where i: "i < length xs" "x = xs ! i" by (auto simp: in_set_conv_nth)
  with assms show "key x \<noteq> k"
    by (cases "i < left") (auto simp: between_def not_less)
qed

lemma sorted_position:
  assumes "sorted_wrt (\<lambda>a b. cmp a b = Less) (map key xs)" "i < length xs" "key (xs ! i) = k"
  shows "position (\<lambda>x. key x = k) xs = Some i"
proof (cases "position (\<lambda>x. key x = k) xs")
  case None
  with assms show ?thesis by (auto simp: position_None)
next
  case (Some j)
  from position_Some [OF this] have j: "j < length xs" "key (xs ! j) = k" by auto
  with assms have "i = j"
    using sorted_nth_Less [OF assms(1), of i j] sorted_nth_Less [OF assms(1), of j i]
    by (cases i j rule: linorder_cases) auto
  with Some show ?thesis by simp
qed

text \<open>The linear insertion at a level that exists, and between levels.\<close>

lemma book_insert_found:
  assumes "levels_sorted cmp levels" "i < length levels"
    and "lo_price_multiple order = lv_price (levels ! i)"
  shows "book_insert cmp levels order =
    do { lv' \<leftarrow> push_order (levels ! i) order; Some (levels[i := lv']) }"
  using assms
proof (induction levels arbitrary: i)
  case (Cons lv levels)
  show ?case
  proof (cases i)
    case 0
    with Cons.prems show ?thesis by simp
  next
    case (Suc j)
    with Cons.prems have "cmp (lv_price lv) (lo_price_multiple order) = Less"
      by (auto simp: levels_sorted_def)
    then have ne: "lo_price_multiple order \<noteq> lv_price lv"
      "cmp (lo_price_multiple order) (lv_price lv) \<noteq> Less"
      by (auto dest: cmp_asym)
    have "book_insert cmp levels order =
        do { lv' \<leftarrow> push_order (levels ! j) order; Some (levels[j := lv']) }"
      using Cons.prems Suc by (intro Cons.IH) (auto simp: levels_sorted_def)
    with ne Suc show ?thesis by (cases "push_order (levels ! j) order") auto
  qed
qed simp

lemma book_insert_absent:
  assumes "between lv_price levels (lo_price_multiple order) i i"
  shows "book_insert cmp levels order = do { lv \<leftarrow> new_level order; vec_insert levels i lv }"
  using assms
proof (induction levels arbitrary: i)
  case Nil
  then show ?case by (simp add: between_def vec_insert_def)
next
  case (Cons lv levels)
  show ?case
  proof (cases i)
    case 0
    with Cons.prems have "cmp (lo_price_multiple order) (lv_price lv) = Less"
      by (auto simp: between_def)
    then show ?thesis using 0 by (auto simp: vec_insert_def)
  next
    case (Suc j)
    with Cons.prems have "cmp (lv_price lv) (lo_price_multiple order) = Less"
      by (auto simp: between_def)
    then have ne: "lo_price_multiple order \<noteq> lv_price lv"
      "cmp (lo_price_multiple order) (lv_price lv) \<noteq> Less"
      by (auto dest: cmp_asym)
    have j: "between lv_price levels (lo_price_multiple order) j j"
      using Cons.prems Suc by (fastforce simp: between_def)
    then have "j \<le> length levels" by (simp add: between_def)
    with Cons.IH [OF j] ne Suc show ?thesis
      by (cases "new_level order") (auto simp: vec_insert_def)
  qed
qed

text \<open>The binary searches equal the scans.\<close>

lemma add_order_loop_insert:
  assumes sorted: "levels_sorted cmp levels"
    and "between lv_price levels (lo_price_multiple order) left right"
  shows "add_order_loop cmp levels order left right = book_insert cmp levels order"
  using assms(2)
proof (induction "right - left" arbitrary: left right rule: less_induct)
  case less
  let ?p = "lo_price_multiple order" and ?mid = "left + (right - left) div 2"
  show ?case
  proof (cases "left < right")
    case True
    note mid = midpoint [OF True]
    with less.prems have len: "?mid < length levels" by (auto simp: between_def)
    have sw: "sorted_wrt (\<lambda>a b. cmp a b = Less) (map lv_price levels)"
      using sorted by (simp add: levels_sorted_def)
    consider (eq) "?p = lv_price (levels ! ?mid)"
      | (lt) "?p \<noteq> lv_price (levels ! ?mid)" "cmp ?p (lv_price (levels ! ?mid)) = Less"
      | (gt) "?p \<noteq> lv_price (levels ! ?mid)" "cmp ?p (lv_price (levels ! ?mid)) \<noteq> Less"
      by blast
    then show ?thesis
    proof cases
      case eq
      with True len book_insert_found [OF sorted len eq] show ?thesis
        by (simp add: add_order_loop.simps [of cmp levels order left right] index_def Let_def)
    next
      case lt
      then have "add_order_loop cmp levels order left ?mid = book_insert cmp levels order"
        using mid True between_left [OF less.prems _ _ sw] by (intro less.hyps) auto
      with lt True len show ?thesis
        by (simp add: add_order_loop.simps [of cmp levels order left right] index_def Let_def)
    next
      case gt
      then have "add_order_loop cmp levels order (?mid + 1) right = book_insert cmp levels order"
        using mid True between_right [OF less.prems _ _ sw] by (intro less.hyps) auto
      with gt True len show ?thesis
        by (simp add: add_order_loop.simps [of cmp levels order left right] index_def Let_def)
    qed
  next
    case False
    with less.prems have "right = left" by (simp add: between_def)
    with less.prems book_insert_absent [of levels order left] show ?thesis
      by (subst add_order_loop.simps) simp
  qed
qed

lemma add_order_with_cmp_insert:
  "levels_sorted cmp levels \<Longrightarrow>
   add_order_with_cmp cmp levels order = book_insert cmp levels order"
  unfolding add_order_with_cmp_def by (erule add_order_loop_insert) (rule between_init)

lemma book_cancel_found:
  assumes "levels_sorted cmp levels" "i < length levels"
    and "lo_price_multiple order = lv_price (levels ! i)"
  shows "book_cancel levels order =
    do { (u, lv_opt) \<leftarrow> cancel_in_level (levels ! i) order;
         (case lv_opt of
            None \<Rightarrow> do { levels' \<leftarrow> vec_remove levels i; Some (u, levels') }
          | Some lv' \<Rightarrow> Some (u, levels[i := lv'])) }"
  using assms
proof (induction levels arbitrary: i)
  case (Cons lv levels)
  show ?case
  proof (cases i)
    case 0
    with Cons.prems show ?thesis
      by (cases "cancel_in_level lv order") (auto simp: vec_remove_def split: option.splits)
  next
    case (Suc j)
    with Cons.prems have "cmp (lv_price lv) (lo_price_multiple order) = Less"
      by (auto simp: levels_sorted_def)
    then have ne: "lo_price_multiple order \<noteq> lv_price lv" by auto
    have "book_cancel levels order =
        do { (u, lv_opt) \<leftarrow> cancel_in_level (levels ! j) order;
             (case lv_opt of
                None \<Rightarrow> do { levels' \<leftarrow> vec_remove levels j; Some (u, levels') }
              | Some lv' \<Rightarrow> Some (u, levels[j := lv'])) }"
      using Cons.prems Suc by (intro Cons.IH) (auto simp: levels_sorted_def)
    with ne Suc Cons.prems(2) show ?thesis
      by (cases "cancel_in_level (levels ! j) order")
        (auto simp: vec_remove_def split: option.splits)
  qed
qed simp

lemma book_cancel_absent:
  "\<forall>lv\<in>set levels. lv_price lv \<noteq> lo_price_multiple order \<Longrightarrow> book_cancel levels order = Some (0, levels)"
  by (induction levels) auto

lemma cancel_order_loop_cancel:
  assumes sorted: "levels_sorted cmp levels"
    and "between lv_price levels (lo_price_multiple order) left right"
  shows "cancel_order_loop cmp levels order left right = book_cancel levels order"
  using assms(2)
proof (induction "right - left" arbitrary: left right rule: less_induct)
  case less
  let ?p = "lo_price_multiple order" and ?mid = "left + (right - left) div 2"
  show ?case
  proof (cases "left < right")
    case True
    note mid = midpoint [OF True]
    with less.prems have len: "?mid < length levels" by (auto simp: between_def)
    have sw: "sorted_wrt (\<lambda>a b. cmp a b = Less) (map lv_price levels)"
      using sorted by (simp add: levels_sorted_def)
    consider (eq) "?p = lv_price (levels ! ?mid)"
      | (lt) "?p \<noteq> lv_price (levels ! ?mid)" "cmp ?p (lv_price (levels ! ?mid)) = Less"
      | (gt) "?p \<noteq> lv_price (levels ! ?mid)" "cmp ?p (lv_price (levels ! ?mid)) \<noteq> Less"
      by blast
    then show ?thesis
    proof cases
      case eq
      with True len book_cancel_found [OF sorted len eq] show ?thesis
        by (simp add: cancel_order_loop.simps [of cmp levels order left right] index_def Let_def)
    next
      case lt
      then have "cancel_order_loop cmp levels order left ?mid = book_cancel levels order"
        using mid True between_left [OF less.prems _ _ sw] by (intro less.hyps) auto
      with lt True len show ?thesis
        by (simp add: cancel_order_loop.simps [of cmp levels order left right] index_def Let_def)
    next
      case gt
      then have "cancel_order_loop cmp levels order (?mid + 1) right = book_cancel levels order"
        using mid True between_right [OF less.prems _ _ sw] by (intro less.hyps) auto
      with gt True len show ?thesis
        by (simp add: cancel_order_loop.simps [of cmp levels order left right] index_def Let_def)
    qed
  next
    case False
    with less.prems have "right = left" by (simp add: between_def)
    with less.prems have "book_cancel levels order = Some (0, levels)"
      by (intro book_cancel_absent) (auto dest: between_absent)
    with False show ?thesis
      by (simp add: cancel_order_loop.simps [of cmp levels order left right])
  qed
qed

lemma cancel_order_with_cmp_cancel:
  "levels_sorted cmp levels \<Longrightarrow>
   cancel_order_with_cmp cmp levels order = book_cancel levels order"
  unfolding cancel_order_with_cmp_def by (erule cancel_order_loop_cancel) (rule between_init)

end

section \<open>The closures of the code\<close>

interpretation bid_cmp: price_priority cmp_bid
  by unfold_locales (auto simp: cmp_bid_def split: if_splits)

interpretation ask_cmp: price_priority cmp_ask
  by unfold_locales (auto simp: cmp_ask_def split: if_splits)

lemma cmp_bid_Less [simp]: "cmp_bid a b = Less \<longleftrightarrow> a < b"
  by (simp add: cmp_bid_def)

lemma cmp_ask_Less [simp]: "cmp_ask a b = Less \<longleftrightarrow> b < a"
  by (simp add: cmp_ask_def)

text \<open>The search by order id compares with \<open><\<close>, which is the closure of the bids.\<close>

lemma mark_loop_linear:
  assumes sorted: "sorted_wrt (<) (map lo_id orders)"
    and "bid_cmp.between lo_id orders k left right"
  shows "mark_loop orders k left right = Some (mark_linear orders k)"
  using assms(2)
proof (induction "right - left" arbitrary: left right rule: less_induct)
  case less
  let ?mid = "left + (right - left) div 2"
  have sw: "sorted_wrt (\<lambda>a b. cmp_bid a b = Less) (map lo_id orders)"
    using sorted by simp
  show ?case
  proof (cases "left < right")
    case True
    note mid = midpoint [OF True]
    with less.prems have len: "?mid < length orders" by (auto simp: bid_cmp.between_def)
    consider (eq) "k = lo_id (orders ! ?mid)" | (lt) "k < lo_id (orders ! ?mid)"
      | (gt) "lo_id (orders ! ?mid) < k"
      by linarith
    then show ?thesis
    proof cases
      case eq
      then have "position (\<lambda>lo. lo_id lo = k) orders = Some ?mid"
        by (intro bid_cmp.sorted_position [OF sw len]) simp
      with eq True len show ?thesis
        by (subst mark_loop.simps) (simp add: index_def mark_linear_def Let_def)
    next
      case lt
      then have "mark_loop orders k left ?mid = Some (mark_linear orders k)"
        using mid True bid_cmp.between_left [OF less.prems _ _ sw] by (intro less.hyps) auto
      with lt True len show ?thesis
        by (simp add: mark_loop.simps [of orders k left right] index_def Let_def)
    next
      case gt
      then have "mark_loop orders k (?mid + 1) right = Some (mark_linear orders k)"
        using mid True bid_cmp.between_right [OF less.prems _ _ sw] by (intro less.hyps) auto
      with gt True len show ?thesis
        by (simp add: mark_loop.simps [of orders k left right] index_def Let_def)
    qed
  next
    case False
    with less.prems have "bid_cmp.between lo_id orders k left left"
      by (auto simp: bid_cmp.between_def)
    then have "position (\<lambda>lo. lo_id lo = k) orders = None"
      by (auto simp: position_None dest: bid_cmp.between_absent)
    with False show ?thesis
      by (simp add: mark_loop.simps [of orders k left right] mark_linear_def)
  qed
qed

lemma mark_order_as_cancelled_linear:
  "sorted_wrt (<) (map lo_id orders) \<Longrightarrow>
   mark_order_as_cancelled orders order = Some (mark_linear orders (lo_id order))"
  unfolding mark_order_as_cancelled_def
  by (rule mark_loop_linear) (auto intro: bid_cmp.between_init)

section \<open>Preservation of the invariant\<close>

lemma side_orders_simps [simp]:
  "side_orders [] = []"
  "side_orders (lv # levels) = lv_orders lv @ side_orders levels"
  "side_orders (levels @ levels') = side_orders levels @ side_orders levels'"
  by (simp_all add: side_orders_def)

lemma live_volume_simps [simp]:
  "live_volume [] = 0"
  "live_volume (lo # los) = (if live lo then remaining lo else 0) + live_volume los"
  "live_volume (los @ los') = live_volume los + live_volume los'"
  by (simp_all add: live_volume_def)

lemma set_status_simps [simp]:
  "lo_id (set_status st lo) = lo_id lo" "lo_account (set_status st lo) = lo_account lo"
  "lo_price_multiple (set_status st lo) = lo_price_multiple lo"
  "lo_direction (set_status st lo) = lo_direction lo"
  "order_ok (set_status st lo) = order_ok lo" "remaining (set_status st lo) = remaining lo"
  "live (set_status st lo) \<longleftrightarrow> st \<noteq> Cancelled"
  "lo_self_filled (set_status st lo) = lo_self_filled lo"
  by (simp_all add: set_status_def order_ok_def remaining_def live_def)

lemma enters_remaining: "enters lo \<Longrightarrow> remaining lo = lo_base_lots lo - lo_filled_base_lots lo"
  by (simp add: enters_def remaining_def)

lemma push_order_ok:
  assumes "level_ok lv" "enters lo" "lo_price_multiple lo = lv_price lv"
    and "\<forall>x\<in>set (lv_orders lv). lo_id x < lo_id lo"
    and "push_order lv lo = Some lv'"
  shows "level_ok lv'" "lv_price lv' = lv_price lv" "lv_orders lv' = lv_orders lv @ [lo]"
  using assms enters_remaining [OF assms(2)]
  by (auto simp: push_order_def checked level_ok_def enters_def sorted_wrt_append)

lemma new_level_ok:
  assumes "enters lo" "new_level lo = Some lv"
  shows "level_ok lv" "lv_price lv = lo_price_multiple lo" "lv_orders lv = [lo]"
  using assms enters_remaining [OF assms(1)]
  by (auto simp: new_level_def checked level_ok_def enters_def order_ok_def)

lemma new_level_total: "order_ok lo \<Longrightarrow> \<exists>lv. new_level lo = Some lv"
  by (simp add: new_level_def order_ok_def)

lemma push_order_total:
  "order_ok lo \<Longrightarrow> lv_volume lv + lo_base_lots lo < 2 ^ 64 \<Longrightarrow> \<exists>lv'. push_order lv lo = Some lv'"
  by (simp add: push_order_def order_ok_def checked_add_def)

lemma book_insert_prices:
  "book_insert cmp levels lo = Some levels' \<Longrightarrow>
   lv_price ` set levels' = insert (lo_price_multiple lo) (lv_price ` set levels)"
proof (induction levels arbitrary: levels')
  case Nil
  then show ?case by (auto simp: checked new_level_def)
next
  case (Cons lv levels)
  show ?case
  proof (cases "lo_price_multiple lo = lv_price lv \<or> cmp (lo_price_multiple lo) (lv_price lv) = Less")
    case True
    with Cons.prems show ?thesis
      by (auto simp: checked new_level_def push_order_def split: if_splits)
  next
    case False
    with Cons.prems obtain ls where ls: "book_insert cmp levels lo = Some ls" "levels' = lv # ls"
      by (auto simp: checked)
    then show ?thesis using Cons.IH [OF ls(1)] by auto
  qed
qed

lemma book_insert_orders:
  "book_insert cmp levels lo = Some levels' \<Longrightarrow>
   mset (side_orders levels') = add_mset lo (mset (side_orders levels))"
  by (induction levels arbitrary: levels')
    (auto simp: checked new_level_def push_order_def split: if_splits)

lemma book_insert_level_ok:
  assumes "\<forall>lv\<in>set levels. level_ok lv" "enters lo"
    and "\<forall>x\<in>set (side_orders levels). lo_id x < lo_id lo"
    and "book_insert cmp levels lo = Some levels'"
  shows "\<forall>lv\<in>set levels'. level_ok lv"
  using assms(1,3,4)
proof (induction levels arbitrary: levels')
  case Nil
  then show ?case by (auto simp: checked dest: new_level_ok(1) [OF assms(2)])
next
  case (Cons lv levels)
  consider (eq) "lo_price_multiple lo = lv_price lv"
    | (lt) "lo_price_multiple lo \<noteq> lv_price lv" "cmp (lo_price_multiple lo) (lv_price lv) = Less"
    | (gt) "lo_price_multiple lo \<noteq> lv_price lv" "cmp (lo_price_multiple lo) (lv_price lv) \<noteq> Less"
    by blast
  then show ?case
  proof cases
    case eq
    with Cons.prems obtain lv' where "push_order lv lo = Some lv'" "levels' = lv' # levels"
      by (auto simp: checked)
    with Cons.prems eq assms(2) show ?thesis by (auto intro!: push_order_ok(1) [of lv lo])
  next
    case lt
    with Cons.prems obtain lv' where "new_level lo = Some lv'" "levels' = lv' # lv # levels"
      by (auto simp: checked)
    with Cons.prems show ?thesis by (auto dest: new_level_ok(1) [OF assms(2)])
  next
    case gt
    with Cons.prems obtain ls where "book_insert cmp levels lo = Some ls" "levels' = lv # ls"
      by (auto simp: checked)
    with Cons.prems Cons.IH [of ls] show ?thesis by auto
  qed
qed

context price_priority
begin

lemma book_insert_sorted:
  assumes "levels_sorted cmp levels" "book_insert cmp levels lo = Some levels'"
  shows "levels_sorted cmp levels'"
  using assms
proof (induction levels arbitrary: levels')
  case Nil
  then show ?case by (auto simp: checked levels_sorted_def)
next
  case (Cons lv levels)
  let ?p = "lo_price_multiple lo"
  have tl: "levels_sorted cmp levels" "\<forall>q\<in>lv_price ` set levels. cmp (lv_price lv) q = Less"
    using Cons.prems(1) by (auto simp: levels_sorted_def)
  show ?case
  proof (cases "?p = lv_price lv \<or> cmp ?p (lv_price lv) = Less")
    case True
    with Cons.prems tl show ?thesis
      by (auto simp: checked push_order_def new_level_def levels_sorted_def split: if_splits)
        (blast intro: cmp_trans)
  next
    case False
    with Cons.prems obtain ls where ls: "book_insert cmp levels lo = Some ls" "levels' = lv # ls"
      by (auto simp: checked)
    have "\<forall>q\<in>lv_price ` set ls. cmp (lv_price lv) q = Less"
      using tl(2) False cmp_total [of ?p "lv_price lv"] unfolding book_insert_prices [OF ls(1)]
      by auto
    with ls Cons.IH [OF tl(1) ls(1)] show ?thesis by (simp add: levels_sorted_def)
  qed
qed

lemma book_insert_side_ok:
  assumes "side_ok cmp levels" "enters lo"
    and "\<forall>x\<in>set (side_orders levels). lo_id x < lo_id lo"
    and "book_insert cmp levels lo = Some levels'"
  shows "side_ok cmp levels'"
proof -
  have "mset (map lo_id (side_orders levels')) = add_mset (lo_id lo) (mset (map lo_id (side_orders levels)))"
    using book_insert_orders [OF assms(4)] by (metis image_mset_add_mset mset_map)
  then have "distinct (map lo_id (side_orders levels')) = distinct (lo_id lo # map lo_id (side_orders levels))"
    by (intro mset_eq_imp_distinct_iff) simp
  moreover have "distinct (lo_id lo # map lo_id (side_orders levels))"
    using assms(1,3) by (auto simp: side_ok_def)
  ultimately show ?thesis
    using assms book_insert_sorted book_insert_level_ok unfolding side_ok_def by blast
qed

end

section \<open>Cancelling keeps the invariant\<close>

lemma set_status_Cancelled_id: "\<not> live lo \<Longrightarrow> set_status Cancelled lo = lo"
  by (simp add: set_status_def live_def)

lemma mark_id_simps [simp]:
  "lo_id (mark_id k lo) = lo_id lo" "lo_price_multiple (mark_id k lo) = lo_price_multiple lo"
  "order_ok (mark_id k lo) = order_ok lo" "remaining (mark_id k lo) = remaining lo"
  "live (mark_id k lo) \<longleftrightarrow> live lo \<and> lo_id lo \<noteq> k"
  by (auto simp: mark_id_def)

lemma mark_id_other: "lo_id lo \<noteq> k \<Longrightarrow> mark_id k lo = lo"
  by (simp add: mark_id_def)

lemma map_mark_id_other: "k \<notin> lo_id ` set los \<Longrightarrow> map (mark_id k) los = los"
  by (rule map_idI) (auto simp: mark_id_def)

lemma mark_linear_map:
  assumes "distinct (map lo_id los)"
  shows "mark_linear los k = (\<exists>x\<in>set los. lo_id x = k \<and> live x, map (mark_id k) los)"
proof (cases "position (\<lambda>lo. lo_id lo = k) los")
  case None
  then have "k \<notin> lo_id ` set los" by (auto simp: position_None)
  with None show ?thesis by (auto simp: mark_linear_def map_mark_id_other)
next
  case (Some i)
  from position_Some [OF Some] have i: "i < length los" "lo_id (los ! i) = k" by auto
  have other: "lo_id (los ! j) \<noteq> k" if "j < length los" "j \<noteq> i" for j
    using nth_eq_iff_index_eq [OF assms, of i j] that i by auto
  have "map (mark_id k) los = los[i := set_status Cancelled (los ! i)]"
    using i by (intro nth_equalityI) (auto simp: nth_list_update mark_id_def other)
  moreover have "(\<exists>x\<in>set los. lo_id x = k \<and> live x) \<longleftrightarrow> live (los ! i)"
    using i other by (metis in_set_conv_nth)
  ultimately show ?thesis
    using Some i set_status_Cancelled_id [of "los ! i"]
    by (auto simp: mark_linear_def live_def)
qed

lemma live_volume_mark:
  assumes "distinct (map lo_id los)" "x \<in> set los" "live x"
  shows "live_volume los = remaining x + live_volume (map (mark_id (lo_id x)) los)"
  using assms
proof (induction los)
  case (Cons y los)
  show ?case
  proof (cases "y = x")
    case True
    with Cons.prems have "map (mark_id (lo_id x)) los = los"
      by (intro map_mark_id_other) auto
    with True Cons.prems show ?thesis by simp
  next
    case False
    with Cons.prems have "lo_id y \<noteq> lo_id x" by auto
    with False Cons show ?thesis by (simp add: mark_id_other)
  qed
qed simp

lemma live_volume_pos: "0 < live_volume los \<longleftrightarrow> (\<exists>x\<in>set los. active x)"
  by (induction los) (auto simp: active_def)

lemma live_volume_filter_live [simp]: "live_volume (filter live los) = live_volume los"
  by (simp add: live_volume_def)

lemma cancelled_count_mark:
  assumes "distinct (map lo_id los)" "x \<in> set los" "live x"
  shows "length (filter (\<lambda>lo. \<not> live lo) (map (mark_id (lo_id x)) los)) =
    Suc (length (filter (\<lambda>lo. \<not> live lo) los))"
  using assms
proof (induction los)
  case (Cons y los)
  show ?case
  proof (cases "y = x")
    case True
    with Cons.prems have "map (mark_id (lo_id x)) los = los"
      by (intro map_mark_id_other) auto
    with True Cons.prems show ?thesis by simp
  next
    case False
    with Cons.prems have "lo_id y \<noteq> lo_id x" by auto
    with False Cons show ?thesis by (simp add: mark_id_other)
  qed
qed simp

text \<open>
  The state of a level after a cancellation of its order \<open>x\<close>: the level is gone when nothing
  can be traded at it any more, and otherwise a well-formed level with the same tradable
  orders but \<open>x\<close>.
\<close>

definition cancel_effect :: "level \<Rightarrow> order_id \<Rightarrow> level option \<Rightarrow> bool" where
  "cancel_effect lv k lv_opt \<longleftrightarrow>
     (case lv_opt of
        None \<Rightarrow> filter (\<lambda>x. active x \<and> lo_id x \<noteq> k) (lv_orders lv) = []
      | Some lv' \<Rightarrow>
          level_ok lv' \<and> lv_price lv' = lv_price lv \<and>
          subseq (map lo_id (lv_orders lv')) (map lo_id (lv_orders lv)) \<and>
          filter active (lv_orders lv') =
            filter (\<lambda>x. active x \<and> lo_id x \<noteq> k) (lv_orders lv))"

lemma level_marked_ok:
  assumes "level_ok lv" "x \<in> set (lv_orders lv)" "live x" "lv_cancelled lv + 1 < 2 ^ 32"
  shows "level_ok (lv\<lparr>lv_orders := map (mark_id (lo_id x)) (lv_orders lv),
                      lv_cancelled := lv_cancelled lv + 1,
                      lv_volume := lv_volume lv - remaining x\<rparr>)"
proof -
  have d: "distinct (map lo_id (lv_orders lv))"
    using assms(1) by (auto simp: level_ok_def strict_sorted_iff)
  note vol = live_volume_mark [OF d assms(2,3)] and cnt = cancelled_count_mark [OF d assms(2,3)]
  have ids: "map (lo_id \<circ> mark_id (lo_id x)) (lv_orders lv) = map lo_id (lv_orders lv)"
    by (rule map_cong) auto
  show ?thesis
    using assms(1,4) vol cnt by (auto simp: level_ok_def ids)
qed

lemma level_pruned_ok:
  assumes "level_ok lv" "0 < lv_volume lv"
  shows "level_ok (lv\<lparr>lv_orders := filter live (lv_orders lv), lv_cancelled := 0\<rparr>)"
proof -
  have "\<exists>x\<in>set (lv_orders lv). live x"
    using assms live_volume_pos [of "lv_orders lv"] by (auto simp: level_ok_def active_def)
  moreover have "sorted_wrt (<) (map lo_id (filter live (lv_orders lv)))"
    using assms(1) by (auto simp: level_ok_def sorted_wrt_map intro: sorted_wrt_filter)
  ultimately show ?thesis using assms(1) by (auto simp: level_ok_def filter_empty_conv)
qed

lemma filter_active_mark:
  "filter active (map (mark_id k) los) = filter (\<lambda>x. active x \<and> lo_id x \<noteq> k) los"
  by (induction los) (auto simp: active_def mark_id_other)

lemma retain_live: "filter (\<lambda>lo. lo_status lo \<noteq> Cancelled) los = filter live los"
  by (simp add: live_def [abs_def])

lemma cancel_in_level_ok:
  assumes "level_ok lv" "length (lv_orders lv) < 2 ^ 32 - 1"
    and x: "x \<in> set (lv_orders lv)" "live x" "lo_id x = lo_id lo"
    and agree: "lo_filled_base_lots lo \<le> lo_base_lots lo"
      "lo_base_lots lo - lo_filled_base_lots lo = remaining x"
  shows "\<exists>lv_opt. cancel_in_level lv lo = Some (remaining x, lv_opt) \<and>
    cancel_effect lv (lo_id lo) lv_opt"
proof -
  let ?os = "map (mark_id (lo_id x)) (lv_orders lv)"
  let ?lv = "lv\<lparr>lv_orders := ?os, lv_cancelled := lv_cancelled lv + 1,
               lv_volume := lv_volume lv - remaining x\<rparr>"
  have s: "sorted_wrt (<) (map lo_id (lv_orders lv))" and vol: "lv_volume lv = live_volume (lv_orders lv)"
    using assms(1) by (auto simp: level_ok_def)
  then have d: "distinct (map lo_id (lv_orders lv))" by (auto simp: strict_sorted_iff)
  have mark: "mark_order_as_cancelled (lv_orders lv) lo = Some (True, ?os)"
    using mark_order_as_cancelled_linear [OF s, of lo] mark_linear_map [OF d] x by auto
  have le: "remaining x \<le> lv_volume lv"
    using live_volume_mark [OF d x(1,2)] vol by simp
  have lvl: "lv_volume lv - remaining x = live_volume ?os"
    using live_volume_mark [OF d x(1,2)] vol by simp
  have "lv_cancelled lv \<le> length (lv_orders lv)"
    using assms(1) by (simp add: level_ok_def)
  then have cnt: "lv_cancelled lv + 1 < 2 ^ 32" using assms(2) by simp
  note ok = level_marked_ok [OF assms(1) x(1,2) cnt]
  have ids: "map lo_id ?os = map lo_id (lv_orders lv)"
    by (simp add: comp_def)
  have pruned: "subseq (map lo_id (filter live ?os)) (map lo_id (lv_orders lv))"
    unfolding ids [symmetric] by (intro subseq_map) (rule subseq_filter_left)
  show ?thesis
  proof (cases "lv_volume lv - remaining x = 0")
    case True
    then have "filter (\<lambda>y. active y \<and> lo_id y \<noteq> lo_id x) (lv_orders lv) = []"
      using lvl live_volume_pos [of ?os] filter_active_mark [of "lo_id x" "lv_orders lv"]
      by (metis filter_False neq0_conv)
    with True show ?thesis
      using mark le cnt agree x(3)
      by (auto simp: cancel_in_level_def cancel_effect_def checked_add_def Let_def)
  next
    case False
    then have "level_ok (?lv\<lparr>lv_orders := filter live ?os, lv_cancelled := 0\<rparr>)"
      using level_pruned_ok [OF ok] by simp
    moreover have "filter active (filter live ?os) = filter active ?os"
      by (auto simp: active_def intro: filter_cong)
    ultimately show ?thesis
      using False mark le cnt agree x(3) ok pruned ids
      by (auto simp: cancel_in_level_def cancel_effect_def checked_add_def Let_def
          filter_active_mark retain_live comp_def)
  qed
qed

text \<open>Cancelling on a whole side: the level of the order's price is found and only it changes.\<close>

lemma side_ok_tl:
  "side_ok cmp (lv # levels) \<Longrightarrow> side_ok cmp levels \<and> level_ok lv"
  by (auto simp: side_ok_def levels_sorted_def)

context price_priority
begin

lemma book_cancel_ok:
  assumes "side_ok cmp levels" "\<forall>lv\<in>set levels. length (lv_orders lv) < 2 ^ 32 - 1"
    and x: "x \<in> set (side_orders levels)" "live x" "lo_id x = lo_id lo"
      "lo_price_multiple x = lo_price_multiple lo"
    and agree: "lo_filled_base_lots lo \<le> lo_base_lots lo"
      "lo_base_lots lo - lo_filled_base_lots lo = remaining x"
  shows "\<exists>levels'. book_cancel levels lo = Some (remaining x, levels') \<and>
    (\<forall>lv\<in>set levels'. level_ok lv) \<and> subseq (map lv_price levels') (map lv_price levels) \<and>
    subseq (map lo_id (side_orders levels')) (map lo_id (side_orders levels)) \<and>
    filter active (side_orders levels') =
      filter (\<lambda>y. active y \<and> lo_id y \<noteq> lo_id lo) (side_orders levels)"
  using assms(1,2) x(1)
proof (induction levels)
  case (Cons lv levels)
  have ok: "side_ok cmp levels" "level_ok lv" using side_ok_tl [OF Cons.prems(1)] by auto
  have dist: "lo_id ` set (lv_orders lv) \<inter> lo_id ` set (side_orders levels) = {}"
    using Cons.prems(1) by (auto simp: side_ok_def)
  have other: "filter (\<lambda>y. active y \<and> lo_id y \<noteq> k) los = filter active los"
    if "k \<notin> lo_id ` set los" for k los
    using that by (intro filter_cong) auto
  show ?case
  proof (cases "x \<in> set (lv_orders lv)")
    case True
    then have price: "lo_price_multiple lo = lv_price lv"
      using ok(2) x(4) by (auto simp: level_ok_def)
    obtain lv_opt where c: "cancel_in_level lv lo = Some (remaining x, lv_opt)"
        "cancel_effect lv (lo_id lo) lv_opt"
      using cancel_in_level_ok [OF ok(2) _ True x(2,3) agree] Cons.prems(2) by auto
    have "lo_id lo \<notin> lo_id ` set (side_orders levels)"
      using dist True x(3) by (metis disjoint_iff imageI)
    then show ?thesis
      using c price ok(1) other [of "lo_id lo" "side_orders levels"]
      by (cases lv_opt) (auto simp: cancel_effect_def side_ok_def list_emb_append_mono subseq_drop_many)
  next
    case False
    then have x': "x \<in> set (side_orders levels)" using Cons.prems(3) by simp
    then obtain lv' where lv': "lv' \<in> set levels" "x \<in> set (lv_orders lv')"
      by (auto simp: side_orders_def)
    then have "lo_price_multiple lo = lv_price lv'"
      using ok(1) x(4) by (auto simp: side_ok_def level_ok_def)
    moreover have "lv_price lv \<notin> lv_price ` set levels"
      using Cons.prems(1) by (auto simp: side_ok_def levels_sorted_def)
    ultimately have ne: "lo_price_multiple lo \<noteq> lv_price lv" using lv'(1) by (metis imageI)
    have "lo_id lo \<notin> lo_id ` set (lv_orders lv)"
      using dist x' x(3) by (metis disjoint_iff imageI)
    with ne Cons.IH [OF ok(1) _ x'] Cons.prems(2) ok(2) other [of "lo_id lo" "lv_orders lv"]
    show ?thesis by (auto intro: list_emb_append_mono)
  qed
qed simp


lemma cancel_side_ok:
  assumes "side_ok cmp levels" "\<forall>lv\<in>set levels'. level_ok lv"
    and "subseq (map lv_price levels') (map lv_price levels)"
    and "subseq (map lo_id (side_orders levels')) (map lo_id (side_orders levels))"
  shows "side_ok cmp levels'"
proof -
  have "sorted_wrt (\<lambda>a b. cmp a b = Less) (map lv_price levels')"
    using assms(1,3) by (auto simp: side_ok_def levels_sorted_def intro: subseq_sorted_wrt)
  moreover have "distinct (map lo_id (side_orders levels'))"
    using assms(1,4) by (auto simp: side_ok_def dest: subseq_distinct)
  ultimately show ?thesis using assms(2) by (simp add: side_ok_def levels_sorted_def)
qed

end

end
