(* ===== verification/Matching.thy ===== *)
theory Matching
  imports Order_Book
begin

text \<open>
  The matching engine (\<^verbatim>\<open>src/src/state/spot_market.rs\<close>, \<open>execute_limit\<close>,
  \<open>execute_market_buy_order\<close>, \<open>execute_market_sell_order\<close>): a taker order walks the opposite
  side from its best level, filling makers in order of arrival. Each of the three functions
  is an outer loop over the levels (\<open>*_loop\<close>, recursion on the shrinking vector) around an
  inner loop over the orders of the best level (\<open>*_level_loop\<close>, recursion on the orders with
  the source's \<open>break\<close> as an early return). The loop variables of each function are a record.
\<close>

section \<open>Limit orders\<close>

record limit_state =
  le_remaining :: nat
  le_lots_in :: nat
  le_lots_out :: nat
  le_residual :: "residual_order option"
  le_last_price :: "nat option"
  le_drain :: nat
  le_cancelled :: nat

definition residual_of :: "limit_order \<Rightarrow> nat \<Rightarrow> nat \<Rightarrow> nat \<Rightarrow> residual_order" where
  "residual_of lo level_price filled self_fill =
     \<lparr>ro_order_id = lo_id lo, ro_account_public_key = lo_account lo,
      ro_price_multiple = level_price, ro_filled_base_lots = filled, ro_self_fill = self_fill\<rparr>"

fun limit_level_loop ::
  "bool \<Rightarrow> market_precision \<Rightarrow> nat \<Rightarrow> limit_order list \<Rightarrow> limit_state \<Rightarrow>
   (limit_order list \<times> limit_state) option" where
  "limit_level_loop is_buy precision level_price [] st = Some ([], st)"
| "limit_level_loop is_buy precision level_price (order # orders) st =
     (if lo_status order = Cancelled then do {
        cancelled \<leftarrow> add32 (le_cancelled st) 1;
        (orders', st') \<leftarrow> limit_level_loop is_buy precision level_price orders
          (st\<lparr>le_cancelled := cancelled, le_drain := le_drain st + 1\<rparr>);
        Some (order # orders', st')
      }
      else do {
        order_remaining \<leftarrow> get_order_remaining order;
        let curr_filled = min (le_remaining st) order_remaining;
        remaining_base_amount \<leftarrow> checked_sub (le_remaining st) curr_filled;
        quote_lots \<leftarrow> base_to_quote_lots curr_filled level_price precision;
        lots_in \<leftarrow> add64 (le_lots_in st) (if is_buy then curr_filled else quote_lots);
        lots_out \<leftarrow> add64 (le_lots_out st) (if is_buy then quote_lots else curr_filled);
        let st1 = st\<lparr>le_remaining := remaining_base_amount, le_last_price := Some level_price,
                     le_lots_in := lots_in, le_lots_out := lots_out,
                     le_drain := (if curr_filled = order_remaining then le_drain st + 1
                                  else le_drain st)\<rparr>;
        if remaining_base_amount \<le> 0 then
          (if curr_filled < order_remaining then do {
             filled \<leftarrow> add64 (lo_filled_base_lots order) curr_filled;
             Some (order\<lparr>lo_filled_base_lots := filled\<rparr> # orders,
                   st1\<lparr>le_residual := Some (residual_of order level_price curr_filled 0)\<rparr>)
           }
           else Some (order # orders, st1))
        else do {
          (orders', st') \<leftarrow> limit_level_loop is_buy precision level_price orders st1;
          Some (order # orders', st')
        }
      })"

function limit_loop ::
  "(nat \<Rightarrow> nat \<Rightarrow> ordering) \<Rightarrow> nat \<Rightarrow> bool \<Rightarrow> market_precision \<Rightarrow> level list \<Rightarrow>
   limit_order list \<Rightarrow> limit_state \<Rightarrow> (level list \<times> limit_order list \<times> limit_state) option" where
  "limit_loop cmp order_price is_buy precision levels filled_orders st =
     (if levels \<noteq> [] \<and> 0 < le_remaining st then
        let level = last levels; level_filled = le_remaining st in
        (if cmp order_price (lv_price level) = Greater then Some (levels, filled_orders, st)
         else do {
           (orders, st') \<leftarrow> limit_level_loop is_buy precision (lv_price level) (lv_orders level)
             (st\<lparr>le_drain := 0, le_cancelled := 0\<rparr>);
           if le_drain st' < length orders then do {
             volume \<leftarrow> checked_sub (lv_volume level) level_filled;
             cancelled \<leftarrow> checked_sub (lv_cancelled level) (le_cancelled st');
             Some (butlast levels @
                     [level\<lparr>lv_orders := drop (le_drain st') orders, lv_volume := volume,
                            lv_cancelled := cancelled\<rparr>],
                   filled_orders @ take (le_drain st') orders, st')
           }
           else limit_loop cmp order_price is_buy precision (butlast levels)
                  (filled_orders @ orders) st'
         })
      else Some (levels, filled_orders, st))"
  by pat_completeness auto
termination
  by (relation "measure (\<lambda>(cmp, order_price, is_buy, precision, levels, filled, st). length levels)")
    auto

text \<open>
  The result is the fill report, the levels and the taker order with its filled size.
\<close>

definition execute_limit ::
  "(nat \<Rightarrow> nat \<Rightarrow> ordering) \<Rightarrow> level list \<Rightarrow> limit_order \<Rightarrow> asset_id \<Rightarrow> asset_id \<Rightarrow> bool \<Rightarrow>
   market_precision \<Rightarrow> (limit_fill_result \<times> level list \<times> limit_order) option" where
  "execute_limit cmp levels order asset_in asset_out is_buy precision = do {
     (levels', filled_orders, st) \<leftarrow>
       limit_loop cmp (lo_price_multiple order) is_buy precision levels []
         \<lparr>le_remaining = lo_base_lots order, le_lots_in = 0, le_lots_out = 0, le_residual = None,
          le_last_price = None, le_drain = 0, le_cancelled = 0\<rparr>;
     filled \<leftarrow> checked_sub (lo_base_lots order) (le_remaining st);
     Some (\<lparr>lf_user_order =
              \<lparr>ue_order_id = lo_id order, ue_asset_in = asset_in, ue_lots_in = le_lots_in st,
               ue_asset_out = asset_out, ue_lots_out = le_lots_out st, ue_filled_size = filled\<rparr>,
            lf_filled_orders = filled_orders, lf_residual_order = le_residual st,
            lf_last_executed_price = le_last_price st\<rparr>,
           levels', order\<lparr>lo_filled_base_lots := filled\<rparr>)
   }"

section \<open>Market sell orders\<close>

record sell_state =
  se_remaining :: nat
  se_quote_lots_in :: nat
  se_self_fill :: nat
  se_residual :: "residual_order option"
  se_last_price :: "nat option"
  se_drain :: nat
  se_cancelled :: nat

fun sell_level_loop ::
  "public_key_hash \<Rightarrow> market_precision \<Rightarrow> nat \<Rightarrow> limit_order list \<Rightarrow> sell_state \<Rightarrow>
   (limit_order list \<times> sell_state) option" where
  "sell_level_loop account precision level_price [] st = Some ([], st)"
| "sell_level_loop account precision level_price (order # orders) st =
     (if lo_status order = Cancelled then do {
        cancelled \<leftarrow> add32 (se_cancelled st) 1;
        (orders', st') \<leftarrow> sell_level_loop account precision level_price orders
          (st\<lparr>se_cancelled := cancelled, se_drain := se_drain st + 1\<rparr>);
        Some (order # orders', st')
      }
      else do {
        order_remaining \<leftarrow> get_order_remaining order;
        if lo_account order = account then do {
          let reduce = min (se_remaining st) order_remaining;
          self_fill \<leftarrow> add64 (se_self_fill st) reduce;
          remaining_base_lots \<leftarrow> checked_sub (se_remaining st) reduce;
          self_filled \<leftarrow> add64 (lo_self_filled order) reduce;
          let order' = order\<lparr>lo_self_filled := self_filled\<rparr>;
          let st1 = st\<lparr>se_self_fill := self_fill, se_remaining := remaining_base_lots,
                       se_drain := (if reduce = order_remaining then se_drain st + 1
                                    else se_drain st)\<rparr>;
          if remaining_base_lots \<le> 0 then
            Some (order' # orders,
                  if reduce < order_remaining
                  then st1\<lparr>se_residual := Some (residual_of order level_price 0 reduce)\<rparr>
                  else st1)
          else do {
            (orders', st') \<leftarrow> sell_level_loop account precision level_price orders st1;
            Some (order' # orders', st')
          }
        }
        else do {
          let filled_base_lots = min (se_remaining st) order_remaining;
          remaining_base_lots \<leftarrow> checked_sub (se_remaining st) filled_base_lots;
          quote_lots \<leftarrow> base_to_quote_lots filled_base_lots level_price precision;
          quote_lots_in \<leftarrow> add64 (se_quote_lots_in st) quote_lots;
          let st1 = st\<lparr>se_last_price := Some level_price, se_remaining := remaining_base_lots,
                       se_quote_lots_in := quote_lots_in,
                       se_drain := (if filled_base_lots = order_remaining then se_drain st + 1
                                    else se_drain st)\<rparr>;
          if remaining_base_lots \<le> 0 then
            (if filled_base_lots < order_remaining then do {
               filled \<leftarrow> add64 (lo_filled_base_lots order) filled_base_lots;
               Some (order\<lparr>lo_filled_base_lots := filled\<rparr> # orders,
                     st1\<lparr>se_residual := Some (residual_of order level_price filled_base_lots 0)\<rparr>)
             }
             else Some (order # orders, st1))
          else do {
            (orders', st') \<leftarrow> sell_level_loop account precision level_price orders st1;
            Some (order # orders', st')
          }
        }
      })"

function sell_loop ::
  "public_key_hash \<Rightarrow> market_precision \<Rightarrow> level list \<Rightarrow> limit_order list \<Rightarrow> sell_state \<Rightarrow>
   (level list \<times> limit_order list \<times> sell_state) option" where
  "sell_loop account precision levels filled_orders st =
     (if levels \<noteq> [] \<and> 0 < se_remaining st then
        let level = last levels; level_filled = se_remaining st in
        do {
          (orders, st') \<leftarrow> sell_level_loop account precision (lv_price level) (lv_orders level)
            (st\<lparr>se_drain := 0, se_cancelled := 0\<rparr>);
          if se_drain st' < length orders then do {
            volume \<leftarrow> checked_sub (lv_volume level) level_filled;
            cancelled \<leftarrow> checked_sub (lv_cancelled level) (se_cancelled st');
            Some (butlast levels @
                    [level\<lparr>lv_orders := drop (se_drain st') orders, lv_volume := volume,
                           lv_cancelled := cancelled\<rparr>],
                  filled_orders @ take (se_drain st') orders, st')
          }
          else sell_loop account precision (butlast levels) (filled_orders @ orders) st'
        }
      else Some (levels, filled_orders, st))"
  by pat_completeness auto
termination
  by (relation "measure (\<lambda>(account, precision, levels, filled, st). length levels)") auto

definition execute_market_sell_order ::
  "level list \<Rightarrow> market_sell_order \<Rightarrow> market_precision \<Rightarrow> (sell_results \<times> level list) option" where
  "execute_market_sell_order levels sell_order precision = do {
     (levels', filled_orders, st) \<leftarrow>
       sell_loop (co_account (ms_common sell_order)) precision levels []
         \<lparr>se_remaining = ms_base_size sell_order, se_quote_lots_in = 0, se_self_fill = 0,
          se_residual = None, se_last_price = None, se_drain = 0, se_cancelled = 0\<rparr>;
     taken \<leftarrow> checked_sub (ms_base_size sell_order) (se_remaining st);
     base_filled_lots \<leftarrow> checked_sub taken (se_self_fill st);
     Some (\<lparr>sr_order_id = co_id (ms_common sell_order), sr_base_filled_lots = base_filled_lots,
            sr_quote_lots_in = se_quote_lots_in st, sr_self_fill = se_self_fill st,
            sr_filled_orders = filled_orders, sr_residual_order = se_residual st,
            sr_last_executed_price = se_last_price st\<rparr>, levels')
   }"

section \<open>Market buy orders\<close>

record buy_state =
  be_remaining_quote :: nat
  be_remaining_base :: nat
  be_base_lots_in :: nat
  be_self_fill :: nat
  be_level_filled :: nat
  be_residual :: "residual_order option"
  be_last_price :: "nat option"
  be_drain :: nat
  be_cancelled :: nat

fun buy_level_loop ::
  "public_key_hash \<Rightarrow> market_precision \<Rightarrow> nat \<Rightarrow> limit_order list \<Rightarrow> buy_state \<Rightarrow>
   (limit_order list \<times> buy_state) option" where
  "buy_level_loop account precision level_price [] st = Some ([], st)"
| "buy_level_loop account precision level_price (order # orders) st =
     (if lo_status order = Cancelled then do {
        cancelled \<leftarrow> add32 (be_cancelled st) 1;
        (orders', st') \<leftarrow> buy_level_loop account precision level_price orders
          (st\<lparr>be_cancelled := cancelled, be_drain := be_drain st + 1\<rparr>);
        Some (order # orders', st')
      }
      else do {
        order_base_remaining \<leftarrow> get_order_remaining order;
        if lo_account order = account then do {
          let reduce_base = min (be_remaining_base st) order_base_remaining;
          reduce_quote \<leftarrow> base_to_quote_lots reduce_base level_price precision;
          self_filled \<leftarrow> add64 (lo_self_filled order) reduce_base;
          self_fill_quotes \<leftarrow> add64 (be_self_fill st) reduce_quote;
          remaining_base_lots \<leftarrow> checked_sub (be_remaining_base st) reduce_base;
          remaining_quote_lots \<leftarrow> checked_sub (be_remaining_quote st) reduce_quote;
          level_filled \<leftarrow> add64 (be_level_filled st) reduce_base;
          let order' = order\<lparr>lo_self_filled := self_filled\<rparr>;
          let st1 = st\<lparr>be_self_fill := self_fill_quotes, be_remaining_base := remaining_base_lots,
                       be_remaining_quote := remaining_quote_lots,
                       be_level_filled := level_filled,
                       be_drain := (if reduce_base = order_base_remaining then be_drain st + 1
                                    else be_drain st)\<rparr>;
          if remaining_base_lots \<le> 0 then
            Some (order' # orders,
                  if reduce_base < order_base_remaining
                  then st1\<lparr>be_residual := Some (residual_of order level_price 0 reduce_base)\<rparr>
                  else st1)
          else do {
            (orders', st') \<leftarrow> buy_level_loop account precision level_price orders st1;
            Some (order' # orders', st')
          }
        }
        else do {
          let filled_base_lots = min (be_remaining_base st) order_base_remaining;
          remaining_base_lots \<leftarrow> checked_sub (be_remaining_base st) filled_base_lots;
          level_filled \<leftarrow> add64 (be_level_filled st) filled_base_lots;
          filled_quote_lots \<leftarrow> base_to_quote_lots filled_base_lots level_price precision;
          base_lots_in \<leftarrow> add64 (be_base_lots_in st) filled_base_lots;
          remaining_quote_lots \<leftarrow> checked_sub (be_remaining_quote st) filled_quote_lots;
          let st1 = st\<lparr>be_last_price := Some level_price, be_remaining_base := remaining_base_lots,
                       be_level_filled := level_filled, be_base_lots_in := base_lots_in,
                       be_remaining_quote := remaining_quote_lots,
                       be_drain := (if filled_base_lots = order_base_remaining
                                    then be_drain st + 1 else be_drain st)\<rparr>;
          if remaining_base_lots \<le> 0 then
            (if filled_base_lots < order_base_remaining then do {
               filled \<leftarrow> add64 (lo_filled_base_lots order) filled_base_lots;
               Some (order\<lparr>lo_filled_base_lots := filled\<rparr> # orders,
                     st1\<lparr>be_residual := Some (residual_of order level_price filled_base_lots 0)\<rparr>)
             }
             else Some (order # orders, st1))
          else do {
            (orders', st') \<leftarrow> buy_level_loop account precision level_price orders st1;
            Some (order # orders', st')
          }
        }
      })"

function buy_loop ::
  "public_key_hash \<Rightarrow> market_precision \<Rightarrow> level list \<Rightarrow> limit_order list \<Rightarrow> buy_state \<Rightarrow>
   (level list \<times> limit_order list \<times> buy_state) option" where
  "buy_loop account precision levels filled_orders st =
     (if levels \<noteq> [] \<and> 0 < be_remaining_quote st then
        let level = last levels in
        do {
          remaining_base_lots \<leftarrow>
            quote_lots_to_base_lots (be_remaining_quote st) (lv_price level) precision;
          if remaining_base_lots = 0 then Some (levels, filled_orders, st)
          else do {
            (orders, st') \<leftarrow> buy_level_loop account precision (lv_price level) (lv_orders level)
              (st\<lparr>be_remaining_base := remaining_base_lots, be_level_filled := 0, be_drain := 0,
                  be_cancelled := 0\<rparr>);
            if be_drain st' < length orders then do {
              volume \<leftarrow> checked_sub (lv_volume level) (be_level_filled st');
              cancelled \<leftarrow> checked_sub (lv_cancelled level) (be_cancelled st');
              Some (butlast levels @
                      [level\<lparr>lv_orders := drop (be_drain st') orders, lv_volume := volume,
                             lv_cancelled := cancelled\<rparr>],
                    filled_orders @ take (be_drain st') orders, st')
            }
            else buy_loop account precision (butlast levels) (filled_orders @ orders) st'
          }
        }
      else Some (levels, filled_orders, st))"
  by pat_completeness auto
termination
  by (relation "measure (\<lambda>(account, precision, levels, filled, st). length levels)") auto

definition execute_market_buy_order ::
  "level list \<Rightarrow> market_buy_order \<Rightarrow> market_precision \<Rightarrow> (buy_results \<times> level list) option" where
  "execute_market_buy_order levels buy_order precision = do {
     (levels', filled_orders, st) \<leftarrow>
       buy_loop (co_account (mb_common buy_order)) precision levels []
         \<lparr>be_remaining_quote = mb_quote_size buy_order, be_remaining_base = 0,
          be_base_lots_in = 0, be_self_fill = 0, be_level_filled = 0, be_residual = None,
          be_last_price = None, be_drain = 0, be_cancelled = 0\<rparr>;
     spent \<leftarrow> checked_sub (mb_quote_size buy_order) (be_remaining_quote st);
     quote_filled_lots \<leftarrow> checked_sub spent (be_self_fill st);
     Some (\<lparr>br_order_id = co_id (mb_common buy_order), br_quote_filled_lots = quote_filled_lots,
            br_base_lots_in = be_base_lots_in st, br_self_fill = be_self_fill st,
            br_filled_orders = filled_orders, br_residual_order = be_residual st,
            br_last_executed_price = be_last_price st\<rparr>, levels')
   }"

declare limit_loop.simps [simp del] sell_loop.simps [simp del] buy_loop.simps [simp del]

end
