(* ===== verification/Price_Time.thy ===== *)
theory Price_Time
  imports Matching
begin

text \<open>
  The abstract specification of matching, price-time priority, and the refinement of the
  loops of \<open>Matching\<close> to it.

  A side of the book is abstracted to the list of its live orders by priority: best level
  first, within a level by arrival (\<open>priority\<close>). \<open>match_orders\<close> takes a quantity along that
  list, filling each order completely before it touches the next and stopping at the first
  price the taker does not accept. \<open>walk\<close> is the same on the orders of one level, with the
  cancelled ones still in it: it is the bridge between the inner loops and the
  specification. Orders of the taker itself (\<open>own\<close>) are reduced instead of traded.
\<close>

section \<open>Specification\<close>

definition consume :: "(limit_order \<Rightarrow> bool) \<Rightarrow> limit_order \<Rightarrow> nat \<Rightarrow> limit_order" where
  "consume own lo q =
     (if own lo then lo\<lparr>lo_self_filled := lo_self_filled lo + q\<rparr>
      else lo\<lparr>lo_filled_base_lots := lo_filled_base_lots lo + q\<rparr>)"

text \<open>A completely filled order is reported as it was, unless the fill was a self trade.\<close>

definition finish :: "(limit_order \<Rightarrow> bool) \<Rightarrow> limit_order \<Rightarrow> limit_order" where
  "finish own lo =
     (if own lo then lo\<lparr>lo_self_filled := lo_self_filled lo + remaining lo\<rparr> else lo)"

type_synonym fills = "(limit_order \<times> nat) list"

fun match_orders ::
  "(limit_order \<Rightarrow> bool) \<Rightarrow> (nat \<Rightarrow> bool) \<Rightarrow> nat \<Rightarrow> limit_order list \<Rightarrow>
   fills \<times> limit_order list \<times> nat" where
  "match_orders own accepts q [] = ([], [], q)"
| "match_orders own accepts q (lo # los) =
     (if q = 0 \<or> \<not> accepts (lo_price_multiple lo) then ([], lo # los, q)
      else if q < remaining lo then ([(lo, q)], consume own lo q # los, 0)
      else (let (fills, rest, q') = match_orders own accepts (q - remaining lo) los
            in ((lo, remaining lo) # fills, rest, q')))"

definition priority :: "level list \<Rightarrow> limit_order list" where
  "priority levels = filter live (concat (map lv_orders (rev levels)))"

definition base_sum :: "fills \<Rightarrow> nat" where
  "base_sum fills = sum_list (map snd fills)"

definition quote_sum :: "market_precision \<Rightarrow> fills \<Rightarrow> nat" where
  "quote_sum prec fills = sum_list (map (\<lambda>(lo, q). quote_of q (lo_price_multiple lo) prec) fills)"

section \<open>Walking one level\<close>

record walk_result =
  w_fills :: fills
  w_done :: "limit_order list"
  w_rest :: "limit_order list"
  w_part :: "(limit_order \<times> nat) option"
  w_left :: nat

fun walk :: "(limit_order \<Rightarrow> bool) \<Rightarrow> nat \<Rightarrow> limit_order list \<Rightarrow> walk_result" where
  "walk own q [] = \<lparr>w_fills = [], w_done = [], w_rest = [], w_part = None, w_left = q\<rparr>"
| "walk own q (lo # los) =
     (if \<not> live lo then
        (let w = walk own q los in w\<lparr>w_done := lo # w_done w\<rparr>)
      else if q < remaining lo then
        \<lparr>w_fills = [(lo, q)], w_done = [], w_rest = consume own lo q # los,
         w_part = Some (lo, q), w_left = 0\<rparr>
      else if q = remaining lo then
        \<lparr>w_fills = [(lo, q)], w_done = [finish own lo], w_rest = los, w_part = None, w_left = 0\<rparr>
      else
        (let w = walk own (q - remaining lo) los
         in w\<lparr>w_fills := (lo, remaining lo) # w_fills w, w_done := finish own lo # w_done w\<rparr>))"

lemma base_sum_simps [simp]:
  "base_sum [] = 0" "base_sum (f # fs) = snd f + base_sum fs"
  "base_sum (fs @ fs') = base_sum fs + base_sum fs'"
  by (simp_all add: base_sum_def)

lemma quote_sum_simps [simp]:
  "quote_sum prec [] = 0"
  "quote_sum prec (f # fs) = quote_of (snd f) (lo_price_multiple (fst f)) prec + quote_sum prec fs"
  "quote_sum prec (fs @ fs') = quote_sum prec fs + quote_sum prec fs'"
  by (simp_all add: quote_sum_def case_prod_beta)

lemma consume_simps [simp]:
  "lo_id (consume own lo q) = lo_id lo" "lo_account (consume own lo q) = lo_account lo"
  "lo_price_multiple (consume own lo q) = lo_price_multiple lo"
  "lo_status (consume own lo q) = lo_status lo" "live (consume own lo q) = live lo"
  "remaining (consume own lo q) = remaining lo - q"
  by (auto simp: consume_def remaining_def live_def)

lemma consume_ok: "order_ok lo \<Longrightarrow> q \<le> remaining lo \<Longrightarrow> order_ok (consume own lo q)"
  by (auto simp: consume_def order_ok_def remaining_def)

lemma finish_simps [simp]:
  "lo_id (finish own lo) = lo_id lo" "lo_account (finish own lo) = lo_account lo"
  "lo_price_multiple (finish own lo) = lo_price_multiple lo"
  "lo_status (finish own lo) = lo_status lo" "live (finish own lo) = live lo"
  by (auto simp: finish_def live_def)

lemma walk_sum: "base_sum (w_fills (walk own q los)) + w_left (walk own q los) = q"
  by (induction own q los rule: walk.induct) (auto simp: Let_def)

lemma walk_left: "0 < w_left (walk own q los) \<Longrightarrow>
    w_rest (walk own q los) = [] \<and> w_part (walk own q los) = None"
  by (induction own q los rule: walk.induct) (auto simp: Let_def split: if_splits)

lemma walk_ids: "map lo_id (w_done (walk own q los) @ w_rest (walk own q los)) = map lo_id los"
  by (induction own q los rule: walk.induct) (auto simp: Let_def)

lemma walk_length:
  "length (w_done (walk own q los)) + length (w_rest (walk own q los)) = length los"
  using arg_cong [OF walk_ids [of own q los], of length] by simp

lemma walk_volume:
  "live_volume los = base_sum (w_fills (walk own q los)) + live_volume (w_rest (walk own q los))"
  by (induction own q los rule: walk.induct) (auto simp: Let_def)

lemma walk_rest_orders:
  "\<forall>lo\<in>set los. order_ok lo \<and> lo_price_multiple lo = p \<Longrightarrow>
   \<forall>lo\<in>set (w_rest (walk own q los)). order_ok lo \<and> lo_price_multiple lo = p"
  by (induction own q los rule: walk.induct) (auto simp: Let_def consume_ok)

lemma walk_cancelled:
  "length (filter (\<lambda>lo. \<not> live lo) los) =
   length (filter (\<lambda>lo. \<not> live lo) (w_done (walk own q los))) +
   length (filter (\<lambda>lo. \<not> live lo) (w_rest (walk own q los)))"
  by (induction own q los rule: walk.induct) (auto simp: Let_def)

lemma walk_fills_live:
  "(lo, f) \<in> set (w_fills (walk own q los)) \<Longrightarrow> lo \<in> set los \<and> live lo \<and> f \<le> remaining lo"
  by (induction own q los rule: walk.induct) (auto simp: Let_def split: if_splits)

text \<open>The walk of a level is the specification on the level's live orders.\<close>

lemma match_orders_0 [simp]: "match_orders own accepts 0 los = ([], los, 0)"
  by (cases los) auto

lemma match_orders_walk:
  assumes "0 < q" "\<forall>lo\<in>set los. accepts (lo_price_multiple lo)"
  shows "match_orders own accepts q (filter live los @ los2) =
    (let w = walk own q los; (fills, rest, q') = match_orders own accepts (w_left w) los2
     in (w_fills w @ fills, filter live (w_rest w) @ rest, q'))"
  using assms
proof (induction own q los rule: walk.induct)
  case (1 own q)
  then show ?case by (simp add: Let_def case_prod_beta)
next
  case (2 own q lo los)
  consider (dead) "\<not> live lo" | (part) "live lo" "q < remaining lo"
    | (full) "live lo" "q = remaining lo" | (beyond) "live lo" "remaining lo < q"
    by linarith
  then show ?case
  proof cases
    case beyond
    then have "match_orders own accepts (q - remaining lo) (filter live los @ los2) =
        (let w = walk own (q - remaining lo) los;
             (fills, rest, q') = match_orders own accepts (w_left w) los2
         in (w_fills w @ fills, filter live (w_rest w) @ rest, q'))"
      using 2 by auto
    with beyond 2 show ?thesis by (auto simp: Let_def case_prod_beta)
  qed (use 2 in \<open>auto simp: Let_def case_prod_beta\<close>)
qed

section \<open>What a taker reports\<close>

text \<open>
  Of the fills, only the last can be partial: it is the residual order. The others are the
  filled orders.
\<close>

definition full_fills :: "fills \<Rightarrow> fills" where
  "full_fills fills = filter (\<lambda>(lo, q). q = remaining lo) fills"

definition partial_fill :: "fills \<Rightarrow> (limit_order \<times> nat) option" where
  "partial_fill fills =
     (if fills \<noteq> [] \<and> snd (last fills) < remaining (fst (last fills)) then Some (last fills) else None)"

lemma full_fills_simps [simp]:
  "full_fills [] = []"
  "full_fills (f # fs) = (if snd f = remaining (fst f) then f # full_fills fs else full_fills fs)"
  "full_fills (fs @ fs') = full_fills fs @ full_fills fs'"
  by (auto simp: full_fills_def case_prod_beta)

lemma walk_done:
  "filter live (w_done (walk own q los)) = map (finish own \<circ> fst) (full_fills (w_fills (walk own q los)))"
  by (induction own q los rule: walk.induct) (auto simp: Let_def)

lemma walk_part:
  "w_part (walk own q los) = partial_fill (w_fills (walk own q los))"
  by (induction own q los rule: walk.induct) (auto simp: Let_def partial_fill_def)

lemma walk_part_rest: "w_rest (walk own q los) = [] \<Longrightarrow> w_part (walk own q los) = None"
  by (induction own q los rule: walk.induct) (auto simp: Let_def split: if_splits)

lemma walk_part_price:
  assumes "\<forall>lo\<in>set los. lo_price_multiple lo = p" "w_part (walk own q los) = Some (lo, f)"
  shows "lo_price_multiple lo = p"
proof -
  have "(lo, f) \<in> set (w_fills (walk own q los))"
    using assms(2) last_in_set by (fastforce simp: walk_part partial_fill_def split: if_splits)
  then have "lo \<in> set los" by (rule walk_fills_live [THEN conjunct1])
  then show ?thesis using assms(1) by blast
qed

lemma partial_fill_append:
  "partial_fill fs = None \<Longrightarrow> partial_fill (fs @ fs') = partial_fill fs'"
  "partial_fill (fs @ []) = partial_fill fs"
  by (auto simp: partial_fill_def last_append split: if_splits)

lemma match_orders_none:
  "\<forall>lo\<in>set los. \<not> accepts (lo_price_multiple lo) \<Longrightarrow> match_orders own accepts q los = ([], los, q)"
  by (cases los) auto

lemma priority_simps [simp]:
  "priority [] = []"
  "priority (levels @ [lv]) = filter live (lv_orders lv) @ priority levels"
  by (simp_all add: priority_def)

lemma priority_set: "set (priority levels) = {lo \<in> set (side_orders levels). live lo}"
  by (auto simp: priority_def side_orders_def)

text \<open>The best level after a taker stopped in it.\<close>

lemma level_after_walk:
  fixes own q lv
  defines "w \<equiv> walk own q (lv_orders lv)"
  assumes "level_ok lv" "w_rest w \<noteq> []"
  shows "q \<le> lv_volume lv"
    and "level_ok (lv\<lparr>lv_orders := w_rest w, lv_volume := lv_volume lv - q,
      lv_cancelled := lv_cancelled lv - length (filter (\<lambda>lo. \<not> live lo) (w_done w))\<rparr>)"
proof -
  have left: "w_left w = 0" using walk_left [of own q "lv_orders lv"] assms by (auto simp: w_def)
  then have vol: "live_volume (lv_orders lv) = q + live_volume (w_rest w)"
    using walk_sum [of own q "lv_orders lv"] walk_volume [of "lv_orders lv" own q]
    by (simp add: w_def)
  then show "q \<le> lv_volume lv" using assms(2) by (simp add: level_ok_def)
  have "sorted_wrt (<) (map lo_id (w_done w @ w_rest w))"
    using assms(2) walk_ids [of own q "lv_orders lv"] by (simp add: w_def level_ok_def)
  then have "sorted_wrt (<) (map lo_id (w_rest w))" by (simp add: sorted_wrt_append)
  then show "level_ok (lv\<lparr>lv_orders := w_rest w, lv_volume := lv_volume lv - q,
      lv_cancelled := lv_cancelled lv - length (filter (\<lambda>lo. \<not> live lo) (w_done w))\<rparr>)"
    using assms vol walk_cancelled [of "lv_orders lv" own q]
      walk_rest_orders [of "lv_orders lv" "lv_price lv" own q]
    by (auto simp: level_ok_def)
qed

lemma side_ok_butlast:
  "side_ok cmp (levels @ [lv]) \<Longrightarrow> side_ok cmp levels \<and> level_ok lv"
  by (auto simp: side_ok_def levels_sorted_def sorted_wrt_append)

lemma side_ok_replace_last:
  assumes "side_ok cmp (levels @ [lv])" "level_ok lv'" "lv_price lv' = lv_price lv"
    and "set (map lo_id (lv_orders lv')) \<subseteq> set (map lo_id (lv_orders lv))"
  shows "side_ok cmp (levels @ [lv'])"
proof -
  have "distinct (map lo_id (lv_orders lv'))"
    using assms(2) by (auto simp: level_ok_def strict_sorted_iff)
  moreover have "lo_id ` set (side_orders levels) \<inter> lo_id ` set (lv_orders lv') = {}"
    using assms(1,4) by (auto simp: side_ok_def)
  ultimately show ?thesis
    using assms by (auto simp: side_ok_def levels_sorted_def sorted_wrt_append)
qed

lemma walk_rest_ids:
  "set (map lo_id (w_rest (walk own q los))) \<subseteq> set (map lo_id los)"
  using walk_ids [of own q los] by (metis Un_upper2 map_append set_append)

section \<open>The limit order loops\<close>

text \<open>The state of the inner loop after the walk \<open>w\<close> of a level at price \<open>p\<close>.\<close>

definition no_own :: "limit_order \<Rightarrow> bool" where
  "no_own lo = False"

lemma no_own_simps [simp]:
  "finish no_own lo = lo"
  "consume no_own lo q = lo\<lparr>lo_filled_base_lots := lo_filled_base_lots lo + q\<rparr>"
  by (simp_all add: finish_def consume_def no_own_def)

definition limit_after ::
  "bool \<Rightarrow> market_precision \<Rightarrow> nat \<Rightarrow> walk_result \<Rightarrow> limit_state \<Rightarrow> limit_state" where
  "limit_after is_buy prec p w st = st\<lparr>
     le_remaining := w_left w,
     le_lots_in := le_lots_in st + (if is_buy then base_sum (w_fills w) else quote_sum prec (w_fills w)),
     le_lots_out := le_lots_out st + (if is_buy then quote_sum prec (w_fills w) else base_sum (w_fills w)),
     le_residual := (case w_part w of None \<Rightarrow> le_residual st
                     | Some (lo, q) \<Rightarrow> Some (residual_of lo p q 0)),
     le_last_price := (if w_fills w = [] then le_last_price st else Some p),
     le_drain := le_drain st + length (w_done w),
     le_cancelled := le_cancelled st + length (filter (\<lambda>lo. \<not> live lo) (w_done w))\<rparr>"

abbreviation le_base :: "bool \<Rightarrow> limit_state \<Rightarrow> nat" where
  "le_base is_buy st \<equiv> (if is_buy then le_lots_in st else le_lots_out st)"

abbreviation le_quote :: "bool \<Rightarrow> limit_state \<Rightarrow> nat" where
  "le_quote is_buy st \<equiv> (if is_buy then le_lots_out st else le_lots_in st)"

definition limit_room :: "bool \<Rightarrow> market_precision \<Rightarrow> nat \<Rightarrow> limit_state \<Rightarrow> bool" where
  "limit_room is_buy prec p st \<longleftrightarrow>
     converts (le_remaining st) p prec \<and>
     le_base is_buy st + le_remaining st < 2 ^ 64 \<and>
     le_quote is_buy st + quote_of (le_remaining st) p prec < 2 ^ 64"

lemma limit_room_step:
  assumes "limit_room is_buy prec p st" "q \<le> le_remaining st"
    and "le_remaining st' = le_remaining st - q"
    and "le_base is_buy st' = le_base is_buy st + q"
    and "le_quote is_buy st' = le_quote is_buy st + quote_of q p prec"
  shows "limit_room is_buy prec p st'"
proof -
  have "quote_of q p prec + quote_of (le_remaining st - q) p prec \<le> quote_of (le_remaining st) p prec"
    using quote_of_superadd [of q p prec "le_remaining st - q"] assms(2) by simp
  with assms show ?thesis
    by (auto simp: limit_room_def intro: converts_mono)
qed

lemma limit_level_loop_walk:
  assumes "\<forall>lo\<in>set los. order_ok lo \<and> lo_price_multiple lo = p"
    and "0 < le_remaining st" "limit_room is_buy prec p st"
    and "le_cancelled st + length (filter (\<lambda>lo. \<not> live lo) los) < 2 ^ 32"
  shows "limit_level_loop is_buy prec p los st =
    (let w = walk no_own (le_remaining st) los
     in Some (w_done w @ w_rest w, limit_after is_buy prec p w st))"
  using assms
proof (induction los arbitrary: st)
  case Nil
  then show ?case by (simp add: limit_after_def Let_def)
next
  case (Cons lo los)
  let ?q = "min (le_remaining st) (remaining lo)"
  have ok: "order_ok lo" "lo_price_multiple lo = p" using Cons.prems(1) by auto
  show ?case
  proof (cases "live lo")
    case False
    let ?st = "st\<lparr>le_cancelled := le_cancelled st + 1, le_drain := le_drain st + 1\<rparr>"
    have "limit_level_loop is_buy prec p los ?st =
        (let w = walk no_own (le_remaining ?st) los
         in Some (w_done w @ w_rest w, limit_after is_buy prec p w ?st))"
      using Cons.prems False by (intro Cons.IH) (auto simp: limit_room_def)
    with False Cons.prems(4) show ?thesis
      by (auto simp: live_def checked_add_def Let_def limit_after_def split: option.splits)
  next
    case True
    then have st: "lo_status lo \<noteq> Cancelled" by (simp add: live_def)
    have q: "?q \<le> le_remaining st" "?q \<le> remaining lo" by auto
    have b2q: "base_to_quote_lots ?q p prec = Some (quote_of ?q p prec)"
      using Cons.prems(3) q by (intro base_to_quote_lots_converts) (auto simp: limit_room_def intro: converts_mono)
    have qle: "quote_of ?q p prec \<le> quote_of (le_remaining st) p prec"
      by (intro quote_of_mono q)
    have adds: "le_base is_buy st + ?q < 2 ^ 64" "le_quote is_buy st + quote_of ?q p prec < 2 ^ 64"
      using Cons.prems(3) q qle by (auto simp: limit_room_def)
    have fl: "lo_filled_base_lots lo + ?q < 2 ^ 64"
      using ok(1) q(2) by (auto simp: order_ok_def remaining_def)
    let ?st = "st\<lparr>le_remaining := le_remaining st - ?q, le_last_price := Some p,
      le_lots_in := le_lots_in st + (if is_buy then ?q else quote_of ?q p prec),
      le_lots_out := le_lots_out st + (if is_buy then quote_of ?q p prec else ?q),
      le_drain := (if ?q = remaining lo then le_drain st + 1 else le_drain st)\<rparr>"
    have room: "limit_room is_buy prec p ?st"
      by (rule limit_room_step [OF Cons.prems(3) q(1)]) auto
    show ?thesis
    proof (cases "remaining lo < le_remaining st")
      case beyond: True
      then have "limit_level_loop is_buy prec p los ?st =
          (let w = walk no_own (le_remaining ?st) los
           in Some (w_done w @ w_rest w, limit_after is_buy prec p w ?st))"
        using Cons.prems room True by (intro Cons.IH) auto
      with beyond st True ok adds b2q show ?thesis
        by (cases is_buy)
          (auto simp: checked_add_def Let_def limit_after_def add.assoc split: option.splits)
    next
      case False
      with st True ok adds b2q fl Cons.prems(2) show ?thesis
        by (cases is_buy)
          (auto simp: checked_add_def Let_def limit_after_def min_def)
    qed
  qed
qed

text \<open>
  The outcome of the outer loop: everything it reports is determined by \<open>match_orders\<close> on
  the side's priority list, and it stops only when the taker is filled or nothing more
  crosses.
\<close>

definition limit_outcome ::
  "(nat \<Rightarrow> nat \<Rightarrow> ordering) \<Rightarrow> nat \<Rightarrow> bool \<Rightarrow> market_precision \<Rightarrow> level list \<Rightarrow> limit_order list \<Rightarrow>
   limit_state \<Rightarrow> level list \<Rightarrow> limit_order list \<Rightarrow> limit_state \<Rightarrow> bool" where
  "limit_outcome cmp price is_buy prec levels F st levels' F' st' \<longleftrightarrow>
     (let (fills, rest, q) =
        match_orders no_own (\<lambda>p. cmp price p \<noteq> Greater) (le_remaining st) (priority levels)
      in side_ok cmp levels' \<and> priority levels' = rest \<and> le_remaining st' = q \<and>
         le_base is_buy st' = le_base is_buy st + base_sum fills \<and>
         le_quote is_buy st' = le_quote is_buy st + quote_sum prec fills \<and>
         filter live F' = filter live F @ map fst (full_fills fills) \<and>
         le_residual st' = (case partial_fill fills of None \<Rightarrow> le_residual st
           | Some (lo, q) \<Rightarrow> Some (residual_of lo (lo_price_multiple lo) q 0)) \<and>
         le_last_price st' = (if fills = [] then le_last_price st
           else Some (lo_price_multiple (fst (last fills))))) \<and>
     set (map lo_id (side_orders levels')) \<subseteq> set (map lo_id (side_orders levels)) \<and>
     lv_price ` set levels' \<subseteq> lv_price ` set levels \<and>
     (le_remaining st' = 0 \<or> levels' = [] \<or> cmp price (lv_price (last levels')) = Greater)"

text \<open>
  The bound under which no sum overflows: at the worst price the taker accepts, the
  remaining size still converts.
\<close>

definition limit_bound ::
  "(nat \<Rightarrow> nat \<Rightarrow> ordering) \<Rightarrow> nat \<Rightarrow> bool \<Rightarrow> market_precision \<Rightarrow> level list \<Rightarrow> nat \<Rightarrow> limit_state \<Rightarrow> bool"
  where
  "limit_bound cmp price is_buy prec levels P st \<longleftrightarrow>
     (\<forall>lv\<in>set levels. cmp price (lv_price lv) \<noteq> Greater \<longrightarrow> lv_price lv \<le> P) \<and>
     limit_room is_buy prec P st"

lemma quote_of_price_mono: "p \<le> P \<Longrightarrow> quote_of q p prec \<le> quote_of q P prec"
  by (simp add: quote_of_def price_num_def div_le_mono)

lemma converts_price_mono:
  assumes "converts b P prec" "p \<le> P"
  shows "converts b p prec"
proof -
  have "b * price_num p prec \<le> b * price_num P prec"
    "b * mp_base_lot_size prec * p \<le> b * mp_base_lot_size prec * P"
    using assms(2) by (simp_all add: price_num_def)
  with assms quote_of_price_mono [OF assms(2), of b prec] show ?thesis
    unfolding converts_def by (meson le_less_trans)
qed

lemma limit_room_price: "limit_room is_buy prec P st \<Longrightarrow> p \<le> P \<Longrightarrow> limit_room is_buy prec p st"
  using quote_of_price_mono [of p P "le_remaining st" prec]
  by (auto simp: limit_room_def intro: converts_price_mono)

lemma quote_sum_level:
  assumes "\<forall>(lo, q)\<in>set fs. lo_price_multiple lo \<le> P"
  shows "quote_sum prec fs \<le> quote_of (base_sum fs) P prec"
  using assms
proof (induction fs)
  case (Cons f fs)
  have "quote_of (snd f) (lo_price_multiple (fst f)) prec \<le> quote_of (snd f) P prec"
    using Cons.prems by (intro quote_of_price_mono) (auto simp: case_prod_beta)
  with Cons quote_of_superadd [of "snd f" P prec "base_sum fs"] show ?case by simp
qed simp

lemma limit_after_room:
  assumes room: "limit_room is_buy prec P st" and le: "p \<le> P"
    and los: "\<forall>lo\<in>set los. lo_price_multiple lo = p"
  shows "limit_room is_buy prec P (limit_after is_buy prec p (walk own (le_remaining st) los) st)"
proof -
  let ?w = "walk own (le_remaining st) los"
  have "\<forall>(lo, q)\<in>set (w_fills ?w). lo_price_multiple lo \<le> P"
    using walk_fills_live [of _ _ own "le_remaining st" los] los le by auto
  then have "quote_sum prec (w_fills ?w) \<le> quote_of (base_sum (w_fills ?w)) P prec"
    by (rule quote_sum_level)
  moreover have "quote_of (base_sum (w_fills ?w)) P prec + quote_of (w_left ?w) P prec
      \<le> quote_of (le_remaining st) P prec"
    using quote_of_superadd [of "base_sum (w_fills ?w)" P prec "w_left ?w"]
      walk_sum [of own "le_remaining st" los] by simp
  moreover have "w_left ?w \<le> le_remaining st" using walk_sum [of own "le_remaining st" los] by simp
  ultimately show ?thesis
    using room walk_sum [of own "le_remaining st" los] unfolding limit_room_def
    by (auto simp: limit_after_def intro: converts_mono)
qed

text \<open>
  What \<open>execute_limit\<close> promises, over the specification: the book afterwards, the sizes of
  both legs, the report of the makers, and that it stops only when the taker is filled or no
  level it accepts is left.
\<close>

definition limit_report ::
  "(nat \<Rightarrow> bool) \<Rightarrow> bool \<Rightarrow> market_precision \<Rightarrow> level list \<Rightarrow> limit_order \<Rightarrow> limit_fill_result \<Rightarrow>
   level list \<Rightarrow> limit_order \<Rightarrow> bool" where
  "limit_report accepts is_buy prec levels order res levels' order' \<longleftrightarrow>
     (let (fills, rest, q) = match_orders no_own accepts (lo_base_lots order) (priority levels);
          u = lf_user_order res
      in priority levels' = rest \<and> base_sum fills + q = lo_base_lots order \<and>
         order' = order\<lparr>lo_filled_base_lots := base_sum fills\<rparr> \<and>
         ue_order_id u = lo_id order \<and> ue_filled_size u = base_sum fills \<and>
         (if is_buy then ue_lots_in u else ue_lots_out u) = base_sum fills \<and>
         (if is_buy then ue_lots_out u else ue_lots_in u) = quote_sum prec fills \<and>
         filter live (lf_filled_orders res) = map fst (full_fills fills) \<and>
         lf_residual_order res =
           map_option (\<lambda>(lo, q). residual_of lo (lo_price_multiple lo) q 0) (partial_fill fills) \<and>
         lf_last_executed_price res =
           (if fills = [] then None else Some (lo_price_multiple (fst (last fills)))) \<and>
         (q = 0 \<or> (\<forall>lv\<in>set levels'. \<not> accepts (lv_price lv)))) \<and>
     set (map lo_id (side_orders levels')) \<subseteq> set (map lo_id (side_orders levels)) \<and>
     lv_price ` set levels' \<subseteq> lv_price ` set levels"

lemma match_orders_sum:
  "base_sum (fst (match_orders own accepts q los)) + snd (snd (match_orders own accepts q los)) = q"
  by (induction own accepts q los rule: match_orders.induct) (auto simp: case_prod_beta)

context price_priority
begin

lemma worse_not_accepted:
  assumes "levels_sorted cmp (levels @ [lv])" "cmp price (lv_price lv) = Greater" "lv' \<in> set levels"
  shows "cmp price (lv_price lv') = Greater"
proof -
  have "cmp (lv_price lv') (lv_price lv) = Less"
    using assms(1,3) by (auto simp: levels_sorted_def sorted_wrt_append)
  moreover have "cmp (lv_price lv) price = Less" using assms(2) cmp_Greater by blast
  ultimately show ?thesis using cmp_Greater cmp_trans by blast
qed

lemma priority_not_accepted:
  assumes "side_ok cmp (levels @ [lv])" "cmp price (lv_price lv) = Greater"
    and "lo \<in> set (priority (levels @ [lv]))"
  shows "cmp price (lo_price_multiple lo) = Greater"
proof -
  obtain lv' where lv': "lv' \<in> set (levels @ [lv])" "lo \<in> set (lv_orders lv')"
    using assms(3) unfolding priority_set side_orders_def by auto
  then have "lo_price_multiple lo = lv_price lv'"
    using assms(1) unfolding side_ok_def level_ok_def by blast
  with lv'(1) assms(1,2) worse_not_accepted [of levels lv price lv'] show ?thesis
    by (auto simp: side_ok_def)
qed

lemma limit_outcome_stop:
  fixes lv price is_buy prec F st levels
  defines "w \<equiv> walk no_own (le_remaining st) (lv_orders lv)"
  assumes ok: "side_ok cmp (levels @ [lv])" and pos: "0 < le_remaining st"
    and acc: "cmp price (lv_price lv) \<noteq> Greater" and rest: "w_rest w \<noteq> []"
  shows "limit_outcome cmp price is_buy prec (levels @ [lv]) F st
    (levels @ [lv\<lparr>lv_orders := w_rest w, lv_volume := lv_volume lv - le_remaining st,
       lv_cancelled := lv_cancelled lv - length (filter (\<lambda>lo. \<not> live lo) (w_done w))\<rparr>])
    (F @ w_done w) (limit_after is_buy prec (lv_price lv) w (st\<lparr>le_drain := 0, le_cancelled := 0\<rparr>))"
proof -
  have lv: "level_ok lv" using side_ok_butlast [OF ok] by simp
  then have price: "\<forall>lo\<in>set (lv_orders lv). lo_price_multiple lo = lv_price lv"
    by (auto simp: level_ok_def)
  have left: "w_left w = 0" using walk_left rest by (fastforce simp: w_def)
  note lv' = level_after_walk [OF lv, of no_own "le_remaining st", folded w_def, OF rest]
  have match: "match_orders no_own (\<lambda>p. cmp price p \<noteq> Greater) (le_remaining st) (priority (levels @ [lv]))
      = (w_fills w, filter live (w_rest w) @ priority levels, 0)"
    using match_orders_walk [OF pos, of "lv_orders lv"] price acc left by (simp add: w_def Let_def)
  have side: "side_ok cmp (levels @ [lv\<lparr>lv_orders := w_rest w, lv_volume := lv_volume lv - le_remaining st,
       lv_cancelled := lv_cancelled lv - length (filter (\<lambda>lo. \<not> live lo) (w_done w))\<rparr>])"
    using side_ok_replace_last [OF ok lv'(2)] walk_rest_ids [of no_own "le_remaining st" "lv_orders lv"]
    by (simp add: w_def)
  have last: "w_fills w \<noteq> [] \<Longrightarrow> lo_price_multiple (fst (last (w_fills w))) = lv_price lv"
    using price walk_fills_live [of "fst (last (w_fills w))" "snd (last (w_fills w))" no_own "le_remaining st" "lv_orders lv"]
    by (auto simp: w_def)
  show ?thesis
    using side left match last walk_done [of no_own "le_remaining st" "lv_orders lv"]
      walk_part [of no_own "le_remaining st" "lv_orders lv"]
      walk_part_price [OF price, of no_own "le_remaining st"]
      walk_rest_ids [of no_own "le_remaining st" "lv_orders lv"]
    by (auto simp: limit_outcome_def limit_after_def w_def comp_def split: option.splits)
qed

lemma limit_outcome_next:
  fixes lv price is_buy prec F st levels
  defines "w \<equiv> walk no_own (le_remaining st) (lv_orders lv)"
  assumes ok: "side_ok cmp (levels @ [lv])" and pos: "0 < le_remaining st"
    and acc: "cmp price (lv_price lv) \<noteq> Greater" and rest: "w_rest w = []"
    and rec: "limit_outcome cmp price is_buy prec levels (F @ w_done w)
      (limit_after is_buy prec (lv_price lv) w (st\<lparr>le_drain := 0, le_cancelled := 0\<rparr>)) levels' F' st'"
  shows "limit_outcome cmp price is_buy prec (levels @ [lv]) F st levels' F' st'"
proof -
  have lv: "level_ok lv" using side_ok_butlast [OF ok] by simp
  then have price: "\<forall>lo\<in>set (lv_orders lv). lo_price_multiple lo = lv_price lv"
    by (auto simp: level_ok_def)
  have part: "w_part w = None" "partial_fill (w_fills w) = None"
    using walk_part_rest rest walk_part by (metis w_def)+
  obtain fills r q where m: "match_orders no_own (\<lambda>p. cmp price p \<noteq> Greater) (w_left w) (priority levels) = (fills, r, q)"
    by (cases "match_orders no_own (\<lambda>p. cmp price p \<noteq> Greater) (w_left w) (priority levels)")
  have match: "match_orders no_own (\<lambda>p. cmp price p \<noteq> Greater) (le_remaining st) (priority (levels @ [lv]))
      = (w_fills w @ fills, r, q)"
    using match_orders_walk [OF pos, of "lv_orders lv"] price acc rest m by (simp add: w_def Let_def)
  have last: "w_fills w \<noteq> [] \<Longrightarrow> lo_price_multiple (fst (last (w_fills w))) = lv_price lv"
    using price walk_fills_live [of "fst (last (w_fills w))" "snd (last (w_fills w))" no_own "le_remaining st" "lv_orders lv"]
    by (auto simp: w_def)
  show ?thesis
    using rec part last walk_done [of no_own "le_remaining st" "lv_orders lv"] m
    unfolding limit_outcome_def match
    by (auto simp: limit_after_def w_def [symmetric] comp_def partial_fill_append last_append split: option.splits)
qed

lemma limit_loop_outcome:
  assumes "side_ok cmp levels" "limit_bound cmp price is_buy prec levels P st"
  shows "\<exists>levels' F' st'. limit_loop cmp price is_buy prec levels F st = Some (levels', F', st') \<and>
    limit_outcome cmp price is_buy prec levels F st levels' F' st'"
  using assms
proof (induction levels arbitrary: F st rule: rev_induct)
  case Nil
  then show ?case
    by (subst limit_loop.simps) (auto simp: limit_outcome_def partial_fill_def)
next
  case (snoc lv levels)
  show ?case
  proof (cases "0 < le_remaining st \<and> cmp price (lv_price lv) \<noteq> Greater")
    case False
    have "match_orders no_own (\<lambda>p. cmp price p \<noteq> Greater) (le_remaining st) (priority (levels @ [lv])) =
        ([], priority (levels @ [lv]), le_remaining st)"
    proof (cases "le_remaining st = 0")
      case nz: False
      with False priority_not_accepted [OF snoc.prems(1)] show ?thesis
        by (intro match_orders_none) auto
    qed simp
    with False snoc.prems(1) show ?thesis
      by (subst limit_loop.simps) (auto simp: limit_outcome_def partial_fill_def Let_def)
  next
    case True
    let ?w = "walk no_own (le_remaining st) (lv_orders lv)"
    let ?st = "limit_after is_buy prec (lv_price lv) ?w (st\<lparr>le_drain := 0, le_cancelled := 0\<rparr>)"
    have lv: "level_ok lv" and levels: "side_ok cmp levels"
      using side_ok_butlast [OF snoc.prems(1)] by auto
    have P: "lv_price lv \<le> P" "limit_room is_buy prec P (st\<lparr>le_drain := 0, le_cancelled := 0\<rparr>)"
      using snoc.prems(2) True by (auto simp: limit_bound_def limit_room_def)
    have loop: "limit_level_loop is_buy prec (lv_price lv) (lv_orders lv) (st\<lparr>le_drain := 0, le_cancelled := 0\<rparr>) =
        Some (w_done ?w @ w_rest ?w, ?st)"
      using limit_level_loop_walk [of "lv_orders lv" "lv_price lv" "st\<lparr>le_drain := 0, le_cancelled := 0\<rparr>" is_buy prec]
        True lv limit_room_price [OF P(2,1)] by (auto simp: level_ok_def Let_def)
    have drain: "le_drain ?st = length (w_done ?w)" by (simp add: limit_after_def)
    have canc: "le_cancelled ?st = length (filter (\<lambda>lo. \<not> live lo) (w_done ?w))" by (simp add: limit_after_def)
    show ?thesis
    proof (cases "w_rest ?w = []")
      case False
      have "le_cancelled ?st \<le> lv_cancelled lv"
        using walk_cancelled [of "lv_orders lv" no_own "le_remaining st"] lv canc by (simp add: level_ok_def)
      with level_after_walk(1) [OF lv False] limit_outcome_stop [OF snoc.prems(1) _ _ False] True loop drain False canc
      show ?thesis by (subst limit_loop.simps) (simp add: Let_def)
    next
      case rest: True
      have "limit_bound cmp price is_buy prec levels P ?st"
        using limit_after_room [OF P(2,1), of "lv_orders lv" no_own] lv snoc.prems(2)
        by (auto simp: limit_bound_def level_ok_def)
      from snoc.IH [OF levels this, of "F @ w_done ?w"] obtain levels' F' st' where
        "limit_loop cmp price is_buy prec levels (F @ w_done ?w) ?st = Some (levels', F', st')"
        "limit_outcome cmp price is_buy prec levels (F @ w_done ?w) ?st levels' F' st'" by auto
      with limit_outcome_next [OF snoc.prems(1) _ _ rest] True loop drain rest
      show ?thesis by (subst limit_loop.simps) (auto simp: Let_def)
    qed
  qed
qed

text \<open>The whole of \<open>execute_limit\<close>.\<close>

lemma execute_limit_report:
  fixes order prec P
  defines "accepts \<equiv> \<lambda>p. cmp (lo_price_multiple order) p \<noteq> Greater"
  assumes ok: "side_ok cmp levels" and size: "lo_base_lots order < 2 ^ 64"
    and conv: "converts (lo_base_lots order) P prec"
    and P: "\<forall>lv\<in>set levels. accepts (lv_price lv) \<longrightarrow> lv_price lv \<le> P"
  shows "\<exists>res levels' order'.
    execute_limit cmp levels order asset_in asset_out is_buy prec = Some (res, levels', order') \<and>
    side_ok cmp levels' \<and> limit_report accepts is_buy prec levels order res levels' order'"
proof -
  let ?st = "\<lparr>le_remaining = lo_base_lots order, le_lots_in = 0, le_lots_out = 0, le_residual = None,
          le_last_price = None, le_drain = 0, le_cancelled = 0\<rparr>"
  have "limit_bound cmp (lo_price_multiple order) is_buy prec levels P ?st"
    using P size conv by (auto simp: limit_bound_def limit_room_def converts_def accepts_def)
  from limit_loop_outcome [OF ok this, of "[]"] obtain levels' F' st' where
    run: "limit_loop cmp (lo_price_multiple order) is_buy prec levels [] ?st = Some (levels', F', st')"
    and out: "limit_outcome cmp (lo_price_multiple order) is_buy prec levels [] ?st levels' F' st'"
    by blast
  obtain fills rest q where m: "match_orders no_own accepts (lo_base_lots order) (priority levels) = (fills, rest, q)"
    by (cases "match_orders no_own accepts (lo_base_lots order) (priority levels)")
  note sum = match_orders_sum [of no_own accepts "lo_base_lots order" "priority levels", unfolded m, simplified]
  have rem: "le_remaining st' = q" "side_ok cmp levels'"
    using out m by (auto simp: limit_outcome_def accepts_def)
  have stop: "q = 0 \<or> (\<forall>lv\<in>set levels'. \<not> accepts (lv_price lv))"
  proof (cases "q = 0 \<or> levels' = []")
    case False
    then obtain ls lv where l: "levels' = ls @ [lv]" by (metis append_butlast_last_id)
    with False out rem have "cmp (lo_price_multiple order) (lv_price lv) = Greater"
      by (auto simp: limit_outcome_def)
    with l rem(2) worse_not_accepted [of ls lv] show ?thesis
      by (auto simp: side_ok_def accepts_def)
  qed auto
  show ?thesis
    using run out rem stop sum m
    by (auto simp: execute_limit_def limit_outcome_def limit_report_def accepts_def
        split: option.splits)
qed

end

end
