(* ===== verification/Market_Orders.thy ===== *)
theory Market_Orders
  imports Price_Time
begin

text \<open>
  The loops of the market orders of \<open>Matching\<close> against the price-time specification. A market
  order takes every price, and the orders of the taker's own account are reduced instead of
  traded, so \<open>own\<close> is equality of accounts. Each inner loop is described by the \<open>walk\<close> of its
  level whenever it returns; \<open>Market_Sells\<close> and \<open>Market_Buys\<close> give the outer loops.
\<close>

section \<open>Fills of a level\<close>

text \<open>The quote lots of a fill as the source computes them, with the truncation to 64 bits.\<close>

definition quote_lots :: "market_precision \<Rightarrow> nat \<Rightarrow> nat \<Rightarrow> nat" where
  "quote_lots prec b p = (case base_to_quote_lots b p prec of None \<Rightarrow> 0 | Some q \<Rightarrow> q)"

text \<open>The fills against other accounts, and the reductions of the taker's own orders.\<close>

definition traded :: "(limit_order \<Rightarrow> bool) \<Rightarrow> fills \<Rightarrow> fills" where
  "traded own fs = filter (\<lambda>(lo, q). \<not> own lo) fs"

definition selfed :: "(limit_order \<Rightarrow> bool) \<Rightarrow> fills \<Rightarrow> fills" where
  "selfed own fs = filter (\<lambda>(lo, q). own lo) fs"

definition level_quote :: "market_precision \<Rightarrow> nat \<Rightarrow> fills \<Rightarrow> nat" where
  "level_quote prec p fs = (\<Sum>(lo, q)\<leftarrow>fs. quote_lots prec q p)"

definition residual_fill :: "(limit_order \<Rightarrow> bool) \<Rightarrow> nat \<Rightarrow> limit_order \<Rightarrow> nat \<Rightarrow> residual_order" where
  "residual_fill own p lo q = (if own lo then residual_of lo p 0 q else residual_of lo p q 0)"

section \<open>The inner loops\<close>

definition sell_after :: "(limit_order \<Rightarrow> bool) \<Rightarrow> market_precision \<Rightarrow> nat \<Rightarrow> walk_result \<Rightarrow> sell_state \<Rightarrow> sell_state" where
  "sell_after own prec p w st = st\<lparr>
     se_remaining := w_left w,
     se_quote_lots_in := se_quote_lots_in st + level_quote prec p (traded own (w_fills w)),
     se_self_fill := se_self_fill st + base_sum (selfed own (w_fills w)),
     se_residual := (case w_part w of None \<Rightarrow> se_residual st
                     | Some (lo, q) \<Rightarrow> Some (residual_fill own p lo q)),
     se_last_price := (if traded own (w_fills w) = [] then se_last_price st else Some p),
     se_drain := se_drain st + length (w_done w),
     se_cancelled := se_cancelled st + length (filter (\<lambda>lo. \<not> live lo) (w_done w))\<rparr>"

lemma traded_simps [simp]:
  "traded own [] = []" "traded own (f # fs) = (if own (fst f) then traded own fs else f # traded own fs)"
  "selfed own [] = []" "selfed own (f # fs) = (if own (fst f) then f # selfed own fs else selfed own fs)"
  "level_quote prec p [] = 0" "level_quote prec p (f # fs) = quote_lots prec (snd f) p + level_quote prec p fs"
  by (auto simp: traded_def selfed_def level_quote_def case_prod_beta)

lemma get_order_remaining_eq: "get_order_remaining lo = Some r \<Longrightarrow> r = remaining lo"
  by (auto simp: get_order_remaining_Some remaining_def)

lemma live_update [simp]:
  "live (lo\<lparr>lo_self_filled := x\<rparr>) = live lo" "live (lo\<lparr>lo_filled_base_lots := x\<rparr>) = live lo"
  by (simp_all add: live_def)

lemma sell_level_loop_walk:
  assumes "sell_level_loop account prec p los st = Some (los', st')"
  shows "let own = (\<lambda>lo. lo_account lo = account); w = walk own (se_remaining st) los
    in los' = w_done w @ w_rest w \<and> st' = sell_after own prec p w st"
  using assms
proof (induction los arbitrary: st los')
  case Nil
  then show ?case by (auto simp: sell_after_def Let_def)
next
  case (Cons lo los)
  note [simp] = Let_def sell_after_def residual_fill_def
  show ?case
  proof (cases "live lo")
    case False
    with Cons.prems Cons.IH show ?thesis
      by (fastforce simp: live_def checked split: option.splits)
  next
    case True
    then have ns: "lo_status lo \<noteq> Cancelled" by (simp add: live_def)
    with Cons.prems obtain r where r: "get_order_remaining lo = Some r"
      by (auto simp: bind_eq_Some_conv)
    note facts = True ns r get_order_remaining_eq [OF r]
    consider (part) "se_remaining st < r" | (full) "se_remaining st = r" | (go) "r < se_remaining st"
      by linarith
    then show ?thesis
    proof cases
      case part
      with Cons.prems facts show ?thesis
        by (cases "lo_account lo = account") (auto simp: checked consume_def quote_lots_def)
    next
      case full
      with Cons.prems facts show ?thesis
        by (cases "lo_account lo = account") (auto simp: checked finish_def quote_lots_def)
    next
      case go
      show ?thesis
      proof (cases "lo_account lo = account")
        case own: True
        from go Cons.prems facts own obtain los1 where
          "sell_level_loop account prec p los (st\<lparr>se_self_fill := se_self_fill st + r, se_remaining := se_remaining st - r, se_drain := se_drain st + 1\<rparr>) = Some (los1, st')"
          and "los' = finish (\<lambda>lo. lo_account lo = account) lo # los1"
          by (auto simp: checked finish_def quote_lots_def)
        with Cons.IH [OF this(1)] go facts own show ?thesis
          by (auto split: option.splits)
      next
        case other: False
        from go Cons.prems facts other obtain los1 where
          "sell_level_loop account prec p los (st\<lparr>se_last_price := Some p, se_remaining := se_remaining st - r, se_quote_lots_in := se_quote_lots_in st + quote_lots prec r p, se_drain := se_drain st + 1\<rparr>) = Some (los1, st')"
          and "los' = finish (\<lambda>lo. lo_account lo = account) lo # los1"
          by (auto simp: checked finish_def quote_lots_def)
        with Cons.IH [OF this(1)] go facts other show ?thesis
          by (auto split: option.splits)
      qed
    qed
  qed
qed

definition buy_after :: "(limit_order \<Rightarrow> bool) \<Rightarrow> market_precision \<Rightarrow> nat \<Rightarrow> walk_result \<Rightarrow> buy_state \<Rightarrow> buy_state" where
  "buy_after own prec p w st = st\<lparr>
     be_remaining_quote := be_remaining_quote st - level_quote prec p (w_fills w),
     be_remaining_base := w_left w,
     be_base_lots_in := be_base_lots_in st + base_sum (traded own (w_fills w)),
     be_self_fill := be_self_fill st + level_quote prec p (selfed own (w_fills w)),
     be_level_filled := be_level_filled st + base_sum (w_fills w),
     be_residual := (case w_part w of None \<Rightarrow> be_residual st
                     | Some (lo, q) \<Rightarrow> Some (residual_fill own p lo q)),
     be_last_price := (if traded own (w_fills w) = [] then be_last_price st else Some p),
     be_drain := be_drain st + length (w_done w),
     be_cancelled := be_cancelled st + length (filter (\<lambda>lo. \<not> live lo) (w_done w))\<rparr>"

lemma buy_level_loop_walk:
  assumes "buy_level_loop account prec p los st = Some (los', st')"
  shows "let own = (\<lambda>lo. lo_account lo = account); w = walk own (be_remaining_base st) los
    in los' = w_done w @ w_rest w \<and> st' = buy_after own prec p w st \<and>
       level_quote prec p (w_fills w) \<le> be_remaining_quote st"
  using assms
proof (induction los arbitrary: st los')
  case Nil
  then show ?case by (auto simp: buy_after_def Let_def)
next
  case (Cons lo los)
  note [simp] = Let_def buy_after_def residual_fill_def
  show ?case
  proof (cases "live lo")
    case False
    with Cons.prems Cons.IH show ?thesis
      by (fastforce simp: live_def checked split: option.splits)
  next
    case True
    then have ns: "lo_status lo \<noteq> Cancelled" by (simp add: live_def)
    with Cons.prems obtain r where r: "get_order_remaining lo = Some r"
      by (auto simp: bind_eq_Some_conv)
    note facts = True ns r get_order_remaining_eq [OF r]
    consider (part) "be_remaining_base st < r" | (full) "be_remaining_base st = r" | (go) "r < be_remaining_base st"
      by linarith
    then show ?thesis
    proof cases
      case part
      with Cons.prems facts show ?thesis
        by (cases "lo_account lo = account") (auto simp: checked consume_def quote_lots_def)
    next
      case full
      with Cons.prems facts show ?thesis
        by (cases "lo_account lo = account") (auto simp: checked finish_def quote_lots_def)
    next
      case go
      show ?thesis
      proof (cases "lo_account lo = account")
        case own: True
        from go Cons.prems facts own obtain los1 where
          "buy_level_loop account prec p los (st\<lparr>be_self_fill := be_self_fill st + quote_lots prec r p, be_remaining_base := be_remaining_base st - r, be_remaining_quote := be_remaining_quote st - quote_lots prec r p, be_level_filled := be_level_filled st + r, be_drain := be_drain st + 1\<rparr>) = Some (los1, st')"
          and "los' = finish (\<lambda>lo. lo_account lo = account) lo # los1" and le: "quote_lots prec r p \<le> be_remaining_quote st"
          by (auto simp: checked finish_def quote_lots_def)
        with Cons.IH [OF this(1)] go facts own show ?thesis
          by (auto split: option.splits)
      next
        case other: False
        from go Cons.prems facts other obtain los1 where
          "buy_level_loop account prec p los (st\<lparr>be_last_price := Some p, be_remaining_base := be_remaining_base st - r, be_level_filled := be_level_filled st + r, be_base_lots_in := be_base_lots_in st + r, be_remaining_quote := be_remaining_quote st - quote_lots prec r p, be_drain := be_drain st + 1\<rparr>) = Some (los1, st')"
          and "los' = finish (\<lambda>lo. lo_account lo = account) lo # los1" and le: "quote_lots prec r p \<le> be_remaining_quote st"
          by (auto simp: checked finish_def quote_lots_def)
        with Cons.IH [OF this(1)] go facts other show ?thesis
          by (auto split: option.splits)
      qed
    qed
  qed
qed

end
