(* ===== verification/Market.thy ===== *)
theory Market
  imports Market_Orders
begin

text \<open>
  A spot market (\<^verbatim>\<open>src/src/state/spot_market.rs\<close>, \<open>SpotMarket\<close>): the two sides of the book,
  the last executed price, and the operations the clearinghouse calls. The invariant
  \<open>market_ok\<close> says that both sides are well formed and that the book is not crossed.
\<close>

section \<open>State\<close>

record market_info =
  mi_market_id :: market_id
  mi_market_name :: string
  mi_last_executed_price :: "nat option"
  mi_best_asks_info :: "level_info option"
  mi_best_bids_info :: "level_info option"
  mi_tick :: nat
  mi_tick_decimals :: nat
  mi_base_name :: string
  mi_quote_name :: string
  mi_base_asset_id :: asset_id
  mi_quote_asset_id :: asset_id

record spot_market =
  sm_market_id :: market_id
  sm_asset_one :: asset_id
  sm_asset_two :: asset_id
  sm_base_asset :: asset_id
  sm_quote_asset :: asset_id
  sm_base_asset_name :: string
  sm_quote_asset_name :: string
  sm_tick :: nat
  sm_tick_decimals :: nat
  sm_last_executed_price :: "nat option"
  sm_bids_levels :: "level list"
  sm_asks_levels :: "level list"

definition spot_market_new ::
  "market_id \<Rightarrow> asset_id \<times> asset_id \<Rightarrow> asset_id \<Rightarrow> asset_id \<Rightarrow> string \<Rightarrow> string \<Rightarrow> nat \<Rightarrow> nat \<Rightarrow>
   spot_market" where
  "spot_market_new market_id normalised_pair base_asset quote_asset base_name quote_name tick
     tick_decimals =
     \<lparr>sm_market_id = market_id, sm_asset_one = fst normalised_pair,
      sm_asset_two = snd normalised_pair, sm_base_asset = base_asset,
      sm_quote_asset = quote_asset, sm_base_asset_name = base_name,
      sm_quote_asset_name = quote_name, sm_tick = tick, sm_tick_decimals = tick_decimals,
      sm_last_executed_price = None, sm_bids_levels = [], sm_asks_levels = []\<rparr>"

section \<open>Operations\<close>

definition add_bid :: "spot_market \<Rightarrow> limit_order \<Rightarrow> spot_market option" where
  "add_bid m order = do {
     levels \<leftarrow> add_order_with_cmp cmp_bid (sm_bids_levels m) order;
     Some (m\<lparr>sm_bids_levels := levels\<rparr>)
   }"

definition add_ask :: "spot_market \<Rightarrow> limit_order \<Rightarrow> spot_market option" where
  "add_ask m order = do {
     levels \<leftarrow> add_order_with_cmp cmp_ask (sm_asks_levels m) order;
     Some (m\<lparr>sm_asks_levels := levels\<rparr>)
   }"

definition cancel_bid :: "spot_market \<Rightarrow> limit_order \<Rightarrow> (nat \<times> spot_market) option" where
  "cancel_bid m order = do {
     (unfilled, levels) \<leftarrow> cancel_order_with_cmp cmp_bid (sm_bids_levels m) order;
     Some (unfilled, m\<lparr>sm_bids_levels := levels\<rparr>)
   }"

definition cancel_ask :: "spot_market \<Rightarrow> limit_order \<Rightarrow> (nat \<times> spot_market) option" where
  "cancel_ask m order = do {
     (unfilled, levels) \<leftarrow> cancel_order_with_cmp cmp_ask (sm_asks_levels m) order;
     Some (unfilled, m\<lparr>sm_asks_levels := levels\<rparr>)
   }"

definition market_cancel_order :: "spot_market \<Rightarrow> limit_order \<Rightarrow> (nat \<times> spot_market) option" where
  "market_cancel_order m order =
     (case lo_direction order of Buy \<Rightarrow> cancel_bid m order | Sell \<Rightarrow> cancel_ask m order)"

definition get_best_prices :: "spot_market \<Rightarrow> nat option \<times> nat option" where
  "get_best_prices m =
     (map_option lv_price (vec_last (sm_bids_levels m)),
      map_option lv_price (vec_last (sm_asks_levels m)))"

definition set_last_executed_price :: "spot_market \<Rightarrow> nat option \<Rightarrow> spot_market" where
  "set_last_executed_price m p =
     (case p of Some price \<Rightarrow> m\<lparr>sm_last_executed_price := Some price\<rparr> | None \<Rightarrow> m)"

definition handle_market_order ::
  "spot_market \<Rightarrow> market_order \<Rightarrow> market_precision \<Rightarrow>
   (market_order_matching_results \<times> spot_market) option" where
  "handle_market_order m order precision =
     (case order of
        MarketSell sell_order \<Rightarrow> do {
          (r, levels) \<leftarrow> execute_market_sell_order (sm_bids_levels m) sell_order precision;
          Some (SellResults r,
                set_last_executed_price (m\<lparr>sm_bids_levels := levels\<rparr>) (sr_last_executed_price r))
        }
      | MarketBuy buy_order \<Rightarrow> do {
          (r, levels) \<leftarrow> execute_market_buy_order (sm_asks_levels m) buy_order precision;
          Some (BuyResults r,
                set_last_executed_price (m\<lparr>sm_asks_levels := levels\<rparr>) (br_last_executed_price r))
        })"

definition add_limit_order ::
  "spot_market \<Rightarrow> limit_order \<Rightarrow> asset_id \<Rightarrow> asset_id \<Rightarrow> market_precision \<Rightarrow>
   (limit_fill_result option \<times> spot_market) option" where
  "add_limit_order m order base_asset quote_asset precision =
     (case lo_direction order of
        Buy \<Rightarrow>
          (case snd (get_best_prices m) of
             None \<Rightarrow> do { m' \<leftarrow> add_bid m order; Some (None, m') }
           | Some best_ask_price \<Rightarrow>
               if best_ask_price \<le> lo_price_multiple order then do {
                 (result, levels, order') \<leftarrow> execute_limit cmp_ask (sm_asks_levels m) order
                   base_asset quote_asset True precision;
                 let m1 = set_last_executed_price (m\<lparr>sm_asks_levels := levels\<rparr>)
                            (lf_last_executed_price result);
                 m2 \<leftarrow> (if lo_filled_base_lots order' < lo_base_lots order' then add_bid m1 order'
                        else Some m1);
                 Some (Some result, m2)
               }
               else do { m' \<leftarrow> add_bid m order; Some (None, m') })
      | Sell \<Rightarrow>
          (case fst (get_best_prices m) of
             None \<Rightarrow> do { m' \<leftarrow> add_ask m order; Some (None, m') }
           | Some best_bid_price \<Rightarrow>
               if lo_price_multiple order \<le> best_bid_price then do {
                 (result, levels, order') \<leftarrow> execute_limit cmp_bid (sm_bids_levels m) order
                   quote_asset base_asset False precision;
                 let m1 = set_last_executed_price (m\<lparr>sm_bids_levels := levels\<rparr>)
                            (lf_last_executed_price result);
                 m2 \<leftarrow> (if lo_filled_base_lots order' < lo_base_lots order' then add_ask m1 order'
                        else Some m1);
                 Some (Some result, m2)
               }
               else do { m' \<leftarrow> add_ask m order; Some (None, m') }))"

definition level_info_of :: "level \<Rightarrow> level_info" where
  "level_info_of lv = \<lparr>li_price = lv_price lv, li_volume = lv_volume lv\<rparr>"

definition get_market_info :: "spot_market \<Rightarrow> market_info" where
  "get_market_info m =
     \<lparr>mi_market_id = sm_market_id m,
      mi_market_name = sm_base_asset_name m @ ''/'' @ sm_quote_asset_name m,
      mi_last_executed_price = sm_last_executed_price m,
      mi_best_asks_info = map_option level_info_of (vec_last (sm_asks_levels m)),
      mi_best_bids_info = map_option level_info_of (vec_last (sm_bids_levels m)),
      mi_tick = sm_tick m, mi_tick_decimals = sm_tick_decimals m,
      mi_base_name = sm_base_asset_name m, mi_quote_name = sm_quote_asset_name m,
      mi_base_asset_id = sm_base_asset m, mi_quote_asset_id = sm_quote_asset m\<rparr>"

section \<open>The invariant\<close>

text \<open>No bid level is priced at or above an ask level.\<close>

definition uncrossed :: "spot_market \<Rightarrow> bool" where
  "uncrossed m \<longleftrightarrow>
     (\<forall>b\<in>lv_price ` set (sm_bids_levels m). \<forall>a\<in>lv_price ` set (sm_asks_levels m). b < a)"

definition market_orders :: "spot_market \<Rightarrow> limit_order list" where
  "market_orders m = side_orders (sm_bids_levels m) @ side_orders (sm_asks_levels m)"

definition market_ok :: "spot_market \<Rightarrow> bool" where
  "market_ok m \<longleftrightarrow>
     side_ok cmp_bid (sm_bids_levels m) \<and> side_ok cmp_ask (sm_asks_levels m) \<and>
     distinct (map lo_id (market_orders m)) \<and> uncrossed m"

section \<open>Limit orders keep the invariant\<close>

lemma cmp_ask_accepts: "cmp_ask price p \<noteq> Greater \<longleftrightarrow> p \<le> price"
  by (auto simp: cmp_ask_def)

lemma cmp_bid_accepts: "cmp_bid price p \<noteq> Greater \<longleftrightarrow> price \<le> p"
  by (auto simp: cmp_bid_def)

lemma last_ask_least:
  assumes "side_ok cmp_ask levels" "lv \<in> set levels"
  shows "lv_price (last levels) \<le> lv_price lv"
proof -
  obtain ls l where "levels = ls @ [l]" using assms(2) by (cases levels rule: rev_cases) auto
  with assms show ?thesis by (auto simp: side_ok_def levels_sorted_def sorted_wrt_append)
qed

lemma last_bid_greatest:
  assumes "side_ok cmp_bid levels" "lv \<in> set levels"
  shows "lv_price lv \<le> lv_price (last levels)"
proof -
  obtain ls l where "levels = ls @ [l]" using assms(2) by (cases levels rule: rev_cases) auto
  with assms show ?thesis by (auto simp: side_ok_def levels_sorted_def sorted_wrt_append)
qed

text \<open>A limit order as \<open>OrderStateManager\<close> makes it, with an id above all of the book.\<close>

definition fresh_order :: "spot_market \<Rightarrow> limit_order \<Rightarrow> bool" where
  "fresh_order m lo \<longleftrightarrow> enters lo \<and> lo_filled_base_lots lo = 0 \<and>
     (\<forall>x\<in>set (market_orders m). lo_id x < lo_id lo)"

lemma book_insert_total:
  assumes "order_ok lo" "\<forall>lv\<in>set levels. lv_volume lv + lo_base_lots lo < 2 ^ 64"
  shows "\<exists>levels'. book_insert cmp levels lo = Some levels'"
  using assms(2)
proof (induction levels)
  case Nil
  then show ?case using new_level_total [OF assms(1)] by auto
next
  case (Cons lv levels)
  then show ?case
    using new_level_total [OF assms(1)] push_order_total [OF assms(1), of lv] by auto
qed

text \<open>Resting an order whose price does not cross the other side.\<close>

lemma add_bid_ok:
  assumes "market_ok m" "enters lo" "\<forall>x\<in>set (market_orders m). lo_id x < lo_id lo"
    and "\<forall>lv\<in>set (sm_bids_levels m). lv_volume lv + lo_base_lots lo < 2 ^ 64"
    and "\<forall>a\<in>lv_price ` set (sm_asks_levels m). lo_price_multiple lo < a"
  shows "\<exists>m'. add_bid m lo = Some m' \<and> market_ok m' \<and> sm_asks_levels m' = sm_asks_levels m \<and>
    mset (side_orders (sm_bids_levels m')) = add_mset lo (mset (side_orders (sm_bids_levels m)))"
proof -
  have side: "side_ok cmp_bid (sm_bids_levels m)" using assms(1) by (simp add: market_ok_def)
  obtain levels' where ins: "book_insert cmp_bid (sm_bids_levels m) lo = Some levels'"
    using book_insert_total [of lo "sm_bids_levels m" cmp_bid] assms(2,4) by (auto simp: enters_def)
  have run: "add_bid m lo = Some (m\<lparr>sm_bids_levels := levels'\<rparr>)"
    using bid_cmp.add_order_with_cmp_insert [of "sm_bids_levels m" lo] side ins
    by (simp add: add_bid_def side_ok_def)
  have side': "side_ok cmp_bid levels'"
    using bid_cmp.book_insert_side_ok [OF side assms(2) _ ins] assms(3) by (auto simp: market_orders_def)
  note ms = book_insert_orders [OF ins]
  have ids: "set (map lo_id (side_orders levels')) = insert (lo_id lo) (set (map lo_id (side_orders (sm_bids_levels m))))"
    using arg_cong [OF ms, of set_mset] by auto
  have "uncrossed (m\<lparr>sm_bids_levels := levels'\<rparr>)"
    using assms(1,5) book_insert_prices [OF ins] by (auto simp: market_ok_def uncrossed_def)
  moreover have "distinct (map lo_id (market_orders (m\<lparr>sm_bids_levels := levels'\<rparr>)))"
    using assms(1,3) side' ids by (auto simp: market_ok_def market_orders_def side_ok_def)
  ultimately show ?thesis
    using run side' assms(1) ms by (auto simp: market_ok_def)
qed

lemma add_ask_ok:
  assumes "market_ok m" "enters lo" "\<forall>x\<in>set (market_orders m). lo_id x < lo_id lo"
    and "\<forall>lv\<in>set (sm_asks_levels m). lv_volume lv + lo_base_lots lo < 2 ^ 64"
    and "\<forall>b\<in>lv_price ` set (sm_bids_levels m). b < lo_price_multiple lo"
  shows "\<exists>m'. add_ask m lo = Some m' \<and> market_ok m' \<and> sm_bids_levels m' = sm_bids_levels m \<and>
    mset (side_orders (sm_asks_levels m')) = add_mset lo (mset (side_orders (sm_asks_levels m)))"
proof -
  have side: "side_ok cmp_ask (sm_asks_levels m)" using assms(1) by (simp add: market_ok_def)
  obtain levels' where ins: "book_insert cmp_ask (sm_asks_levels m) lo = Some levels'"
    using book_insert_total [of lo "sm_asks_levels m" cmp_ask] assms(2,4) by (auto simp: enters_def)
  have run: "add_ask m lo = Some (m\<lparr>sm_asks_levels := levels'\<rparr>)"
    using ask_cmp.add_order_with_cmp_insert [of "sm_asks_levels m" lo] side ins
    by (simp add: add_ask_def side_ok_def)
  have side': "side_ok cmp_ask levels'"
    using ask_cmp.book_insert_side_ok [OF side assms(2) _ ins] assms(3) by (auto simp: market_orders_def)
  note ms = book_insert_orders [OF ins]
  have ids: "set (map lo_id (side_orders levels')) = insert (lo_id lo) (set (map lo_id (side_orders (sm_asks_levels m))))"
    using arg_cong [OF ms, of set_mset] by auto
  have "uncrossed (m\<lparr>sm_asks_levels := levels'\<rparr>)"
    using assms(1,5) book_insert_prices [OF ins] by (auto simp: market_ok_def uncrossed_def)
  moreover have "distinct (map lo_id (market_orders (m\<lparr>sm_asks_levels := levels'\<rparr>)))"
    using assms(1,3) side' ids by (auto simp: market_ok_def market_orders_def side_ok_def)
  ultimately show ?thesis
    using run side' assms(1) ms by (auto simp: market_ok_def)
qed

text \<open>Matching against one side keeps the invariant, whatever it removes from it.\<close>

lemma market_ok_asks:
  assumes "market_ok m" "side_ok cmp_ask levels'"
    and "set (map lo_id (side_orders levels')) \<subseteq> set (map lo_id (side_orders (sm_asks_levels m)))"
    and "lv_price ` set levels' \<subseteq> lv_price ` set (sm_asks_levels m)"
  shows "market_ok (set_last_executed_price (m\<lparr>sm_asks_levels := levels'\<rparr>) p)"
proof -
  have "lo_id ` set (side_orders (sm_bids_levels m)) \<inter> lo_id ` set (side_orders levels') = {}"
    using assms(1,3) by (simp add: market_ok_def market_orders_def) blast
  then have "distinct (map lo_id (market_orders (m\<lparr>sm_asks_levels := levels'\<rparr>)))"
    using assms(1,2) by (simp add: market_ok_def market_orders_def side_ok_def)
  moreover have "uncrossed (m\<lparr>sm_asks_levels := levels'\<rparr>)"
    using assms(1,4) by (auto simp: market_ok_def uncrossed_def)
  ultimately show ?thesis
    using assms(1,2)
    by (auto simp: market_ok_def set_last_executed_price_def market_orders_def uncrossed_def
        split: option.splits)
qed

lemma market_ok_bids:
  assumes "market_ok m" "side_ok cmp_bid levels'"
    and "set (map lo_id (side_orders levels')) \<subseteq> set (map lo_id (side_orders (sm_bids_levels m)))"
    and "lv_price ` set levels' \<subseteq> lv_price ` set (sm_bids_levels m)"
  shows "market_ok (set_last_executed_price (m\<lparr>sm_bids_levels := levels'\<rparr>) p)"
proof -
  have "lo_id ` set (side_orders levels') \<inter> lo_id ` set (side_orders (sm_asks_levels m)) = {}"
    using assms(1,3) by (simp add: market_ok_def market_orders_def) blast
  then have "distinct (map lo_id (market_orders (m\<lparr>sm_bids_levels := levels'\<rparr>)))"
    using assms(1,2) by (simp add: market_ok_def market_orders_def side_ok_def)
  moreover have "uncrossed (m\<lparr>sm_bids_levels := levels'\<rparr>)"
    using assms(1,4) by (auto simp: market_ok_def uncrossed_def)
  ultimately show ?thesis
    using assms(1,2)
    by (auto simp: market_ok_def set_last_executed_price_def market_orders_def uncrossed_def
        split: option.splits)
qed

lemma set_last_executed_price_simps [simp]:
  "sm_bids_levels (set_last_executed_price m p) = sm_bids_levels m"
  "sm_asks_levels (set_last_executed_price m p) = sm_asks_levels m"
  "market_orders (set_last_executed_price m p) = market_orders m"
  "sm_base_asset (set_last_executed_price m p) = sm_base_asset m"
  "sm_quote_asset (set_last_executed_price m p) = sm_quote_asset m"
  by (auto simp: set_last_executed_price_def market_orders_def split: option.splits)

lemma get_best_prices_simps:
  "snd (get_best_prices m) = (if sm_asks_levels m = [] then None else Some (lv_price (last (sm_asks_levels m))))"
  "fst (get_best_prices m) = (if sm_bids_levels m = [] then None else Some (lv_price (last (sm_bids_levels m))))"
  by (simp_all add: get_best_prices_def vec_last_def)

text \<open>The bounds under which a limit order is handled without a panic in the market.\<close>

definition limit_fits :: "spot_market \<Rightarrow> limit_order \<Rightarrow> market_precision \<Rightarrow> bool" where
  "limit_fits m lo prec \<longleftrightarrow>
     (case lo_direction lo of
        Buy \<Rightarrow> converts (lo_base_lots lo) (lo_price_multiple lo) prec \<and>
          (\<forall>lv\<in>set (sm_bids_levels m). lv_volume lv + lo_base_lots lo < 2 ^ 64)
      | Sell \<Rightarrow> (\<forall>lv\<in>set (sm_bids_levels m). converts (lo_base_lots lo) (lv_price lv) prec) \<and>
          (\<forall>lv\<in>set (sm_asks_levels m). lv_volume lv + lo_base_lots lo < 2 ^ 64))"

text \<open>
  What a limit order does to the market, seen from its own side of the book and the opposite
  one: without a match it joins its own side; otherwise the opposite side is matched by price
  and time, and what is left of the order joins its own side.
\<close>

definition limit_contract ::
  "(nat \<Rightarrow> bool) \<Rightarrow> bool \<Rightarrow> market_precision \<Rightarrow> level list \<Rightarrow> level list \<Rightarrow> limit_order \<Rightarrow>
   limit_fill_result option \<Rightarrow> level list \<Rightarrow> level list \<Rightarrow> bool" where
  "limit_contract accepts is_buy prec own opposite lo r own' opposite' \<longleftrightarrow>
     (case r of
        None \<Rightarrow> (\<forall>lv\<in>set opposite. \<not> accepts (lv_price lv)) \<and> opposite' = opposite \<and>
          mset (side_orders own') = add_mset lo (mset (side_orders own))
      | Some res \<Rightarrow> (\<exists>lo'. limit_report accepts is_buy prec opposite lo res opposite' lo' \<and>
          mset (side_orders own') = mset (side_orders own) +
            (if lo_filled_base_lots lo' < lo_base_lots lo' then {#lo'#} else {#})))"

lemma add_limit_buy_ok:
  assumes m: "market_ok m" and lo: "fresh_order m lo" and fits: "limit_fits m lo prec"
    and dir: "lo_direction lo = Buy"
  shows "\<exists>r m'. add_limit_order m lo base_asset quote_asset prec = Some (r, m') \<and> market_ok m' \<and>
    limit_contract (\<lambda>p. p \<le> lo_price_multiple lo) True prec (sm_bids_levels m) (sm_asks_levels m) lo r
      (sm_bids_levels m') (sm_asks_levels m')"
proof (cases "sm_asks_levels m = [] \<or> lo_price_multiple lo < lv_price (last (sm_asks_levels m))")
  case True
  then have "\<forall>a\<in>lv_price ` set (sm_asks_levels m). lo_price_multiple lo < a"
    using m last_ask_least [of "sm_asks_levels m"] by (force simp: market_ok_def)
  moreover from this obtain m' where "add_bid m lo = Some m'" "market_ok m'"
    "sm_asks_levels m' = sm_asks_levels m"
    "mset (side_orders (sm_bids_levels m')) = add_mset lo (mset (side_orders (sm_bids_levels m)))"
    using add_bid_ok [OF m, of lo] lo fits dir by (auto simp: fresh_order_def limit_fits_def)
  ultimately show ?thesis using True dir
    by (auto simp: add_limit_order_def get_best_prices_simps limit_contract_def not_le)
next
  case False
  let ?acc = "\<lambda>p. p \<le> lo_price_multiple lo"
  have side: "side_ok cmp_ask (sm_asks_levels m)" using m by (simp add: market_ok_def)
  from ask_cmp.execute_limit_report [OF side, of lo "lo_price_multiple lo" prec base_asset quote_asset True]
  obtain res asks' lo' where
    run: "execute_limit cmp_ask (sm_asks_levels m) lo base_asset quote_asset True prec = Some (res, asks', lo')"
    and asks': "side_ok cmp_ask asks'"
    and rep: "limit_report ?acc True prec (sm_asks_levels m) lo res asks' lo'"
    using lo fits dir
    by (auto simp: cmp_ask_accepts fresh_order_def enters_def order_ok_def limit_fits_def)
  let ?m1 = "set_last_executed_price (m\<lparr>sm_asks_levels := asks'\<rparr>) (lf_last_executed_price res)"
  have m1: "market_ok ?m1"
    using market_ok_asks [OF m asks'] rep by (simp add: limit_report_def case_prod_beta)
  have lo': "enters lo'" "lo_id lo' = lo_id lo" "lo_base_lots lo' = lo_base_lots lo"
    "lo_price_multiple lo' = lo_price_multiple lo"
    using rep lo by (auto simp: limit_report_def fresh_order_def enters_def order_ok_def live_def
        Let_def case_prod_beta)
  show ?thesis
  proof (cases "lo_filled_base_lots lo' < lo_base_lots lo'")
    case rest: True
    then have "\<forall>a\<in>lv_price ` set asks'. lo_price_multiple lo < a"
      using rep by (auto simp: limit_report_def Let_def case_prod_beta)
    moreover have "\<forall>x\<in>set (market_orders ?m1). lo_id x < lo_id lo"
    proof
      fix x assume "x \<in> set (market_orders ?m1)"
      then have "lo_id x \<in> lo_id ` set (market_orders m)"
        using rep by (auto simp: limit_report_def market_orders_def)
      then show "lo_id x < lo_id lo" using lo by (auto simp: fresh_order_def)
    qed
    ultimately obtain m' where "add_bid ?m1 lo' = Some m'" "market_ok m'" "sm_asks_levels m' = asks'"
      "mset (side_orders (sm_bids_levels m')) = add_mset lo' (mset (side_orders (sm_bids_levels m)))"
      using add_bid_ok [OF m1 lo'(1)] fits dir lo' by (auto simp: limit_fits_def)
    with False dir run rep rest show ?thesis
      by (auto simp: add_limit_order_def get_best_prices_simps Let_def limit_contract_def
          intro!: exI [of _ lo'])
  next
    case full: False
    with False dir run rep m1 show ?thesis
      by (auto simp: add_limit_order_def get_best_prices_simps Let_def limit_contract_def
          intro!: exI [of _ lo'])
  qed
qed

lemma add_limit_sell_ok:
  assumes m: "market_ok m" and lo: "fresh_order m lo" and fits: "limit_fits m lo prec"
    and dir: "lo_direction lo = Sell"
  shows "\<exists>r m'. add_limit_order m lo base_asset quote_asset prec = Some (r, m') \<and> market_ok m' \<and>
    limit_contract (\<lambda>p. lo_price_multiple lo \<le> p) False prec (sm_asks_levels m) (sm_bids_levels m) lo r
      (sm_asks_levels m') (sm_bids_levels m')"
proof (cases "sm_bids_levels m = [] \<or> lv_price (last (sm_bids_levels m)) < lo_price_multiple lo")
  case True
  then have "\<forall>b\<in>lv_price ` set (sm_bids_levels m). b < lo_price_multiple lo"
    using m last_bid_greatest [of "sm_bids_levels m"] by (force simp: market_ok_def)
  moreover from this obtain m' where "add_ask m lo = Some m'" "market_ok m'"
    "sm_bids_levels m' = sm_bids_levels m"
    "mset (side_orders (sm_asks_levels m')) = add_mset lo (mset (side_orders (sm_asks_levels m)))"
    using add_ask_ok [OF m, of lo] lo fits dir by (auto simp: fresh_order_def limit_fits_def)
  ultimately show ?thesis using True dir
    by (auto simp: add_limit_order_def get_best_prices_simps limit_contract_def not_le)
next
  case False
  let ?acc = "\<lambda>p. lo_price_multiple lo \<le> p"
  let ?P = "lv_price (last (sm_bids_levels m))"
  have side: "side_ok cmp_bid (sm_bids_levels m)" using m by (simp add: market_ok_def)
  have P: "\<forall>lv\<in>set (sm_bids_levels m). lv_price lv \<le> ?P"
    using last_bid_greatest [OF side] by blast
  have conv: "converts (lo_base_lots lo) ?P prec"
    using fits dir False by (auto simp: limit_fits_def)
  from bid_cmp.execute_limit_report [OF side _ conv, of quote_asset base_asset False]
  obtain res bids' lo' where
    run: "execute_limit cmp_bid (sm_bids_levels m) lo quote_asset base_asset False prec = Some (res, bids', lo')"
    and bids': "side_ok cmp_bid bids'"
    and rep: "limit_report ?acc False prec (sm_bids_levels m) lo res bids' lo'"
    using lo P by (auto simp: cmp_bid_accepts fresh_order_def enters_def order_ok_def)
  let ?m1 = "set_last_executed_price (m\<lparr>sm_bids_levels := bids'\<rparr>) (lf_last_executed_price res)"
  have m1: "market_ok ?m1"
    using market_ok_bids [OF m bids'] rep by (simp add: limit_report_def case_prod_beta)
  have lo': "enters lo'" "lo_id lo' = lo_id lo" "lo_base_lots lo' = lo_base_lots lo"
    "lo_price_multiple lo' = lo_price_multiple lo"
    using rep lo by (auto simp: limit_report_def fresh_order_def enters_def order_ok_def live_def
        Let_def case_prod_beta)
  show ?thesis
  proof (cases "lo_filled_base_lots lo' < lo_base_lots lo'")
    case rest: True
    then have "\<forall>b\<in>lv_price ` set bids'. b < lo_price_multiple lo"
      using rep by (auto simp: limit_report_def Let_def case_prod_beta)
    moreover have "\<forall>x\<in>set (market_orders ?m1). lo_id x < lo_id lo"
    proof
      fix x assume "x \<in> set (market_orders ?m1)"
      then have "lo_id x \<in> lo_id ` set (market_orders m)"
        using rep by (auto simp: limit_report_def market_orders_def)
      then show "lo_id x < lo_id lo" using lo by (auto simp: fresh_order_def)
    qed
    ultimately obtain m' where "add_ask ?m1 lo' = Some m'" "market_ok m'" "sm_bids_levels m' = bids'"
      "mset (side_orders (sm_asks_levels m')) = add_mset lo' (mset (side_orders (sm_asks_levels m)))"
      using add_ask_ok [OF m1 lo'(1)] fits dir lo' by (auto simp: limit_fits_def)
    with False dir run rep rest show ?thesis
      by (auto simp: add_limit_order_def get_best_prices_simps Let_def limit_contract_def
          intro!: exI [of _ lo'])
  next
    case full: False
    with False dir run rep m1 show ?thesis
      by (auto simp: add_limit_order_def get_best_prices_simps Let_def limit_contract_def
          intro!: exI [of _ lo'])
  qed
qed

lemma add_limit_order_ok:
  assumes "market_ok m" "fresh_order m lo" "limit_fits m lo prec"
  shows "\<exists>r m'. add_limit_order m lo base_asset quote_asset prec = Some (r, m') \<and> market_ok m'"
  using add_limit_buy_ok [OF assms] add_limit_sell_ok [OF assms]
  by (cases "lo_direction lo") blast+

section \<open>Cancelling keeps the invariant\<close>

text \<open>
  The caller's copy of a resting order agrees with the book: same id, price and sizes.
\<close>

definition agrees :: "limit_order \<Rightarrow> limit_order \<Rightarrow> bool" where
  "agrees lo x \<longleftrightarrow> lo_id lo = lo_id x \<and> lo_price_multiple lo = lo_price_multiple x \<and>
     lo_filled_base_lots lo \<le> lo_base_lots lo \<and>
     lo_base_lots lo - lo_filled_base_lots lo = remaining x"

definition small_levels :: "spot_market \<Rightarrow> bool" where
  "small_levels m \<longleftrightarrow> (\<forall>lv\<in>set (sm_bids_levels m) \<union> set (sm_asks_levels m).
     length (lv_orders lv) < 2 ^ 32 - 1)"

lemma cancel_bid_ok:
  assumes m: "market_ok m" "small_levels m"
    and x: "x \<in> set (side_orders (sm_bids_levels m))" "live x" "agrees lo x"
  shows "\<exists>m'. cancel_bid m lo = Some (remaining x, m') \<and> market_ok m' \<and>
    sm_asks_levels m' = sm_asks_levels m \<and>
    filter active (side_orders (sm_bids_levels m')) =
      filter (\<lambda>y. active y \<and> lo_id y \<noteq> lo_id lo) (side_orders (sm_bids_levels m))"
proof -
  have side: "side_ok cmp_bid (sm_bids_levels m)" using m by (simp add: market_ok_def)
  from bid_cmp.book_cancel_ok [OF side _ x(1,2), of lo] m(2) x(3)
  obtain levels' where c: "book_cancel (sm_bids_levels m) lo = Some (remaining x, levels')"
    "\<forall>lv\<in>set levels'. level_ok lv"
    "subseq (map lv_price levels') (map lv_price (sm_bids_levels m))"
    "subseq (map lo_id (side_orders levels')) (map lo_id (side_orders (sm_bids_levels m)))"
    "filter active (side_orders levels') =
      filter (\<lambda>y. active y \<and> lo_id y \<noteq> lo_id lo) (side_orders (sm_bids_levels m))"
    by (auto simp: small_levels_def agrees_def)
  have "market_ok (set_last_executed_price (m\<lparr>sm_bids_levels := levels'\<rparr>) None)"
    using bid_cmp.cancel_side_ok [OF side c(2-4)] subseq_set [OF c(4)] subseq_set [OF c(3)]
    by (intro market_ok_bids [OF m(1)]) auto
  with c side show ?thesis
    using bid_cmp.cancel_order_with_cmp_cancel [of "sm_bids_levels m" lo]
    by (simp add: cancel_bid_def side_ok_def set_last_executed_price_def)
qed

lemma cancel_ask_ok:
  assumes m: "market_ok m" "small_levels m"
    and x: "x \<in> set (side_orders (sm_asks_levels m))" "live x" "agrees lo x"
  shows "\<exists>m'. cancel_ask m lo = Some (remaining x, m') \<and> market_ok m' \<and>
    sm_bids_levels m' = sm_bids_levels m \<and>
    filter active (side_orders (sm_asks_levels m')) =
      filter (\<lambda>y. active y \<and> lo_id y \<noteq> lo_id lo) (side_orders (sm_asks_levels m))"
proof -
  have side: "side_ok cmp_ask (sm_asks_levels m)" using m by (simp add: market_ok_def)
  from ask_cmp.book_cancel_ok [OF side _ x(1,2), of lo] m(2) x(3)
  obtain levels' where c: "book_cancel (sm_asks_levels m) lo = Some (remaining x, levels')"
    "\<forall>lv\<in>set levels'. level_ok lv"
    "subseq (map lv_price levels') (map lv_price (sm_asks_levels m))"
    "subseq (map lo_id (side_orders levels')) (map lo_id (side_orders (sm_asks_levels m)))"
    "filter active (side_orders levels') =
      filter (\<lambda>y. active y \<and> lo_id y \<noteq> lo_id lo) (side_orders (sm_asks_levels m))"
    by (auto simp: small_levels_def agrees_def)
  have "market_ok (set_last_executed_price (m\<lparr>sm_asks_levels := levels'\<rparr>) None)"
    using ask_cmp.cancel_side_ok [OF side c(2-4)] subseq_set [OF c(4)] subseq_set [OF c(3)]
    by (intro market_ok_asks [OF m(1)]) auto
  with c side show ?thesis
    using ask_cmp.cancel_order_with_cmp_cancel [of "sm_asks_levels m" lo]
    by (simp add: cancel_ask_def side_ok_def set_last_executed_price_def)
qed

text \<open>The side of the book an order of the given direction rests on.\<close>

definition side_of :: "order_direction \<Rightarrow> spot_market \<Rightarrow> level list" where
  "side_of d m = (case d of Buy \<Rightarrow> sm_bids_levels m | Sell \<Rightarrow> sm_asks_levels m)"

definition opposite :: "order_direction \<Rightarrow> order_direction" where
  "opposite d = (case d of Buy \<Rightarrow> Sell | Sell \<Rightarrow> Buy)"

lemma market_cancel_order_ok:
  assumes m: "market_ok m" "small_levels m"
    and x: "x \<in> set (side_orders (side_of (lo_direction lo) m))" "live x" "agrees lo x"
  shows "\<exists>m'. market_cancel_order m lo = Some (remaining x, m') \<and> market_ok m' \<and>
    side_of (opposite (lo_direction lo)) m' = side_of (opposite (lo_direction lo)) m \<and>
    filter active (side_orders (side_of (lo_direction lo) m')) =
      filter (\<lambda>y. active y \<and> lo_id y \<noteq> lo_id lo) (side_orders (side_of (lo_direction lo) m))"
  using cancel_bid_ok [OF m _ x(2,3)] cancel_ask_ok [OF m _ x(2,3)] x(1)
  by (cases "lo_direction lo") (simp_all add: market_cancel_order_def side_of_def opposite_def)

end
