(* ===== verification/Clearinghouse.thy ===== *)
theory Clearinghouse
  imports Market
begin

text \<open>
  The spot clearinghouse (\<^verbatim>\<open>src/src/state/spot_clearinghouse.rs\<close>): token balances per account,
  the markets, and the two operations that touch both, placing an order (lock the funds,
  match, settle the taker and every maker) and cancelling one (unlock). \<open>handle_order\<close> is
  cut where the source's nesting cuts it: locking, settling the taker, settling each maker.
\<close>

section \<open>Balances\<close>

record account_token_balance =
  atb_asset_id :: asset_id
  atb_available_balance :: nat
  atb_total_balance :: nat

record account_balance =
  ab_asset_balances :: "account_token_balance list"

type_synonym accounts = "public_key_hash \<rightharpoonup> account_balance"

definition locked_balance :: "account_token_balance \<Rightarrow> nat option" where
  "locked_balance t = checked_sub (atb_total_balance t) (atb_available_balance t)"

definition account_balance_new :: account_balance where
  "account_balance_new = \<lparr>ab_asset_balances = []\<rparr>"

definition find_asset_id :: "account_balance \<Rightarrow> asset_id \<Rightarrow> account_token_balance option" where
  "find_asset_id ab asset_id = find (\<lambda>b. atb_asset_id b = asset_id) (ab_asset_balances ab)"

text \<open>
  \<open>get_account_token_balance_mut\<close> returns a reference into the vector, which it extends with
  a zero balance where the asset is missing: here the index and the account.
\<close>

definition get_account_token_balance_mut :: "account_balance \<Rightarrow> asset_id \<Rightarrow> nat \<times> account_balance" where
  "get_account_token_balance_mut ab asset_id =
     (case position (\<lambda>a. atb_asset_id a = asset_id) (ab_asset_balances ab) of
        Some i \<Rightarrow> (i, ab)
      | None \<Rightarrow> (length (ab_asset_balances ab),
          ab\<lparr>ab_asset_balances := ab_asset_balances ab @
            [\<lparr>atb_asset_id = asset_id, atb_available_balance = 0, atb_total_balance = 0\<rparr>]\<rparr>))"

text \<open>Reading and writing through that reference.\<close>

definition token_of :: "account_balance \<Rightarrow> asset_id \<Rightarrow> account_token_balance" where
  "token_of ab asset_id =
     (let (i, ab') = get_account_token_balance_mut ab asset_id in ab_asset_balances ab' ! i)"

definition modify_token ::
  "account_balance \<Rightarrow> asset_id \<Rightarrow> (account_token_balance \<Rightarrow> account_token_balance option) \<Rightarrow>
   account_balance option" where
  "modify_token ab asset_id f =
     (let (i, ab') = get_account_token_balance_mut ab asset_id in
      do {
        t \<leftarrow> f (ab_asset_balances ab' ! i);
        Some (ab'\<lparr>ab_asset_balances := (ab_asset_balances ab')[i := t]\<rparr>)
      })"

text \<open>The compound assignments on a token balance.\<close>

definition add_available :: "nat \<Rightarrow> account_token_balance \<Rightarrow> account_token_balance option" where
  "add_available n t = do {
     a \<leftarrow> add128 (atb_available_balance t) n;
     Some (t\<lparr>atb_available_balance := a\<rparr>)
   }"

definition sub_available :: "nat \<Rightarrow> account_token_balance \<Rightarrow> account_token_balance option" where
  "sub_available n t = do {
     a \<leftarrow> checked_sub (atb_available_balance t) n;
     Some (t\<lparr>atb_available_balance := a\<rparr>)
   }"

definition add_total :: "nat \<Rightarrow> account_token_balance \<Rightarrow> account_token_balance option" where
  "add_total n t = do {
     a \<leftarrow> add128 (atb_total_balance t) n;
     Some (t\<lparr>atb_total_balance := a\<rparr>)
   }"

definition sub_total :: "nat \<Rightarrow> account_token_balance \<Rightarrow> account_token_balance option" where
  "sub_total n t = do {
     a \<leftarrow> checked_sub (atb_total_balance t) n;
     Some (t\<lparr>atb_total_balance := a\<rparr>)
   }"

definition credit :: "nat \<Rightarrow> account_token_balance \<Rightarrow> account_token_balance option" where
  "credit n t = do { t1 \<leftarrow> add_total n t; add_available n t1 }"

text \<open>The taker's outgoing leg: unlock what was locked, then pay what was traded.\<close>

definition unlock_and_pay :: "nat \<Rightarrow> nat \<Rightarrow> account_token_balance \<Rightarrow> account_token_balance option" where
  "unlock_and_pay lock amount t = do {
     t1 \<leftarrow> add_available lock t;
     t2 \<leftarrow> sub_total amount t1;
     sub_available amount t2
   }"

section \<open>The clearinghouse\<close>

record spot_clearing_house =
  ch_next_id :: market_id
  ch_accounts :: accounts
  ch_markets :: "spot_market list"
  ch_asset_to_market_map :: "asset_id \<times> asset_id \<rightharpoonup> market_id"

definition clearing_house_new :: spot_clearing_house where
  "clearing_house_new = \<lparr>ch_next_id = 0, ch_accounts = Map.empty, ch_markets = [],
     ch_asset_to_market_map = Map.empty\<rparr>"

text \<open>The faucet's key comes from the environment: it is a parameter.\<close>

definition add_faucet_account :: "public_key_hash \<Rightarrow> spot_clearing_house \<Rightarrow> spot_clearing_house" where
  "add_faucet_account pk ch = ch\<lparr>ch_accounts := (ch_accounts ch)(pk \<mapsto>
     \<lparr>ab_asset_balances =
        [\<lparr>atb_asset_id = 0, atb_available_balance = u128_max, atb_total_balance = u128_max\<rparr>,
         \<lparr>atb_asset_id = 1, atb_available_balance = u128_max, atb_total_balance = u128_max\<rparr>]\<rparr>)\<rparr>"

definition get_account_balance_or_default :: "spot_clearing_house \<Rightarrow> public_key_hash \<Rightarrow> account_balance" where
  "get_account_balance_or_default ch pk =
     (case ch_accounts ch pk of Some ab \<Rightarrow> ab | None \<Rightarrow> account_balance_new)"

definition get_account_balance :: "spot_clearing_house \<Rightarrow> public_key_hash \<Rightarrow> account_balance option" where
  "get_account_balance ch pk = ch_accounts ch pk"

text \<open>\<open>entry(pk).or_insert_with(AccountBalance::new)\<close>: the balance, and the map with it.\<close>

definition get_account_balance_mut :: "accounts \<Rightarrow> public_key_hash \<Rightarrow> account_balance \<times> accounts" where
  "get_account_balance_mut accts pk =
     (case accts pk of
        Some ab \<Rightarrow> (ab, accts)
      | None \<Rightarrow> (account_balance_new, accts(pk \<mapsto> account_balance_new)))"

definition modify_account ::
  "accounts \<Rightarrow> public_key_hash \<Rightarrow> (account_balance \<Rightarrow> account_balance option) \<Rightarrow> accounts option" where
  "modify_account accts pk f =
     (let (ab, accts') = get_account_balance_mut accts pk in
      do { ab' \<leftarrow> f ab; Some (accts'(pk \<mapsto> ab')) })"

definition normalise_pair :: "asset_id \<Rightarrow> asset_id \<Rightarrow> asset_id \<times> asset_id" where
  "normalise_pair asset_one asset_two =
     (if asset_one < asset_two then (asset_one, asset_two) else (asset_two, asset_one))"

definition get_market_id_from_pair ::
  "spot_clearing_house \<Rightarrow> asset_id \<Rightarrow> asset_id \<Rightarrow> market_id option" where
  "get_market_id_from_pair ch base_asset quote_asset =
     ch_asset_to_market_map ch (normalise_pair base_asset quote_asset)"

definition get_market_info_from_id :: "spot_clearing_house \<Rightarrow> market_id \<Rightarrow> market_info option" where
  "get_market_info_from_id ch market_id = map_option get_market_info (index (ch_markets ch) market_id)"

definition get_markets :: "spot_clearing_house \<Rightarrow> market_info list" where
  "get_markets ch = map get_market_info (ch_markets ch)"

definition get_quote_base_tick_from_id ::
  "spot_clearing_house \<Rightarrow> market_id \<Rightarrow> (asset_id \<times> asset_id \<times> nat \<times> nat) option" where
  "get_quote_base_tick_from_id ch market_id =
     map_option (\<lambda>m. (sm_quote_asset m, sm_base_asset m, sm_tick m, sm_tick_decimals m))
       (index (ch_markets ch) market_id)"

definition create_new_market ::
  "spot_clearing_house \<Rightarrow> asset_id \<times> asset_id \<Rightarrow> nat \<Rightarrow> nat \<Rightarrow> asset_id \<Rightarrow> asset_id \<Rightarrow> string \<Rightarrow> string \<Rightarrow>
   market_id \<times> spot_clearing_house" where
  "create_new_market ch normalised_pair tick tick_decimals base_asset quote_asset base_name quote_name =
     (let market_id = ch_next_id ch;
          market = spot_market_new market_id normalised_pair base_asset quote_asset base_name
                     quote_name tick tick_decimals
      in (market_id,
          ch\<lparr>ch_markets := ch_markets ch @ [market],
             ch_asset_to_market_map := (ch_asset_to_market_map ch)(normalised_pair \<mapsto> market_id),
             ch_next_id := ch_next_id ch + 1\<rparr>))"

definition add_market ::
  "spot_clearing_house \<Rightarrow> asset_id \<Rightarrow> asset_id \<Rightarrow> string \<Rightarrow> string \<Rightarrow> nat \<Rightarrow> nat \<Rightarrow>
   market_id \<times> spot_clearing_house" where
  "add_market ch base_asset quote_asset base_name quote_name tick tick_decimals =
     (case get_market_id_from_pair ch base_asset quote_asset of
        Some market_id \<Rightarrow> (market_id, ch)
      | None \<Rightarrow> create_new_market ch (normalise_pair base_asset quote_asset) tick tick_decimals
                  base_asset quote_asset base_name quote_name)"

text \<open>
  The market, if the id is known, and the account, created where it is missing.
\<close>

definition get_market_and_account_balance ::
  "spot_clearing_house \<Rightarrow> market_id \<Rightarrow> public_key_hash \<Rightarrow>
   spot_market option \<times> account_balance \<times> spot_clearing_house" where
  "get_market_and_account_balance ch market_id pk =
     (let (ab, accts) = get_account_balance_mut (ch_accounts ch) pk
      in (index (ch_markets ch) market_id, ab, ch\<lparr>ch_accounts := accts\<rparr>))"

section \<open>Cancelling an order\<close>

definition cancel_order ::
  "spot_clearing_house \<Rightarrow> limit_order \<Rightarrow> market_precision \<Rightarrow> (bool \<times> spot_clearing_house) option" where
  "cancel_order ch order precision =
     (let market_id = co_market_id (lo_common order);
          (market_opt, ab, ch1) = get_market_and_account_balance ch market_id (lo_account order)
      in case market_opt of
           None \<Rightarrow> Some (False, ch1)
         | Some market \<Rightarrow> do {
             (unfilled_base, market') \<leftarrow> market_cancel_order market order;
             ab' \<leftarrow> (case lo_direction order of
                Buy \<Rightarrow> do {
                  quote_lots \<leftarrow> base_to_quote_lots unfilled_base (lo_price_multiple order) precision;
                  quote_amount \<leftarrow> mul128 quote_lots (mp_quote_lot_size precision);
                  modify_token ab (sm_quote_asset market) (add_available quote_amount)
                }
              | Sell \<Rightarrow> do {
                  base_amount \<leftarrow> mul128 unfilled_base (mp_base_lot_size precision);
                  modify_token ab (sm_base_asset market) (add_available base_amount)
                });
             Some (True, ch1\<lparr>ch_markets := (ch_markets ch1)[market_id := market'],
                            ch_accounts := (ch_accounts ch1)(lo_account order \<mapsto> ab')\<rparr>)
           })"

section \<open>Limit orders\<close>

text \<open>
  Lock the funds of a limit order. The first component is the locked amount, or \<open>None\<close>
  where the balance is too small.
\<close>

definition lock_limit ::
  "spot_market \<Rightarrow> account_balance \<Rightarrow> limit_order \<Rightarrow> market_precision \<Rightarrow>
   (nat option \<times> account_balance) option" where
  "lock_limit market ab order precision =
     (case lo_direction order of
        Buy \<Rightarrow> do {
          quote_lots \<leftarrow> base_to_quote_lots (lo_base_lots order) (lo_price_multiple order) precision;
          quote_amount \<leftarrow> mul64 quote_lots (mp_quote_lot_size precision);
          let asset = sm_quote_asset market;
          if atb_available_balance (token_of ab asset) < quote_amount
          then Some (None, snd (get_account_token_balance_mut ab asset))
          else do {
            ab' \<leftarrow> modify_token ab asset (sub_available quote_amount);
            Some (Some quote_amount, ab')
          }
        }
      | Sell \<Rightarrow> do {
          base_amount \<leftarrow> mul64 (lo_base_lots order) (mp_base_lot_size precision);
          let asset = sm_base_asset market;
          if atb_available_balance (token_of ab asset) < base_amount
          then Some (None, snd (get_account_token_balance_mut ab asset))
          else do {
            ab' \<leftarrow> modify_token ab asset (sub_available base_amount);
            Some (Some base_amount, ab')
          }
        })"

text \<open>The taker of a limit order: pay the outgoing asset, receive the incoming one.\<close>

definition settle_limit_user ::
  "account_balance \<Rightarrow> user_execution_result \<Rightarrow> nat \<Rightarrow> nat \<Rightarrow> nat \<Rightarrow> account_balance option" where
  "settle_limit_user ab u expected_balance_lock out_lot_size in_lot_size = do {
     amount_out \<leftarrow> mul128 out_lot_size (ue_lots_out u);
     ab1 \<leftarrow> modify_token ab (ue_asset_out u) (unlock_and_pay expected_balance_lock amount_out);
     amount_in \<leftarrow> mul128 in_lot_size (ue_lots_in u);
     modify_token ab1 (ue_asset_in u) (credit amount_in)
   }"

text \<open>
  A maker of a limit order: \<open>filled\<close> base lots at \<open>price\<close>. The maker pays the taker's
  incoming asset out of what it has locked (only its total shrinks) and is credited the
  taker's outgoing asset.
\<close>

definition settle_limit_maker ::
  "bool \<Rightarrow> user_execution_result \<Rightarrow> market_precision \<Rightarrow> nat \<Rightarrow> nat \<Rightarrow> account_balance \<Rightarrow>
   account_balance option" where
  "settle_limit_maker is_buy u precision filled price ab = do {
     quote_lots \<leftarrow> base_to_quote_lots filled price precision;
     let (out_lot_size, in_lot_size) =
       (if is_buy then (mp_quote_lot_size precision, mp_base_lot_size precision)
        else (mp_base_lot_size precision, mp_quote_lot_size precision));
     let (counterparty_in_lots, counterparty_out_lots) =
       (if is_buy then (quote_lots, filled) else (filled, quote_lots));
     amount_out \<leftarrow> mul128 counterparty_out_lots in_lot_size;
     ab1 \<leftarrow> modify_token ab (ue_asset_in u) (sub_total amount_out);
     amount_in \<leftarrow> mul128 counterparty_in_lots out_lot_size;
     modify_token ab1 (ue_asset_out u) (credit amount_in)
   }"

fun settle_limit_filled ::
  "bool \<Rightarrow> user_execution_result \<Rightarrow> market_precision \<Rightarrow> limit_order list \<Rightarrow> accounts \<Rightarrow> accounts option" where
  "settle_limit_filled is_buy u precision [] accts = Some accts"
| "settle_limit_filled is_buy u precision (order # orders) accts =
     (if lo_status order = Cancelled then settle_limit_filled is_buy u precision orders accts
      else do {
        filled \<leftarrow> checked_sub (lo_base_lots order) (lo_filled_base_lots order);
        accts' \<leftarrow> modify_account accts (lo_account order)
          (settle_limit_maker is_buy u precision filled (lo_price_multiple order));
        settle_limit_filled is_buy u precision orders accts'
      })"

definition settle_limit_residual ::
  "bool \<Rightarrow> user_execution_result \<Rightarrow> market_precision \<Rightarrow> residual_order option \<Rightarrow> accounts \<Rightarrow>
   accounts option" where
  "settle_limit_residual is_buy u precision residual accts =
     (case residual of
        None \<Rightarrow> Some accts
      | Some r \<Rightarrow> modify_account accts (ro_account_public_key r)
          (settle_limit_maker is_buy u precision (ro_filled_base_lots r) (ro_price_multiple r)))"

definition handle_limit_order ::
  "spot_clearing_house \<Rightarrow> limit_order \<Rightarrow> market_precision \<Rightarrow>
   (execution_results option \<times> spot_clearing_house) option" where
  "handle_limit_order ch order precision =
     (let market_id = co_market_id (lo_common order);
          (market_opt, ab, ch1) = get_market_and_account_balance ch market_id (lo_account order)
      in case market_opt of
           None \<Rightarrow> Some (None, ch1)
         | Some market \<Rightarrow> do {
             (lock_opt, ab1) \<leftarrow> lock_limit market ab order precision;
             (case lock_opt of
                None \<Rightarrow> Some (None, ch1\<lparr>ch_accounts := (ch_accounts ch1)(lo_account order \<mapsto> ab1)\<rparr>)
              | Some expected_balance_lock \<Rightarrow> do {
                  let base_asset = sm_base_asset market;
                  (results, market') \<leftarrow> add_limit_order market order base_asset
                     (sm_quote_asset market) precision;
                  let ch2 = ch1\<lparr>ch_markets := (ch_markets ch1)[market_id := market']\<rparr>;
                  (case results of
                     None \<Rightarrow>
                       Some (Some \<lparr>er_filled_orders = [], er_residual_order = None,
                                   er_user_order_change = None\<rparr>,
                             ch2\<lparr>ch_accounts := (ch_accounts ch1)(lo_account order \<mapsto> ab1)\<rparr>)
                   | Some res \<Rightarrow> do {
                       let u = lf_user_order res;
                       let is_buy = (lo_direction order = Buy);
                       let (out_lot_size, in_lot_size) =
                         (if is_buy then (mp_quote_lot_size precision, mp_base_lot_size precision)
                          else (mp_base_lot_size precision, mp_quote_lot_size precision));
                       ab2 \<leftarrow> settle_limit_user ab1 u expected_balance_lock out_lot_size in_lot_size;
                       accts1 \<leftarrow> settle_limit_filled is_buy u precision (lf_filled_orders res)
                         ((ch_accounts ch1)(lo_account order \<mapsto> ab2));
                       accts2 \<leftarrow> settle_limit_residual is_buy u precision (lf_residual_order res) accts1;
                       average0 \<leftarrow> checked_div (ue_lots_out u) (ue_lots_in u);
                       average \<leftarrow> (if ue_asset_in u = base_asset
                         then checked_div (ue_lots_in u) (ue_lots_out u) else Some average0);
                       Some (Some \<lparr>er_filled_orders = lf_filled_orders res,
                                   er_residual_order = lf_residual_order res,
                                   er_user_order_change = Some (LimitOrderChange (ue_order_id u)
                                     (ue_filled_size u) average)\<rparr>,
                             ch2\<lparr>ch_accounts := accts2\<rparr>)
                     })
                })
           })"

section \<open>Market orders\<close>

text \<open>
  Lock the funds of a market order. A sell order without the funds is refused; for a buy
  order the source only prints a message and goes on to the subtraction.
\<close>

definition lock_market ::
  "spot_market \<Rightarrow> account_balance \<Rightarrow> market_order \<Rightarrow> market_precision \<Rightarrow>
   (nat option \<times> account_balance) option" where
  "lock_market market ab order precision =
     (case order of
        MarketSell sell_order \<Rightarrow> do {
          base_needed \<leftarrow> mul128 (ms_base_size sell_order) (mp_base_lot_size precision);
          let asset = sm_base_asset market;
          if atb_available_balance (token_of ab asset) < base_needed
          then Some (None, snd (get_account_token_balance_mut ab asset))
          else do {
            ab' \<leftarrow> modify_token ab asset (sub_available base_needed);
            Some (Some base_needed, ab')
          }
        }
      | MarketBuy buy_order \<Rightarrow> do {
          quote_needed \<leftarrow> mul128 (mb_quote_size buy_order) (mp_quote_lot_size precision);
          ab' \<leftarrow> modify_token ab (sm_quote_asset market) (sub_available quote_needed);
          Some (Some quote_needed, ab')
        })"

text \<open>The taker of a market order: \<open>paid\<close> lots out of the lock, \<open>got\<close> lots in.\<close>

definition settle_market_user ::
  "account_balance \<Rightarrow> asset_id \<Rightarrow> nat \<Rightarrow> nat \<Rightarrow> nat \<Rightarrow> asset_id \<Rightarrow> nat \<Rightarrow> nat \<Rightarrow> account_balance option" where
  "settle_market_user ab asset_out lock_amount paid out_lot_size asset_in got in_lot_size = do {
     amount_out \<leftarrow> mul128 paid out_lot_size;
     ab1 \<leftarrow> modify_token ab asset_out (unlock_and_pay lock_amount amount_out);
     amount_in \<leftarrow> mul128 got in_lot_size;
     modify_token ab1 asset_in (credit amount_in)
   }"

text \<open>A buy order hit by a market sell: base in, quote out of what is locked.\<close>

definition settle_sell_maker ::
  "asset_id \<Rightarrow> asset_id \<Rightarrow> market_precision \<Rightarrow> nat \<Rightarrow> nat \<Rightarrow> account_balance \<Rightarrow> account_balance option" where
  "settle_sell_maker base_asset quote_asset precision filled price ab = do {
     base_amount_in \<leftarrow> mul128 filled (mp_base_lot_size precision);
     ab1 \<leftarrow> modify_token ab base_asset (credit base_amount_in);
     quote_lots_out \<leftarrow> base_to_quote_lots filled price precision;
     quote_amount_out \<leftarrow> mul128 quote_lots_out (mp_quote_lot_size precision);
     modify_token ab1 quote_asset (sub_total quote_amount_out)
   }"

text \<open>A sell order hit by a market buy: base out of what is locked, quote in.\<close>

definition settle_buy_maker ::
  "asset_id \<Rightarrow> asset_id \<Rightarrow> market_precision \<Rightarrow> nat \<Rightarrow> nat \<Rightarrow> account_balance \<Rightarrow> account_balance option" where
  "settle_buy_maker base_asset quote_asset precision filled price ab = do {
     base_amount \<leftarrow> mul128 filled (mp_base_lot_size precision);
     ab1 \<leftarrow> modify_token ab base_asset (sub_total base_amount);
     quote_lots \<leftarrow> base_to_quote_lots filled price precision;
     quote_amount \<leftarrow> mul128 quote_lots (mp_quote_lot_size precision);
     modify_token ab1 quote_asset (credit quote_amount)
   }"

text \<open>The loop over the filled orders, and the residual order, of either direction.\<close>

fun settle_market_filled ::
  "(nat \<Rightarrow> nat \<Rightarrow> account_balance \<Rightarrow> account_balance option) \<Rightarrow> limit_order list \<Rightarrow> accounts \<Rightarrow>
   accounts option" where
  "settle_market_filled maker [] accts = Some accts"
| "settle_market_filled maker (order # orders) accts =
     (if lo_status order = Cancelled then settle_market_filled maker orders accts
      else do {
        filled \<leftarrow> checked_sub (lo_base_lots order) (lo_filled_base_lots order);
        accts' \<leftarrow> modify_account accts (lo_account order) (maker filled (lo_price_multiple order));
        settle_market_filled maker orders accts'
      })"

definition settle_market_residual ::
  "(nat \<Rightarrow> nat \<Rightarrow> account_balance \<Rightarrow> account_balance option) \<Rightarrow> residual_order option \<Rightarrow> accounts \<Rightarrow>
   accounts option" where
  "settle_market_residual maker residual accts =
     (case residual of
        None \<Rightarrow> Some accts
      | Some r \<Rightarrow> modify_account accts (ro_account_public_key r)
          (maker (ro_filled_base_lots r) (ro_price_multiple r)))"

definition settle_market_sell ::
  "spot_market \<Rightarrow> account_balance \<Rightarrow> nat \<Rightarrow> sell_results \<Rightarrow> market_precision \<Rightarrow> public_key_hash \<Rightarrow>
   accounts \<Rightarrow> (execution_results \<times> accounts) option" where
  "settle_market_sell market ab lock_amount r precision pk accts = do {
     let base_asset = sm_base_asset market;
     let quote_asset = sm_quote_asset market;
     ab1 \<leftarrow> settle_market_user ab base_asset lock_amount (sr_base_filled_lots r)
       (mp_base_lot_size precision) quote_asset (sr_quote_lots_in r) (mp_quote_lot_size precision);
     let average = (if 0 < sr_base_filled_lots r
                    then sr_quote_lots_in r div sr_base_filled_lots r else 0);
     let maker = settle_sell_maker base_asset quote_asset precision;
     accts1 \<leftarrow> settle_market_filled maker (sr_filled_orders r) (accts(pk \<mapsto> ab1));
     accts2 \<leftarrow> settle_market_residual maker (sr_residual_order r) accts1;
     Some (\<lparr>er_filled_orders = sr_filled_orders r, er_residual_order = sr_residual_order r,
            er_user_order_change = Some (MarketOrderChange (sr_order_id r)
              (sr_base_filled_lots r) (sr_self_fill r) average)\<rparr>, accts2)
   }"

definition settle_market_buy ::
  "spot_market \<Rightarrow> account_balance \<Rightarrow> nat \<Rightarrow> buy_results \<Rightarrow> market_precision \<Rightarrow> public_key_hash \<Rightarrow>
   accounts \<Rightarrow> (execution_results \<times> accounts) option" where
  "settle_market_buy market ab lock_amount r precision pk accts = do {
     let base_asset = sm_base_asset market;
     let quote_asset = sm_quote_asset market;
     ab1 \<leftarrow> settle_market_user ab quote_asset lock_amount (br_quote_filled_lots r)
       (mp_quote_lot_size precision) base_asset (br_base_lots_in r) (mp_base_lot_size precision);
     let average = (if 0 < br_base_lots_in r
                    then br_quote_filled_lots r div br_base_lots_in r else 0);
     let maker = settle_buy_maker base_asset quote_asset precision;
     accts1 \<leftarrow> settle_market_filled maker (br_filled_orders r) (accts(pk \<mapsto> ab1));
     accts2 \<leftarrow> settle_market_residual maker (br_residual_order r) accts1;
     Some (\<lparr>er_filled_orders = br_filled_orders r, er_residual_order = br_residual_order r,
            er_user_order_change = Some (MarketOrderChange (br_order_id r)
              (br_quote_filled_lots r) (br_self_fill r) average)\<rparr>, accts2)
   }"

definition handle_market ::
  "spot_clearing_house \<Rightarrow> market_order \<Rightarrow> market_precision \<Rightarrow>
   (execution_results option \<times> spot_clearing_house) option" where
  "handle_market ch order precision =
     (let market_id = co_market_id (market_common order);
          pk = market_get_account order;
          (market_opt, ab, ch1) = get_market_and_account_balance ch market_id pk
      in case market_opt of
           None \<Rightarrow> Some (None, ch1)
         | Some market \<Rightarrow> do {
             (lock_opt, ab1) \<leftarrow> lock_market market ab order precision;
             (case lock_opt of
                None \<Rightarrow> Some (None, ch1\<lparr>ch_accounts := (ch_accounts ch1)(pk \<mapsto> ab1)\<rparr>)
              | Some lock_amount \<Rightarrow> do {
                  (results, market') \<leftarrow> handle_market_order market order precision;
                  let ch2 = ch1\<lparr>ch_markets := (ch_markets ch1)[market_id := market']\<rparr>;
                  (er, accts) \<leftarrow> (case results of
                     SellResults r \<Rightarrow>
                       settle_market_sell market ab1 lock_amount r precision pk (ch_accounts ch1)
                   | BuyResults r \<Rightarrow>
                       settle_market_buy market ab1 lock_amount r precision pk (ch_accounts ch1));
                  Some (Some er, ch2\<lparr>ch_accounts := accts\<rparr>)
                })
           })"

definition handle_order ::
  "spot_clearing_house \<Rightarrow> order \<Rightarrow> market_precision \<Rightarrow>
   (execution_results option \<times> spot_clearing_house) option" where
  "handle_order ch order precision =
     (case order of
        Limit limit_order \<Rightarrow> handle_limit_order ch limit_order precision
      | Market market_order \<Rightarrow> handle_market ch market_order precision)"

end
