(* ===== verification/Settlement.thy ===== *)
theory Settlement
  imports Clearinghouse
begin

text \<open>
  Conservation of assets by the clearinghouse. \<open>total_supply\<close> is the sum of the total balances of
  an asset over all accounts. The lemmas follow the money through one order: the lock moves
  nothing out of the account, the taker's two legs and the makers' legs cancel, because the
  matching engine reports the sum of exactly the amounts the settlement loops recompute from
  the filled orders and the residual order.
\<close>

section \<open>Totals of an account and of all accounts\<close>

definition ab_total :: "account_balance \<Rightarrow> asset_id \<Rightarrow> nat" where
  "ab_total ab a = sum_list (map atb_total_balance (filter (\<lambda>t. atb_asset_id t = a) (ab_asset_balances ab)))"

definition total_supply :: "accounts \<Rightarrow> asset_id \<Rightarrow> nat" where
  "total_supply accts a = (\<Sum>pk\<in>dom accts. ab_total (the (accts pk)) a)"

text \<open>\<open>amount x a n\<close> is what \<open>n\<close> units of asset \<open>x\<close> contribute to the total of \<open>a\<close>.\<close>

definition amount :: "asset_id \<Rightarrow> asset_id \<Rightarrow> nat \<Rightarrow> nat" where
  "amount x a n = (if a = x then n else 0)"

lemma amount_0 [simp]: "amount x a 0 = 0"
  by (simp add: amount_def)

lemma amount_add: "amount x a (m + n) = amount x a m + amount x a n"
  by (simp add: amount_def)

lemma ab_total_new [simp]: "ab_total account_balance_new a = 0"
  by (simp add: ab_total_def account_balance_new_def)

lemma get_account_token_balance_mut_total:
  assumes "get_account_token_balance_mut ab x = (i, ab')"
  shows "i < length (ab_asset_balances ab')" "atb_asset_id (ab_asset_balances ab' ! i) = x"
    "ab_total ab' a = ab_total ab a"
  using assms position_Some [of "\<lambda>t. atb_asset_id t = x" "ab_asset_balances ab"]
  by (auto simp: get_account_token_balance_mut_def ab_total_def split: option.splits)

lemma ab_total_update:
  assumes i: "i < length (ab_asset_balances ab)"
    and t: "atb_asset_id t = atb_asset_id (ab_asset_balances ab ! i)"
      "atb_total_balance t + out = atb_total_balance (ab_asset_balances ab ! i) + inn"
  shows "ab_total (ab\<lparr>ab_asset_balances := (ab_asset_balances ab)[i := t]\<rparr>) a + amount (atb_asset_id t) a out =
    ab_total ab a + amount (atb_asset_id t) a inn"
proof -
  let ?xs = "ab_asset_balances ab" and ?P = "\<lambda>t. atb_asset_id t = a"
  have "map atb_total_balance (filter ?P ?xs) =
      map atb_total_balance (filter ?P (take i ?xs @ ?xs ! i # drop (Suc i) ?xs))"
    using i by (simp add: id_take_nth_drop [symmetric])
  then show ?thesis
    using t i by (auto simp: ab_total_def amount_def upd_conv_take_nth_drop)
qed

text \<open>
  A change of one token balance moves the account's total by what it moves the token's.
\<close>

definition shifts :: "(account_token_balance \<Rightarrow> account_token_balance option) \<Rightarrow> nat \<Rightarrow> nat \<Rightarrow> bool" where
  "shifts f out inn \<longleftrightarrow> (\<forall>t t'. f t = Some t' \<longrightarrow> atb_asset_id t' = atb_asset_id t \<and>
     atb_total_balance t' + out = atb_total_balance t + inn)"

lemma shifts_simps [simp]:
  "shifts (add_available n) 0 0" "shifts (sub_available n) 0 0"
  "shifts (sub_total n) n 0" "shifts (credit n) 0 n" "shifts (unlock_and_pay l n) n 0"
  by (auto simp: shifts_def add_available_def sub_available_def sub_total_def add_total_def
      credit_def unlock_and_pay_def checked)

lemma modify_token_total:
  assumes "modify_token ab x f = Some ab'" "shifts f out inn"
  shows "ab_total ab' a + amount x a out = ab_total ab a + amount x a inn"
proof -
  obtain i ab1 where 1: "get_account_token_balance_mut ab x = (i, ab1)" by fastforce
  note facts = get_account_token_balance_mut_total [OF 1]
  obtain t where t: "f (ab_asset_balances ab1 ! i) = Some t"
    and ab': "ab' = ab1\<lparr>ab_asset_balances := (ab_asset_balances ab1)[i := t]\<rparr>"
    using assms(1) 1 by (auto simp: modify_token_def checked)
  have "atb_asset_id t = atb_asset_id (ab_asset_balances ab1 ! i)"
    "atb_total_balance t + out = atb_total_balance (ab_asset_balances ab1 ! i) + inn"
    using assms(2) t by (auto simp: shifts_def)
  from ab_total_update [OF facts(1) this] show ?thesis
    using facts(2) facts(3) [of a] ab' \<open>atb_asset_id t = _\<close> by simp
qed

lemmas modify_token_keeps = modify_token_total [where out = 0 and inn = 0, simplified]

text \<open>The same for the map of accounts.\<close>

lemma supply_insert:
  assumes "finite (dom accts)" "accts pk = None"
  shows "total_supply (accts(pk \<mapsto> ab)) a = total_supply accts a + ab_total ab a"
proof -
  have "(\<Sum>k\<in>dom accts. ab_total (the ((accts(pk \<mapsto> ab)) k)) a) = total_supply accts a"
    using assms(2) unfolding total_supply_def by (intro sum.cong) (auto simp: domIff)
  with assms show ?thesis unfolding total_supply_def by (auto simp: domIff)
qed

lemma supply_update:
  assumes "finite (dom accts)" "accts pk = Some ab"
  shows "total_supply (accts(pk \<mapsto> ab')) a + ab_total ab a = total_supply accts a + ab_total ab' a"
proof -
  let ?r = "accts(pk := None)"
  have fin: "finite (dom ?r)" using assms(1) by simp
  have "accts = ?r(pk \<mapsto> ab)" using assms(2) by auto
  then have "total_supply accts a = total_supply ?r a + ab_total ab a"
    using supply_insert [OF fin, of pk ab a] by (metis fun_upd_same)
  moreover have "total_supply (accts(pk \<mapsto> ab')) a = total_supply ?r a + ab_total ab' a"
    using supply_insert [OF fin, of pk ab' a] by simp
  ultimately show ?thesis by simp
qed

lemma supply_put:
  assumes "finite (dom accts)" "get_account_balance_mut accts pk = (ab, accts1)"
  shows "finite (dom accts1)" "total_supply accts1 a = total_supply accts a"
    "total_supply (accts1(pk \<mapsto> ab')) a + ab_total ab a = total_supply accts a + ab_total ab' a"
  using assms supply_update [of accts pk ab ab' a] supply_insert [of accts pk _ a]
  by (auto simp: get_account_balance_mut_def split: option.splits)

lemma modify_account_supply:
  assumes "finite (dom accts)" "modify_account accts pk f = Some accts'"
    and f: "\<And>ab ab'. f ab = Some ab' \<Longrightarrow> ab_total ab' a + out = ab_total ab a + inn"
  shows "finite (dom accts') \<and> total_supply accts' a + out = total_supply accts a + inn"
proof -
  obtain ab accts1 where 1: "get_account_balance_mut accts pk = (ab, accts1)" by fastforce
  then obtain ab' where ab': "f ab = Some ab'" "accts' = accts1(pk \<mapsto> ab')"
    using assms(2) by (auto simp: modify_account_def checked)
  show ?thesis using supply_put(1) [OF assms(1) 1] supply_put(3) [OF assms(1) 1, where ab' = ab' and a = a] f [OF ab'(1)] ab'(2) by auto
qed

section \<open>What the settlement loops recompute\<close>

text \<open>The base lots and the quote lots of one maker, of the filled orders and of the residual order.\<close>

definition order_base :: "limit_order \<Rightarrow> nat" where
  "order_base lo = (if live lo then lo_base_lots lo - lo_filled_base_lots lo else 0)"

definition order_quote :: "market_precision \<Rightarrow> limit_order \<Rightarrow> nat" where
  "order_quote prec lo = (if live lo then quote_lots prec (order_base lo) (lo_price_multiple lo) else 0)"

definition residual_base :: "residual_order option \<Rightarrow> nat" where
  "residual_base r = (case r of None \<Rightarrow> 0 | Some r \<Rightarrow> ro_filled_base_lots r)"

definition residual_quote :: "market_precision \<Rightarrow> residual_order option \<Rightarrow> nat" where
  "residual_quote prec r =
     (case r of None \<Rightarrow> 0 | Some r \<Rightarrow> quote_lots prec (ro_filled_base_lots r) (ro_price_multiple r))"

definition settled_base :: "limit_order list \<Rightarrow> residual_order option \<Rightarrow> nat" where
  "settled_base los r = sum_list (map order_base los) + residual_base r"

definition settled_quote :: "market_precision \<Rightarrow> limit_order list \<Rightarrow> residual_order option \<Rightarrow> nat" where
  "settled_quote prec los r = sum_list (map (order_quote prec) los) + residual_quote prec r"

lemma settled_simps [simp]:
  "settled_base [] None = 0" "settled_quote prec [] None = 0"
  "settled_base (lo # los) r = order_base lo + settled_base los r"
  "settled_quote prec (lo # los) r = order_quote prec lo + settled_quote prec los r"
  "settled_base (los @ los') r = settled_base los None + settled_base los' r"
  "settled_quote prec (los @ los') r = settled_quote prec los None + settled_quote prec los' r"
  by (simp_all add: settled_base_def settled_quote_def residual_base_def residual_quote_def)

section \<open>The makers' legs\<close>

text \<open>
  A list of makers is settled one by one; each pays \<open>ob\<close> of asset \<open>x\<close> and receives \<open>ib\<close> of
  asset \<open>y\<close>, functions of the base lots and the price.
\<close>

definition pays :: "(nat \<Rightarrow> nat \<Rightarrow> account_balance \<Rightarrow> account_balance option) \<Rightarrow> asset_id \<Rightarrow> (nat \<Rightarrow> nat \<Rightarrow> nat) \<Rightarrow>
    asset_id \<Rightarrow> (nat \<Rightarrow> nat \<Rightarrow> nat) \<Rightarrow> bool" where
  "pays maker x ob y ib \<longleftrightarrow> (\<forall>b p ab ab' a. maker b p ab = Some ab' \<longrightarrow>
     ab_total ab' a + amount x a (ob b p) = ab_total ab a + amount y a (ib b p))"

lemma settle_limit_filled_market:
  "settle_limit_filled is_buy u prec los = settle_market_filled (settle_limit_maker is_buy u prec) los"
proof (induction los)
  case (Cons lo los)
  show ?case by (rule ext) (simp add: Cons.IH)
qed (simp add: fun_eq_iff)

lemma settle_limit_residual_market:
  "settle_limit_residual is_buy u prec r accts = settle_market_residual (settle_limit_maker is_buy u prec) r accts"
  by (simp add: settle_limit_residual_def settle_market_residual_def)

lemma settle_market_filled_supply:
  assumes pays: "pays maker x ob y ib"
  shows "\<lbrakk>finite (dom accts); settle_market_filled maker los accts = Some accts'\<rbrakk> \<Longrightarrow>
    finite (dom accts') \<and>
    total_supply accts' a + amount x a (\<Sum>lo\<leftarrow>filter live los. ob (order_base lo) (lo_price_multiple lo)) =
    total_supply accts a + amount y a (\<Sum>lo\<leftarrow>filter live los. ib (order_base lo) (lo_price_multiple lo))"
proof (induction los arbitrary: accts)
  case (Cons lo los)
  show ?case
  proof (cases "live lo")
    case False
    with Cons show ?thesis by (simp add: live_def)
  next
    case True
    with Cons.prems obtain accts1 where
      1: "modify_account accts (lo_account lo) (maker (order_base lo) (lo_price_multiple lo)) = Some accts1"
      and 2: "settle_market_filled maker los accts1 = Some accts'"
      by (auto simp: live_def checked order_base_def)
    have "finite (dom accts1) \<and>
        total_supply accts1 a + amount x a (ob (order_base lo) (lo_price_multiple lo)) =
        total_supply accts a + amount y a (ib (order_base lo) (lo_price_multiple lo))"
      using pays by (intro modify_account_supply [OF Cons.prems(1) 1]) (auto simp: pays_def)
    with Cons.IH [OF _ 2] True show ?thesis by (simp add: amount_add)
  qed
qed simp

lemma settle_market_residual_supply:
  assumes "pays maker x ob y ib" "finite (dom accts)" "settle_market_residual maker r accts = Some accts'"
  shows "finite (dom accts') \<and>
    total_supply accts' a +
      amount x a (case r of None \<Rightarrow> 0 | Some r \<Rightarrow> ob (ro_filled_base_lots r) (ro_price_multiple r)) =
    total_supply accts a +
      amount y a (case r of None \<Rightarrow> 0 | Some r \<Rightarrow> ib (ro_filled_base_lots r) (ro_price_multiple r))"
proof (cases r)
  case (Some r')
  then have A: "modify_account accts (ro_account_public_key r')
      (maker (ro_filled_base_lots r') (ro_price_multiple r')) = Some accts'"
    using assms(3) by (simp add: settle_market_residual_def)
  have B: "\<And>ab ab'. maker (ro_filled_base_lots r') (ro_price_multiple r') ab = Some ab' \<Longrightarrow>
      ab_total ab' a + amount x a (ob (ro_filled_base_lots r') (ro_price_multiple r')) =
      ab_total ab a + amount y a (ib (ro_filled_base_lots r') (ro_price_multiple r'))"
    using assms(1) by (simp add: pays_def)
  show ?thesis using modify_account_supply [OF assms(2) A B] Some by simp
qed (use assms in \<open>auto simp: settle_market_residual_def\<close>)

text \<open>Base lots paid or received at lot size \<open>k\<close>, and quote lots.\<close>

lemma sum_order_base:
  "(\<Sum>lo\<leftarrow>filter live los. order_base lo * k) = sum_list (map order_base los) * k"
  by (induction los) (auto simp: order_base_def distrib_right)

lemma sum_order_quote:
  "(\<Sum>lo\<leftarrow>filter live los. quote_lots prec (order_base lo) (lo_price_multiple lo) * k) =
   sum_list (map (order_quote prec) los) * k"
  by (induction los) (auto simp: order_quote_def distrib_right)

lemma settle_base_for_quote:
  assumes "pays maker x (\<lambda>b p. b * k) y (\<lambda>b p. quote_lots prec b p * l)"
    and "finite (dom accts)" "settle_market_filled maker los accts = Some accts1"
    and "settle_market_residual maker r accts1 = Some accts2"
  shows "finite (dom accts2)"
    "total_supply accts2 a + amount x a (settled_base los r * k) =
     total_supply accts a + amount y a (settled_quote prec los r * l)"
  using settle_market_filled_supply [OF assms(1-3), of a]
    settle_market_residual_supply [OF assms(1) _ assms(4), of a]
  by (auto simp: sum_order_base sum_order_quote settled_base_def settled_quote_def residual_base_def
      residual_quote_def amount_add distrib_right split: option.splits)

lemma settle_quote_for_base:
  assumes "pays maker x (\<lambda>b p. quote_lots prec b p * l) y (\<lambda>b p. b * k)"
    and "finite (dom accts)" "settle_market_filled maker los accts = Some accts1"
    and "settle_market_residual maker r accts1 = Some accts2"
  shows "finite (dom accts2)"
    "total_supply accts2 a + amount x a (settled_quote prec los r * l) =
     total_supply accts a + amount y a (settled_base los r * k)"
  using settle_market_filled_supply [OF assms(1-3), of a]
    settle_market_residual_supply [OF assms(1) _ assms(4), of a]
  by (auto simp: sum_order_base sum_order_quote settled_base_def settled_quote_def residual_base_def
      residual_quote_def amount_add distrib_right split: option.splits)

text \<open>Each kind of maker.\<close>

lemma settle_sell_maker_pays:
  "pays (settle_sell_maker base_asset quote_asset prec)
     quote_asset (\<lambda>b p. quote_lots prec b p * mp_quote_lot_size prec)
     base_asset (\<lambda>b p. b * mp_base_lot_size prec)"
  unfolding pays_def
proof (intro allI impI)
  fix b p ab ab' a
  assume "settle_sell_maker base_asset quote_asset prec b p ab = Some ab'"
  then obtain ab1 where "modify_token ab base_asset (credit (b * mp_base_lot_size prec)) = Some ab1"
    "modify_token ab1 quote_asset (sub_total (quote_lots prec b p * mp_quote_lot_size prec)) = Some ab'"
    by (auto simp: settle_sell_maker_def checked quote_lots_def)
  then show "ab_total ab' a + amount quote_asset a (quote_lots prec b p * mp_quote_lot_size prec) =
      ab_total ab a + amount base_asset a (b * mp_base_lot_size prec)"
    using modify_token_total [where a = a] shifts_simps(3,4) by (metis add.right_neutral amount_0)
qed

lemma settle_buy_maker_pays:
  "pays (settle_buy_maker base_asset quote_asset prec)
     base_asset (\<lambda>b p. b * mp_base_lot_size prec)
     quote_asset (\<lambda>b p. quote_lots prec b p * mp_quote_lot_size prec)"
  unfolding pays_def
proof (intro allI impI)
  fix b p ab ab' a
  assume "settle_buy_maker base_asset quote_asset prec b p ab = Some ab'"
  then obtain ab1 where "modify_token ab base_asset (sub_total (b * mp_base_lot_size prec)) = Some ab1"
    "modify_token ab1 quote_asset (credit (quote_lots prec b p * mp_quote_lot_size prec)) = Some ab'"
    by (auto simp: settle_buy_maker_def checked quote_lots_def)
  from modify_token_total [OF this(1) shifts_simps(3), of a] modify_token_total [OF this(2) shifts_simps(4), of a]
  show "ab_total ab' a + amount base_asset a (b * mp_base_lot_size prec) =
      ab_total ab a + amount quote_asset a (quote_lots prec b p * mp_quote_lot_size prec)" by simp
qed

text \<open>The makers of a limit order are settled like those of a market order of its direction.\<close>

lemma settle_limit_maker_pays:
  "pays (settle_limit_maker True u prec)
     (ue_asset_in u) (\<lambda>b p. b * mp_base_lot_size prec)
     (ue_asset_out u) (\<lambda>b p. quote_lots prec b p * mp_quote_lot_size prec)"
  "pays (settle_limit_maker False u prec)
     (ue_asset_in u) (\<lambda>b p. quote_lots prec b p * mp_quote_lot_size prec)
     (ue_asset_out u) (\<lambda>b p. b * mp_base_lot_size prec)"
proof -
  have limit: "ab_total ab' a + amount (ue_asset_in u) a m = ab_total ab a + amount (ue_asset_out u) a n"
    if "modify_token ab (ue_asset_in u) (sub_total m) = Some ab1"
      "modify_token ab1 (ue_asset_out u) (credit n) = Some ab'" for ab ab1 ab' m n a
    using modify_token_total [OF that(1) shifts_simps(3), of a]
      modify_token_total [OF that(2) shifts_simps(4), of a] by simp
  show "pays (settle_limit_maker True u prec)
     (ue_asset_in u) (\<lambda>b p. b * mp_base_lot_size prec)
     (ue_asset_out u) (\<lambda>b p. quote_lots prec b p * mp_quote_lot_size prec)"
    using limit by (auto simp: pays_def settle_limit_maker_def checked quote_lots_def)
  show "pays (settle_limit_maker False u prec)
     (ue_asset_in u) (\<lambda>b p. quote_lots prec b p * mp_quote_lot_size prec)
     (ue_asset_out u) (\<lambda>b p. b * mp_base_lot_size prec)"
    using limit by (auto simp: pays_def settle_limit_maker_def checked quote_lots_def)
qed

section \<open>The taker's legs\<close>

lemma settle_limit_user_total:
  assumes "settle_limit_user ab u l k_out k_in = Some ab'"
  shows "ab_total ab' a + amount (ue_asset_out u) a (k_out * ue_lots_out u) =
    ab_total ab a + amount (ue_asset_in u) a (k_in * ue_lots_in u)"
proof -
  from assms obtain ab1 where
    "modify_token ab (ue_asset_out u) (unlock_and_pay l (k_out * ue_lots_out u)) = Some ab1"
    "modify_token ab1 (ue_asset_in u) (credit (k_in * ue_lots_in u)) = Some ab'"
    by (auto simp: settle_limit_user_def checked)
  from modify_token_total [OF this(1) shifts_simps(5), of a] modify_token_total [OF this(2) shifts_simps(4), of a]
  show ?thesis by simp
qed

lemma settle_market_user_total:
  assumes "settle_market_user ab x l paid k_out y got k_in = Some ab'"
  shows "ab_total ab' a + amount x a (paid * k_out) = ab_total ab a + amount y a (got * k_in)"
proof -
  from assms obtain ab1 where
    "modify_token ab x (unlock_and_pay l (paid * k_out)) = Some ab1"
    "modify_token ab1 y (credit (got * k_in)) = Some ab'"
    by (auto simp: settle_market_user_def checked)
  from modify_token_total [OF this(1) shifts_simps(5), of a] modify_token_total [OF this(2) shifts_simps(4), of a]
  show ?thesis by simp
qed

lemma lock_limit_total:
  assumes "lock_limit market ab order prec = Some (l, ab')"
  shows "ab_total ab' a = ab_total ab a"
proof -
  have "ab_total (snd (get_account_token_balance_mut ab x)) a = ab_total ab a" for x
    using get_account_token_balance_mut_total(3) [of ab x _ _ a] by (metis prod.collapse)
  with assms show ?thesis
    by (auto simp: lock_limit_def checked Let_def split: order_direction.splits if_splits
        intro: modify_token_keeps)
qed

lemma lock_market_total:
  assumes "lock_market market ab order prec = Some (l, ab')"
  shows "ab_total ab' a = ab_total ab a"
proof -
  have "ab_total (snd (get_account_token_balance_mut ab x)) a = ab_total ab a" for x
    using get_account_token_balance_mut_total(3) [of ab x _ _ a] by (metis prod.collapse)
  with assms show ?thesis
    by (auto simp: lock_market_def checked Let_def split: market_order.splits if_splits
        intro: modify_token_keeps)
qed

section \<open>What the matching loops report\<close>

text \<open>
  The sizes of the two legs that a loop reports are the sums the settlement recomputes, when
  no order of the book has been reduced by a trade of its owner with itself and each order
  stands at the price of its level.
\<close>

definition plain :: "nat \<Rightarrow> limit_order \<Rightarrow> bool" where
  "plain p lo \<longleftrightarrow> lo_price_multiple lo = p \<and> lo_self_filled lo = 0"

definition plain_levels :: "level list \<Rightarrow> bool" where
  "plain_levels levels \<longleftrightarrow> (\<forall>lv\<in>set levels. \<forall>lo\<in>set (lv_orders lv). plain (lv_price lv) lo)"

lemma plain_levels_snoc [simp]:
  "plain_levels (levels @ [lv]) \<longleftrightarrow> plain_levels levels \<and> (\<forall>lo\<in>set (lv_orders lv). plain (lv_price lv) lo)"
  by (auto simp: plain_levels_def)

lemma residual_of_simps [simp]:
  "residual_base None = 0" "residual_quote prec None = 0"
  "residual_base (Some (residual_of lo p q s)) = q"
  "residual_quote prec (Some (residual_of lo p q s)) = quote_lots prec q p"
  by (simp_all add: residual_base_def residual_quote_def residual_of_def)

lemma settled_residual [simp]:
  "settled_base [] r = residual_base r" "settled_quote prec [] r = residual_quote prec r"
  by (simp_all add: settled_base_def settled_quote_def)

lemma plain_remaining:
  "\<lbrakk>plain p lo; get_order_remaining lo = Some r\<rbrakk> \<Longrightarrow> lo_base_lots lo - lo_filled_base_lots lo = r"
  by (auto simp: plain_def get_order_remaining_Some)

lemma limit_level_loop_settled:
  assumes "limit_level_loop is_buy prec p los st = Some (los', st')"
    and "\<forall>lo\<in>set los. plain p lo" "le_residual st = None"
  shows "\<exists>d\<le>length los'. le_drain st' = le_drain st + d \<and> (\<forall>lo\<in>set los'. plain p lo) \<and>
    le_base is_buy st' = le_base is_buy st + settled_base (take d los') (le_residual st') \<and>
    le_quote is_buy st' = le_quote is_buy st + settled_quote prec (take d los') (le_residual st') \<and>
    (le_residual st' \<noteq> None \<longrightarrow> le_remaining st' = 0)"
  using assms
proof (induction los arbitrary: st los')
  case (Cons lo los)
  show ?case
  proof (cases "live lo")
    case False
    with Cons.prems(1) obtain los1 c where
      1: "limit_level_loop is_buy prec p los (st\<lparr>le_cancelled := c, le_drain := le_drain st + 1\<rparr>) = Some (los1, st')"
      and los': "los' = lo # los1"
      by (auto simp: live_def checked)
    from Cons.IH [OF 1] Cons.prems obtain d where d: "d \<le> length los1"
        "le_drain st' = le_drain st + 1 + d" "\<forall>lo\<in>set los1. plain p lo"
        "le_base is_buy st' = le_base is_buy st + settled_base (take d los1) (le_residual st')"
        "le_quote is_buy st' = le_quote is_buy st + settled_quote prec (take d los1) (le_residual st')"
        "le_residual st' \<noteq> None \<longrightarrow> le_remaining st' = 0"
      by auto
    then show ?thesis using False los' Cons.prems(2)
      by (intro exI [of _ "Suc d"]) (auto simp: order_base_def order_quote_def)
  next
    case True
    then have ns: "lo_status lo \<noteq> Cancelled" by (simp add: live_def)
    from Cons.prems(1) ns obtain r q where r: "get_order_remaining lo = Some r"
      and q: "base_to_quote_lots (min (le_remaining st) r) p prec = Some q"
      by (auto simp: bind_eq_Some_conv Let_def)
    have ob: "order_base lo = r" using plain_remaining [OF _ r, of p] Cons.prems(2) True
      by (simp add: order_base_def)
    have oq: "order_quote prec lo = quote_lots prec r p"
      using ob True Cons.prems(2) by (simp add: order_quote_def plain_def)
    let ?m = "min (le_remaining st) r"
    let ?st = "st\<lparr>le_remaining := le_remaining st - ?m, le_last_price := Some p,
      le_lots_in := le_lots_in st + (if is_buy then ?m else q),
      le_lots_out := le_lots_out st + (if is_buy then q else ?m),
      le_drain := (if ?m = r then le_drain st + 1 else le_drain st)\<rparr>"
    have qm: "quote_lots prec ?m p = q" using q by (simp add: quote_lots_def)
    show ?thesis
    proof (cases "le_remaining st - ?m = 0")
      case stop: True
      show ?thesis
      proof (cases "?m < r")
        case part: True
        with Cons.prems(1,3) ns r q stop have "los' = lo\<lparr>lo_filled_base_lots := lo_filled_base_lots lo + ?m\<rparr> # los"
          "st' = ?st\<lparr>le_residual := Some (residual_of lo p ?m 0)\<rparr>"
          by (auto simp: checked Let_def split: if_splits)
        then show ?thesis using Cons.prems(2) qm part stop
          by (intro exI [of _ 0]) (auto simp: plain_def)
      next
        case full: False
        with Cons.prems(1) ns r q stop have "los' = lo # los" "st' = ?st"
          by (auto simp: checked Let_def split: if_splits)
        then show ?thesis using Cons.prems(2,3) qm full ob oq
          by (intro exI [of _ 1]) (auto simp: min_def split: if_splits)
      qed
    next
      case go: False
      with Cons.prems(1) ns r q obtain los1 where
        1: "limit_level_loop is_buy prec p los ?st = Some (los1, st')" and los': "los' = lo # los1"
        by (auto simp: checked Let_def split: if_splits)
      from go have m: "?m = r" by auto
      from Cons.IH [OF 1] Cons.prems obtain d where "d \<le> length los1"
        "le_drain st' = le_drain ?st + d" "\<forall>lo\<in>set los1. plain p lo"
        "le_base is_buy st' = le_base is_buy ?st + settled_base (take d los1) (le_residual st')"
        "le_quote is_buy st' = le_quote is_buy ?st + settled_quote prec (take d los1) (le_residual st')"
        "le_residual st' \<noteq> None \<longrightarrow> le_remaining st' = 0"
        by auto
      then show ?thesis using los' Cons.prems(2) m ob oq qm
        by (intro exI [of _ "Suc d"]) auto
    qed
  qed
qed auto

lemma limit_loop_settled:
  assumes "limit_loop cmp price is_buy prec levels F st = Some (levels', F', st')"
    and "plain_levels levels" "le_residual st = None"
  shows "le_base is_buy st' + settled_base F None = le_base is_buy st + settled_base F' (le_residual st') \<and>
    le_quote is_buy st' + settled_quote prec F None = le_quote is_buy st + settled_quote prec F' (le_residual st') \<and>
    plain_levels levels'"
  using assms
proof (induction levels arbitrary: F st rule: rev_induct)
  case Nil
  then show ?case by (simp add: limit_loop.simps)
next
  case (snoc lv levels)
  note simps = limit_loop.simps [of cmp price is_buy prec "levels @ [lv]" F st] Let_def
  show ?case
  proof (cases "0 < le_remaining st \<and> cmp price (lv_price lv) \<noteq> Greater")
    case False
    with snoc.prems show ?thesis by (auto simp: simps split: if_splits)
  next
    case True
    with snoc.prems(1) obtain los st1 where
      lv: "limit_level_loop is_buy prec (lv_price lv) (lv_orders lv) (st\<lparr>le_drain := 0, le_cancelled := 0\<rparr>) = Some (los, st1)"
      by (auto simp: simps checked split: if_splits)
    from limit_level_loop_settled [OF lv] snoc.prems(2,3) obtain d where
      d: "d \<le> length los" "le_drain st1 = d" "\<forall>lo\<in>set los. plain (lv_price lv) lo"
        "le_base is_buy st1 = le_base is_buy st + settled_base (take d los) (le_residual st1)"
        "le_quote is_buy st1 = le_quote is_buy st + settled_quote prec (take d los) (le_residual st1)"
        "le_residual st1 \<noteq> None \<longrightarrow> le_remaining st1 = 0"
      by auto
    have dr: "\<forall>lo\<in>set (drop d los). plain (lv_price lv) lo" using d(3) by (meson in_set_dropD)
    show ?thesis
    proof (cases "d < length los")
      case True
      with \<open>0 < le_remaining st \<and> _\<close> snoc.prems lv d dr show ?thesis
        by (auto simp: simps checked split: if_splits)
    next
      case False
      with \<open>0 < le_remaining st \<and> _\<close> snoc.prems lv d
      have rec: "limit_loop cmp price is_buy prec levels (F @ los) st1 = Some (levels', F', st')"
        by (auto simp: simps split: if_splits)
      show ?thesis
      proof (cases "le_residual st1")
        case None
        with snoc.IH [OF rec] snoc.prems(2) d False show ?thesis by auto
      next
        case (Some r)
        with d(6) have "le_remaining st1 = 0" by simp
        with rec snoc.prems d False show ?thesis by (auto simp: limit_loop.simps)
      qed
    qed
  qed
qed

text \<open>The same for the walk of a level without orders of the taker.\<close>

lemma walk_settled:
  assumes "\<forall>lo\<in>set los. plain p lo \<and> order_ok lo \<and> \<not> own lo"
  shows "settled_base (w_done (walk own q los)) (map_option (\<lambda>(lo, q). residual_fill own p lo q) (w_part (walk own q los))) =
      base_sum (w_fills (walk own q los)) \<and>
    settled_quote prec (w_done (walk own q los)) (map_option (\<lambda>(lo, q). residual_fill own p lo q) (w_part (walk own q los))) =
      level_quote prec p (w_fills (walk own q los)) \<and>
    (\<forall>lo\<in>set (w_rest (walk own q los)). plain p lo)"
  using assms
proof (induction own q los rule: walk.induct)
  case (2 own q lo los)
  then have "remaining lo = lo_base_lots lo - lo_filled_base_lots lo"
    by (simp add: remaining_def plain_def)
  with 2 show ?case
    by (auto simp: Let_def order_base_def order_quote_def finish_def consume_def residual_fill_def plain_def)
qed simp

text \<open>No order of the side belongs to the account.\<close>

definition foreign :: "public_key_hash \<Rightarrow> level list \<Rightarrow> bool" where
  "foreign account levels \<longleftrightarrow> (\<forall>lv\<in>set levels. \<forall>lo\<in>set (lv_orders lv). order_ok lo \<and> lo_account lo \<noteq> account)"

lemma foreign_snoc [simp]:
  "foreign account (levels @ [lv]) \<longleftrightarrow>
     foreign account levels \<and> (\<forall>lo\<in>set (lv_orders lv). order_ok lo \<and> lo_account lo \<noteq> account)"
  by (auto simp: foreign_def)

lemma walk_foreign:
  assumes "\<forall>lo\<in>set los. \<not> own lo"
  shows "traded own (w_fills (walk own q los)) = w_fills (walk own q los)"
    "selfed own (w_fills (walk own q los)) = []"
proof -
  have "\<not> own lo" if "(lo, f) \<in> set (w_fills (walk own q los))" for lo f
    using walk_fills_live [OF that] assms by blast
  then show "traded own (w_fills (walk own q los)) = w_fills (walk own q los)"
    "selfed own (w_fills (walk own q los)) = []"
    by (auto simp: traded_def selfed_def filter_id_conv filter_empty_conv)
qed

lemma sell_level_settled:
  assumes "sell_level_loop account prec p los st = Some (los', st')" "se_residual st = None"
    and "\<forall>lo\<in>set los. plain p lo \<and> order_ok lo \<and> lo_account lo \<noteq> account"
  shows "\<exists>d\<le>length los'. se_drain st' = se_drain st + d \<and> (\<forall>lo\<in>set (drop d los'). plain p lo) \<and>
    se_remaining st' + settled_base (take d los') (se_residual st') = se_remaining st \<and>
    se_quote_lots_in st' = se_quote_lots_in st + settled_quote prec (take d los') (se_residual st') \<and>
    se_self_fill st' = se_self_fill st \<and>
    (se_residual st' \<noteq> None \<longrightarrow> d < length los')"
proof -
  define own where "own = (\<lambda>lo. lo_account lo = account)"
  define w where "w = walk own (se_remaining st) los"
  have los': "los' = w_done w @ w_rest w" and st': "st' = sell_after own prec p w st"
    using sell_level_loop_walk [OF assms(1)] by (simp_all add: Let_def own_def w_def)
  have own: "\<forall>lo\<in>set los. plain p lo \<and> order_ok lo \<and> \<not> own lo" using assms(3) by (simp add: own_def)
  have res: "se_residual st' = map_option (\<lambda>(lo, q). residual_fill own p lo q) (w_part w)"
    using assms(2) by (auto simp: st' sell_after_def split: option.splits)
  have "w_part w \<noteq> None \<Longrightarrow> w_rest w \<noteq> []" using walk_part_rest by (auto simp: w_def)
  with walk_settled [OF own, of "se_remaining st" prec] walk_sum [of own "se_remaining st" los]
    walk_foreign [of los own "se_remaining st"] own res
  show ?thesis
    by (intro exI [of _ "length (w_done w)"]) (auto simp: los' st' sell_after_def simp flip: w_def)
qed

lemma sell_loop_settled:
  assumes "sell_loop account prec levels F st = Some (levels', F', st')"
    and "plain_levels levels" "foreign account levels" "se_residual st = None"
  shows "se_remaining st' + settled_base F' (se_residual st') = se_remaining st + settled_base F None \<and>
    se_quote_lots_in st' + settled_quote prec F None = se_quote_lots_in st + settled_quote prec F' (se_residual st') \<and>
    se_self_fill st' = se_self_fill st \<and> plain_levels levels'"
  using assms
proof (induction levels arbitrary: F st rule: rev_induct)
  case Nil
  then show ?case by (simp add: sell_loop.simps)
next
  case (snoc lv levels)
  note simps = sell_loop.simps [of account prec "levels @ [lv]" F st] Let_def
  show ?case
  proof (cases "0 < se_remaining st")
    case False
    with snoc.prems show ?thesis by (auto simp: simps)
  next
    case True
    with snoc.prems(1) obtain los st1 where
      lv: "sell_level_loop account prec (lv_price lv) (lv_orders lv) (st\<lparr>se_drain := 0, se_cancelled := 0\<rparr>) = Some (los, st1)"
      by (auto simp: simps checked)
    from sell_level_settled [OF lv] snoc.prems(2-4) obtain d where
      d: "d \<le> length los" "se_drain st1 = d" "\<forall>lo\<in>set (drop d los). plain (lv_price lv) lo"
        "se_remaining st1 + settled_base (take d los) (se_residual st1) = se_remaining st"
        "se_quote_lots_in st1 = se_quote_lots_in st + settled_quote prec (take d los) (se_residual st1)"
        "se_self_fill st1 = se_self_fill st" "se_residual st1 \<noteq> None \<longrightarrow> d < length los"
      by auto
    show ?thesis
    proof (cases "d < length los")
      case part: True
      with True snoc.prems lv d show ?thesis by (auto simp: simps checked split: if_splits)
    next
      case False
      with True snoc.prems lv d
      have rec: "sell_loop account prec levels (F @ los) st1 = Some (levels', F', st')"
        by (auto simp: simps split: if_splits)
      from snoc.IH [OF rec] snoc.prems(2,3) d False show ?thesis by auto
    qed
  qed
qed

lemma buy_level_settled:
  assumes "buy_level_loop account prec p los st = Some (los', st')" "be_residual st = None"
    and "\<forall>lo\<in>set los. plain p lo \<and> order_ok lo \<and> lo_account lo \<noteq> account"
  shows "\<exists>d\<le>length los'. be_drain st' = be_drain st + d \<and> (\<forall>lo\<in>set (drop d los'). plain p lo) \<and>
    be_base_lots_in st' = be_base_lots_in st + settled_base (take d los') (be_residual st') \<and>
    be_remaining_quote st' + settled_quote prec (take d los') (be_residual st') = be_remaining_quote st \<and>
    be_self_fill st' = be_self_fill st \<and>
    (be_residual st' \<noteq> None \<longrightarrow> d < length los')"
proof -
  define own where "own = (\<lambda>lo. lo_account lo = account)"
  define w where "w = walk own (be_remaining_base st) los"
  have los': "los' = w_done w @ w_rest w" and st': "st' = buy_after own prec p w st"
    and le: "level_quote prec p (w_fills w) \<le> be_remaining_quote st"
    using buy_level_loop_walk [OF assms(1)] by (simp_all add: Let_def own_def w_def)
  have own: "\<forall>lo\<in>set los. plain p lo \<and> order_ok lo \<and> \<not> own lo" using assms(3) by (simp add: own_def)
  have res: "be_residual st' = map_option (\<lambda>(lo, q). residual_fill own p lo q) (w_part w)"
    using assms(2) by (auto simp: st' buy_after_def split: option.splits)
  have "w_part w \<noteq> None \<Longrightarrow> w_rest w \<noteq> []" using walk_part_rest by (auto simp: w_def)
  with walk_settled [OF own, of "be_remaining_base st" prec]
    walk_foreign [of los own "be_remaining_base st"] own res le
  show ?thesis
    by (intro exI [of _ "length (w_done w)"]) (auto simp: los' st' buy_after_def simp flip: w_def)
qed

lemma buy_loop_settled:
  assumes "buy_loop account prec levels F st = Some (levels', F', st')"
    and "plain_levels levels" "foreign account levels" "be_residual st = None"
  shows "be_base_lots_in st' + settled_base F None = be_base_lots_in st + settled_base F' (be_residual st') \<and>
    be_remaining_quote st' + settled_quote prec F' (be_residual st') = be_remaining_quote st + settled_quote prec F None \<and>
    be_self_fill st' = be_self_fill st \<and> plain_levels levels'"
  using assms
proof (induction levels arbitrary: F st rule: rev_induct)
  case Nil
  then show ?case by (simp add: buy_loop.simps)
next
  case (snoc lv levels)
  note simps = buy_loop.simps [of account prec "levels @ [lv]" F st] Let_def
  show ?case
  proof (cases "0 < be_remaining_quote st \<and>
      quote_lots_to_base_lots (be_remaining_quote st) (lv_price lv) prec \<noteq> Some 0")
    case False
    with snoc.prems show ?thesis by (auto simp: simps split: if_splits)
  next
    case True
    with snoc.prems(1) obtain b los st1 where
      b: "quote_lots_to_base_lots (be_remaining_quote st) (lv_price lv) prec = Some b" "b \<noteq> 0" and
      lv: "buy_level_loop account prec (lv_price lv) (lv_orders lv)
        (st\<lparr>be_remaining_base := b, be_level_filled := 0, be_drain := 0, be_cancelled := 0\<rparr>) = Some (los, st1)"
      by (auto simp: simps checked split: if_splits)
    from buy_level_settled [OF lv] snoc.prems(2-4) obtain d where
      d: "d \<le> length los" "be_drain st1 = d" "\<forall>lo\<in>set (drop d los). plain (lv_price lv) lo"
        "be_base_lots_in st1 = be_base_lots_in st + settled_base (take d los) (be_residual st1)"
        "be_remaining_quote st1 + settled_quote prec (take d los) (be_residual st1) = be_remaining_quote st"
        "be_self_fill st1 = be_self_fill st" "be_residual st1 \<noteq> None \<longrightarrow> d < length los"
      by auto
    show ?thesis
    proof (cases "d < length los")
      case part: True
      with True b snoc.prems lv d show ?thesis by (auto simp: simps checked split: if_splits)
    next
      case False
      with True b snoc.prems lv d
      have rec: "buy_loop account prec levels (F @ los) st1 = Some (levels', F', st')"
        by (auto simp: simps split: if_splits)
      from snoc.IH [OF rec] snoc.prems(2,3) d False show ?thesis by auto
    qed
  qed
qed

section \<open>Conservation\<close>

text \<open>What the three execution functions report, in terms of the settlement's sums.\<close>

lemma execute_limit_settled:
  assumes "execute_limit cmp levels order x y is_buy prec = Some (res, levels', order')" "plain_levels levels"
  shows "(if is_buy then ue_lots_in (lf_user_order res) else ue_lots_out (lf_user_order res)) =
      settled_base (lf_filled_orders res) (lf_residual_order res)"
    "(if is_buy then ue_lots_out (lf_user_order res) else ue_lots_in (lf_user_order res)) =
      settled_quote prec (lf_filled_orders res) (lf_residual_order res)"
    "ue_asset_in (lf_user_order res) = x" "ue_asset_out (lf_user_order res) = y" "plain_levels levels'"
proof -
  from assms(1) obtain F st where loop: "limit_loop cmp (lo_price_multiple order) is_buy prec levels []
         \<lparr>le_remaining = lo_base_lots order, le_lots_in = 0, le_lots_out = 0, le_residual = None,
          le_last_price = None, le_drain = 0, le_cancelled = 0\<rparr> = Some (levels', F, st)"
    and res: "lf_user_order res = \<lparr>ue_order_id = lo_id order, ue_asset_in = x, ue_lots_in = le_lots_in st,
               ue_asset_out = y, ue_lots_out = le_lots_out st, ue_filled_size = lo_base_lots order - le_remaining st\<rparr>"
      "lf_filled_orders res = F" "lf_residual_order res = le_residual st"
    by (auto simp: execute_limit_def checked)
  from limit_loop_settled [OF loop assms(2)] res
  show "(if is_buy then ue_lots_in (lf_user_order res) else ue_lots_out (lf_user_order res)) =
      settled_base (lf_filled_orders res) (lf_residual_order res)"
    "(if is_buy then ue_lots_out (lf_user_order res) else ue_lots_in (lf_user_order res)) =
      settled_quote prec (lf_filled_orders res) (lf_residual_order res)"
    "ue_asset_in (lf_user_order res) = x" "ue_asset_out (lf_user_order res) = y" "plain_levels levels'"
    by auto
qed

lemma execute_market_sell_settled:
  assumes "execute_market_sell_order levels so prec = Some (r, levels')"
    and "plain_levels levels" "foreign (co_account (ms_common so)) levels"
  shows "sr_base_filled_lots r = settled_base (sr_filled_orders r) (sr_residual_order r)"
    "sr_quote_lots_in r = settled_quote prec (sr_filled_orders r) (sr_residual_order r)"
    "plain_levels levels'"
proof -
  from assms(1) obtain F st where loop: "sell_loop (co_account (ms_common so)) prec levels []
         \<lparr>se_remaining = ms_base_size so, se_quote_lots_in = 0, se_self_fill = 0,
          se_residual = None, se_last_price = None, se_drain = 0, se_cancelled = 0\<rparr> = Some (levels', F, st)"
    and res: "sr_base_filled_lots r = ms_base_size so - se_remaining st - se_self_fill st"
      "sr_quote_lots_in r = se_quote_lots_in st" "sr_filled_orders r = F" "sr_residual_order r = se_residual st"
    by (auto simp: execute_market_sell_order_def checked)
  from sell_loop_settled [OF loop assms(2,3)] res
  show "sr_base_filled_lots r = settled_base (sr_filled_orders r) (sr_residual_order r)"
    "sr_quote_lots_in r = settled_quote prec (sr_filled_orders r) (sr_residual_order r)"
    "plain_levels levels'"
    by auto
qed

lemma execute_market_buy_settled:
  assumes "execute_market_buy_order levels bo prec = Some (r, levels')"
    and "plain_levels levels" "foreign (co_account (mb_common bo)) levels"
  shows "br_quote_filled_lots r = settled_quote prec (br_filled_orders r) (br_residual_order r)"
    "br_base_lots_in r = settled_base (br_filled_orders r) (br_residual_order r)"
    "plain_levels levels'"
proof -
  from assms(1) obtain F st where loop: "buy_loop (co_account (mb_common bo)) prec levels []
         \<lparr>be_remaining_quote = mb_quote_size bo, be_remaining_base = 0,
          be_base_lots_in = 0, be_self_fill = 0, be_level_filled = 0, be_residual = None,
          be_last_price = None, be_drain = 0, be_cancelled = 0\<rparr> = Some (levels', F, st)"
    and res: "br_quote_filled_lots r = mb_quote_size bo - be_remaining_quote st - be_self_fill st"
      "br_base_lots_in r = be_base_lots_in st" "br_filled_orders r = F" "br_residual_order r = be_residual st"
    by (auto simp: execute_market_buy_order_def checked)
  from buy_loop_settled [OF loop assms(2,3)] res
  show "br_quote_filled_lots r = settled_quote prec (br_filled_orders r) (br_residual_order r)"
    "br_base_lots_in r = settled_base (br_filled_orders r) (br_residual_order r)"
    "plain_levels levels'"
    by auto
qed

lemma add_limit_order_settled:
  assumes "add_limit_order m order base_asset quote_asset prec = Some (Some res, m')"
    and "plain_levels (sm_bids_levels m)" "plain_levels (sm_asks_levels m)"
  defines "u \<equiv> lf_user_order res"
  shows "if lo_direction order = Buy
    then ue_asset_in u = base_asset \<and> ue_asset_out u = quote_asset \<and>
      ue_lots_in u = settled_base (lf_filled_orders res) (lf_residual_order res) \<and>
      ue_lots_out u = settled_quote prec (lf_filled_orders res) (lf_residual_order res)
    else ue_asset_in u = quote_asset \<and> ue_asset_out u = base_asset \<and>
      ue_lots_in u = settled_quote prec (lf_filled_orders res) (lf_residual_order res) \<and>
      ue_lots_out u = settled_base (lf_filled_orders res) (lf_residual_order res)"
proof (cases "lo_direction order")
  case Buy
  with assms(1) obtain levels order' where
    "execute_limit cmp_ask (sm_asks_levels m) order base_asset quote_asset True prec = Some (res, levels, order')"
    by (auto simp: add_limit_order_def checked Let_def split: option.splits if_splits)
  from execute_limit_settled [OF this assms(3)] Buy show ?thesis by (simp add: u_def)
next
  case Sell
  with assms(1) obtain levels order' where
    "execute_limit cmp_bid (sm_bids_levels m) order quote_asset base_asset False prec = Some (res, levels, order')"
    by (auto simp: add_limit_order_def checked Let_def split: option.splits if_splits)
  from execute_limit_settled [OF this assms(2)] Sell show ?thesis by (simp add: u_def)
qed

text \<open>A taker's account has been written back; then the makers are settled.\<close>

lemma conserve:
  assumes "finite (dom accts)" "get_account_balance_mut accts pk = (ab, accts1)"
    and "ab_total ab1 a = ab_total ab a"
    and "ab_total ab2 a + out = ab_total ab1 a + inn"
    and "total_supply accts2 a + inn = total_supply (accts1(pk \<mapsto> ab2)) a + out"
  shows "total_supply accts2 a = total_supply accts a"
  using supply_put(3) [OF assms(1,2), where ab' = ab2 and a = a] assms(3-5) by simp

lemma settle_limit_conserves:
  assumes fin: "finite (dom accts)" and get: "get_account_balance_mut accts pk = (ab, accts1)"
    and lock: "lock_limit market ab order prec = Some (l, ab1)"
    and match: "add_limit_order market order base_asset quote_asset prec = Some (Some res, market')"
      "plain_levels (sm_bids_levels market)" "plain_levels (sm_asks_levels market)"
    and user: "settle_limit_user ab1 (lf_user_order res) lk
      (if lo_direction order = Buy then mp_quote_lot_size prec else mp_base_lot_size prec)
      (if lo_direction order = Buy then mp_base_lot_size prec else mp_quote_lot_size prec) = Some ab2"
    and makers: "settle_limit_filled (lo_direction order = Buy) (lf_user_order res) prec (lf_filled_orders res)
        (accts1(pk \<mapsto> ab2)) = Some accts2"
      "settle_limit_residual (lo_direction order = Buy) (lf_user_order res) prec (lf_residual_order res) accts2 = Some accts3"
  shows "total_supply accts3 a = total_supply accts a"
proof -
  note rep = add_limit_order_settled [OF match]
  note user' = settle_limit_user_total [OF user, of a]
  note keep = lock_limit_total [OF lock, of a]
  have fin2: "finite (dom (accts1(pk \<mapsto> ab2)))" using supply_put(1) [OF fin get] by simp
  note makers' = makers [unfolded settle_limit_filled_market settle_limit_residual_market]
  show ?thesis
  proof (cases "lo_direction order = Buy")
    case True
    note m = makers' [unfolded True, simplified]
    from settle_base_for_quote(2) [OF settle_limit_maker_pays(1) fin2 m, of a] user' rep True
    show ?thesis by (intro conserve [OF fin get keep, of ab2]) (auto simp: mult.commute)
  next
    case False
    note m = makers' [unfolded if_not_P [OF False], simplified False]
    from settle_quote_for_base(2) [OF settle_limit_maker_pays(2) fin2 m, of a] user' rep False
    show ?thesis by (intro conserve [OF fin get keep, of ab2]) (auto simp: mult.commute)
  qed
qed

text \<open>
  The conditions of conservation: no order of the market's book was ever reduced by a self
  trade, and a market order finds no order of its own account on the side it takes.
\<close>

definition clean_book :: "order \<Rightarrow> spot_market \<Rightarrow> bool" where
  "clean_book order m \<longleftrightarrow> plain_levels (sm_bids_levels m) \<and> plain_levels (sm_asks_levels m) \<and>
     (case order of
        Limit _ \<Rightarrow> True
      | Market (MarketSell so) \<Rightarrow> foreign (co_account (ms_common so)) (sm_bids_levels m)
      | Market (MarketBuy bo) \<Rightarrow> foreign (co_account (mb_common bo)) (sm_asks_levels m))"

lemma handle_limit_order_conserves:
  assumes "handle_limit_order ch order prec = Some (r, ch')" and fin: "finite (dom (ch_accounts ch))"
    and clean: "\<forall>m\<in>set (ch_markets ch). clean_book (Limit order) m"
  shows "total_supply (ch_accounts ch') a = total_supply (ch_accounts ch) a"
proof -
  let ?id = "co_market_id (lo_common order)" and ?pk = "lo_account order"
  obtain ab accts1 where get: "get_account_balance_mut (ch_accounts ch) ?pk = (ab, accts1)" by fastforce
  note put = supply_put [OF fin get]
  show ?thesis
  proof (cases "index (ch_markets ch) ?id")
    case None
    with assms(1) get put(2) show ?thesis
      by (auto simp: handle_limit_order_def get_market_and_account_balance_def)
  next
    case (Some market)
    then have m: "plain_levels (sm_bids_levels market)" "plain_levels (sm_asks_levels market)"
      using clean by (auto simp: clean_book_def checked)
    from assms(1) Some get obtain l ab1 where lock: "lock_limit market ab order prec = Some (l, ab1)"
      by (auto simp: handle_limit_order_def get_market_and_account_balance_def checked)
    have kept: "total_supply (accts1(?pk \<mapsto> ab1)) a = total_supply (ch_accounts ch) a"
      using put(3) [of ab1 a] lock_limit_total [OF lock, of a] by simp
    show ?thesis
    proof (cases l)
      case None
      with assms(1) Some get lock kept show ?thesis
        by (auto simp: handle_limit_order_def get_market_and_account_balance_def)
    next
      case (Some lk)
      with assms(1) \<open>index _ _ = _\<close> get lock obtain results market' where
        match: "add_limit_order market order (sm_base_asset market) (sm_quote_asset market) prec =
          Some (results, market')"
        by (auto simp: handle_limit_order_def get_market_and_account_balance_def checked Let_def)
      show ?thesis
      proof (cases results)
        case None
        with assms(1) \<open>index _ _ = _\<close> \<open>l = _\<close> get lock match kept show ?thesis
          by (auto simp: handle_limit_order_def get_market_and_account_balance_def Let_def)
      next
        case (Some res)
        with assms(1) \<open>index _ _ = _\<close> \<open>l = _\<close> get lock match show ?thesis
          using settle_limit_conserves [OF fin get lock, of "sm_base_asset market" "sm_quote_asset market" res market' lk]
            m
          by (auto simp: handle_limit_order_def get_market_and_account_balance_def Let_def checked
              split: if_splits)
      qed
    qed
  qed
qed

lemma settle_market_conserves:
  assumes fin: "finite (dom accts)" and get: "get_account_balance_mut accts pk = (ab, accts1)"
    and lock: "lock_market market ab order prec = Some (l, ab1)"
    and clean: "clean_book (Market order) market"
    and match: "handle_market_order market order prec = Some (results, market')"
    and settle: "(case results of
        SellResults r \<Rightarrow> settle_market_sell market ab1 lk r prec pk accts1
      | BuyResults r \<Rightarrow> settle_market_buy market ab1 lk r prec pk accts1) = Some (er, accts2)"
  shows "total_supply accts2 a = total_supply accts a"
proof -
  note keep = lock_market_total [OF lock, of a]
  show ?thesis
  proof (cases order)
    case (MarketSell so)
    with match obtain r levels where r: "results = SellResults r"
      "execute_market_sell_order (sm_bids_levels market) so prec = Some (r, levels)"
      by (auto simp: handle_market_order_def checked)
    note rep = execute_market_sell_settled [OF r(2)]
    from settle r(1) obtain ab2 accts' where
      user: "settle_market_user ab1 (sm_base_asset market) lk (sr_base_filled_lots r) (mp_base_lot_size prec)
        (sm_quote_asset market) (sr_quote_lots_in r) (mp_quote_lot_size prec) = Some ab2"
      and makers: "settle_market_filled (settle_sell_maker (sm_base_asset market) (sm_quote_asset market) prec)
          (sr_filled_orders r) (accts1(pk \<mapsto> ab2)) = Some accts'"
        "settle_market_residual (settle_sell_maker (sm_base_asset market) (sm_quote_asset market) prec)
          (sr_residual_order r) accts' = Some accts2"
      by (auto simp: settle_market_sell_def checked Let_def)
    have "finite (dom (accts1(pk \<mapsto> ab2)))" using supply_put(1) [OF fin get] by simp
    from settle_quote_for_base(2) [OF settle_sell_maker_pays this makers, of a]
      settle_market_user_total [OF user, of a] rep clean MarketSell
    show ?thesis by (intro conserve [OF fin get keep, of ab2]) (auto simp: clean_book_def)
  next
    case (MarketBuy bo)
    with match obtain r levels where r: "results = BuyResults r"
      "execute_market_buy_order (sm_asks_levels market) bo prec = Some (r, levels)"
      by (auto simp: handle_market_order_def checked)
    note rep = execute_market_buy_settled [OF r(2)]
    from settle r(1) obtain ab2 accts' where
      user: "settle_market_user ab1 (sm_quote_asset market) lk (br_quote_filled_lots r) (mp_quote_lot_size prec)
        (sm_base_asset market) (br_base_lots_in r) (mp_base_lot_size prec) = Some ab2"
      and makers: "settle_market_filled (settle_buy_maker (sm_base_asset market) (sm_quote_asset market) prec)
          (br_filled_orders r) (accts1(pk \<mapsto> ab2)) = Some accts'"
        "settle_market_residual (settle_buy_maker (sm_base_asset market) (sm_quote_asset market) prec)
          (br_residual_order r) accts' = Some accts2"
      by (auto simp: settle_market_buy_def checked Let_def)
    have "finite (dom (accts1(pk \<mapsto> ab2)))" using supply_put(1) [OF fin get] by simp
    from settle_base_for_quote(2) [OF settle_buy_maker_pays this makers, of a]
      settle_market_user_total [OF user, of a] rep clean MarketBuy
    show ?thesis by (intro conserve [OF fin get keep, of ab2]) (auto simp: clean_book_def)
  qed
qed

lemma handle_market_conserves:
  assumes "handle_market ch order prec = Some (r, ch')" and fin: "finite (dom (ch_accounts ch))"
    and clean: "\<forall>m\<in>set (ch_markets ch). clean_book (Market order) m"
  shows "total_supply (ch_accounts ch') a = total_supply (ch_accounts ch) a"
proof -
  let ?id = "co_market_id (market_common order)" and ?pk = "market_get_account order"
  obtain ab accts1 where get: "get_account_balance_mut (ch_accounts ch) ?pk = (ab, accts1)" by fastforce
  note put = supply_put [OF fin get]
  show ?thesis
  proof (cases "index (ch_markets ch) ?id")
    case None
    with assms(1) get put(2) show ?thesis
      by (auto simp: handle_market_def get_market_and_account_balance_def Let_def)
  next
    case (Some market)
    then have m: "clean_book (Market order) market" using clean by (auto simp: checked)
    from assms(1) Some get obtain l ab1 where lock: "lock_market market ab order prec = Some (l, ab1)"
      by (auto simp: handle_market_def get_market_and_account_balance_def checked Let_def)
    have kept: "total_supply (accts1(?pk \<mapsto> ab1)) a = total_supply (ch_accounts ch) a"
      using put(3) [of ab1 a] lock_market_total [OF lock, of a] by simp
    show ?thesis
    proof (cases l)
      case None
      with assms(1) Some get lock kept show ?thesis
        by (auto simp: handle_market_def get_market_and_account_balance_def Let_def)
    next
      case (Some lk)
      with assms(1) \<open>index _ _ = _\<close> get lock obtain results market' er accts2 where
        match: "handle_market_order market order prec = Some (results, market')" and
        settle: "(case results of
            SellResults r \<Rightarrow> settle_market_sell market ab1 lk r prec ?pk accts1
          | BuyResults r \<Rightarrow> settle_market_buy market ab1 lk r prec ?pk accts1) = Some (er, accts2)"
        and ch': "ch_accounts ch' = accts2"
        by (auto simp: handle_market_def get_market_and_account_balance_def bind_eq_Some_conv Let_def
            cong: market_order_matching_results.case_cong)
      show ?thesis using settle_market_conserves [OF fin get lock m match settle] ch' by simp
    qed
  qed
qed

lemma cancel_order_conserves:
  assumes "cancel_order ch order prec = Some (r, ch')" and fin: "finite (dom (ch_accounts ch))"
  shows "total_supply (ch_accounts ch') a = total_supply (ch_accounts ch) a"
proof -
  obtain ab accts1 where get: "get_account_balance_mut (ch_accounts ch) (lo_account order) = (ab, accts1)" by fastforce
  note put = supply_put [OF fin get]
  have keep: "total_supply (accts1(lo_account order \<mapsto> ab')) a = total_supply (ch_accounts ch) a"
    if "modify_token ab x (add_available n) = Some ab'" for x n ab'
    using put(3) [of ab' a] modify_token_keeps [OF that, of a] by simp
  show ?thesis using assms(1) get put(2)
    by (cases "lo_direction order")
      (auto simp: cancel_order_def get_market_and_account_balance_def checked Let_def keep split: option.splits)
qed

end
