(* ===== verification/Exchange_Samples.thy ===== *)
theory Exchange_Samples
  imports Settlement
begin

text \<open>
  A small market used by the witnesses of the exchange: lots and ticks of size one, one bid
  level and two ask levels of two accounts, and a clearing house that holds it.
\<close>

definition unit_precision :: market_precision where
  "unit_precision = \<lparr>mp_base_lot_size = 1, mp_quote_lot_size = 1, mp_tick = 1, mp_tick_decimals = 0\<rparr>"

definition maker_key :: public_key_hash where
  "maker_key = [1]"

definition taker_key :: public_key_hash where
  "taker_key = [2]"

definition sample_order :: "nat \<Rightarrow> public_key_hash \<Rightarrow> order_direction \<Rightarrow> nat \<Rightarrow> nat \<Rightarrow> limit_order" where
  "sample_order i pk d p b =
     \<lparr>lo_common = \<lparr>co_id = i, co_market_id = 0, co_status = Open, co_account = pk, co_direction = d\<rparr>,
      lo_price_multiple = p, lo_base_lots = b, lo_filled_base_lots = 0, lo_self_filled = 0\<rparr>"

definition sample_level :: "nat \<Rightarrow> nat \<Rightarrow> limit_order list \<Rightarrow> level" where
  "sample_level p v los = \<lparr>lv_price = p, lv_volume = v, lv_orders = los, lv_cancelled = 0\<rparr>"

definition sample_bids :: "level list" where
  "sample_bids = [sample_level 9 5 [sample_order 0 maker_key Buy 9 5]]"

definition sample_asks :: "level list" where
  "sample_asks =
     [sample_level 12 4 [sample_order 3 maker_key Sell 12 4],
      sample_level 11 5 [sample_order 1 maker_key Sell 11 3, sample_order 2 maker_key Sell 11 2]]"

definition sample_market :: spot_market where
  "sample_market = (spot_market_new 0 (0, 1) 0 1 ''SUPE'' ''USD'' 1 0)
     \<lparr>sm_bids_levels := sample_bids, sm_asks_levels := sample_asks\<rparr>"

definition sample_account :: account_balance where
  "sample_account = \<lparr>ab_asset_balances =
     [\<lparr>atb_asset_id = 0, atb_available_balance = 100, atb_total_balance = 200\<rparr>,
      \<lparr>atb_asset_id = 1, atb_available_balance = 100, atb_total_balance = 200\<rparr>]\<rparr>"

definition sample_house :: spot_clearing_house where
  "sample_house = clearing_house_new
     \<lparr>ch_accounts := [maker_key \<mapsto> sample_account, taker_key \<mapsto> sample_account],
      ch_markets := [sample_market]\<rparr>"

definition sample_sell :: "nat \<Rightarrow> market_order" where
  "sample_sell b = MarketSell \<lparr>ms_base_size = b, ms_filled_size = 0, ms_self_filled = 0,
     ms_average_execution_price = 0,
     ms_common = \<lparr>co_id = 4, co_market_id = 0, co_status = Open, co_account = taker_key,
                  co_direction = Sell\<rparr>\<rparr>"

definition sample_buy :: "nat \<Rightarrow> market_order" where
  "sample_buy q = MarketBuy \<lparr>mb_quote_size = q, mb_filled_size = 0, mb_self_filled = 0,
     mb_average_execution_price = 0,
     mb_common = \<lparr>co_id = 4, co_market_id = 0, co_status = Open, co_account = taker_key,
                  co_direction = Buy\<rparr>\<rparr>"

lemmas sample_defs = unit_precision_def maker_key_def taker_key_def sample_order_def sample_level_def
  sample_bids_def sample_asks_def sample_market_def sample_account_def sample_house_def
  sample_sell_def sample_buy_def spot_market_new_def

text \<open>The equations that run the exchange on concrete data.\<close>

lemmas checked_eval = checked_add_def checked_mul_def checked_pow_def checked_sub_def checked_div_def
  index_def vec_insert_def vec_remove_def vec_last_def as_u64_def as_u32_def

lemmas book_eval = add_order_with_cmp_def add_order_loop.simps push_order_def new_level_def
  cmp_bid_def cmp_ask_def

lemmas matching_eval = limit_loop.simps sell_loop.simps buy_loop.simps execute_limit_def
  execute_market_sell_order_def execute_market_buy_order_def residual_of_def get_order_remaining_def
  base_to_quote_lots_def quote_lots_to_base_lots_def

lemmas market_eval = add_limit_order_def handle_market_order_def get_best_prices_def
  set_last_executed_price_def add_bid_def add_ask_def

lemmas token_eval = get_account_token_balance_mut_def token_of_def modify_token_def add_available_def
  sub_available_def add_total_def sub_total_def credit_def unlock_and_pay_def
  get_account_balance_mut_def modify_account_def

lemmas house_eval = handle_limit_order_def get_market_and_account_balance_def lock_limit_def
  settle_limit_user_def settle_limit_maker_def settle_limit_residual_def
  handle_market_def lock_market_def settle_market_user_def settle_sell_maker_def settle_buy_maker_def
  settle_market_residual_def settle_market_sell_def settle_market_buy_def clearing_house_new_def
  market_cancel_order_def

lemmas exchange_eval = checked_eval book_eval matching_eval market_eval token_eval house_eval sample_defs
  Let_def

lemmas side_defs = side_ok_def levels_sorted_def level_ok_def order_ok_def live_def remaining_def

lemma sample_order_simps [simp]:
  "lo_id (sample_order i pk d p b) = i" "lo_account (sample_order i pk d p b) = pk"
  "lo_direction (sample_order i pk d p b) = d" "lo_status (sample_order i pk d p b) = Open"
  "lo_price_multiple (sample_order i pk d p b) = p" "lo_base_lots (sample_order i pk d p b) = b"
  "lo_filled_base_lots (sample_order i pk d p b) = 0" "lo_self_filled (sample_order i pk d p b) = 0"
  "remaining (sample_order i pk d p b) = b" "live (sample_order i pk d p b)"
  by (simp_all add: sample_order_def remaining_def live_def)

lemma sample_bids_ok: "side_ok cmp_bid sample_bids"
  by (simp add: side_defs sample_defs)

lemma sample_asks_ok: "side_ok cmp_ask sample_asks"
  by (simp add: side_defs sample_defs)

lemma sample_market_simps [simp]:
  "sm_bids_levels sample_market = sample_bids" "sm_asks_levels sample_market = sample_asks"
  by (simp_all add: sample_market_def)

lemma sample_market_ok: "market_ok sample_market"
  using sample_bids_ok sample_asks_ok
  by (simp add: market_ok_def market_orders_def uncrossed_def) (simp add: sample_defs)

lemma sample_house_clean [simp]:
  "finite (dom (ch_accounts sample_house))"
  "\<forall>m\<in>set (ch_markets sample_house). clean_book (Limit order) m"
  "\<forall>m\<in>set (ch_markets sample_house). clean_book (Market (sample_buy q)) m"
  "\<forall>m\<in>set (ch_markets sample_house). clean_book (Market (sample_sell q)) m"
  by (simp_all add: sample_defs clean_book_def plain_levels_def plain_def foreign_def order_ok_def)

end
