(* ===== verification/Market_Sells.thy ===== *)
theory Market_Sells
  imports Market
begin

text \<open>
  The loops of market sells: under bounds on the size they return, and what they report and leave on
  the book is the price-time matching of the size against all bids, with the taker's own orders
  reduced instead of traded.
\<close>

section \<open>The inner loop returns\<close>

definition sell_room :: "market_precision \<Rightarrow> nat \<Rightarrow> sell_state \<Rightarrow> bool" where
  "sell_room prec p st \<longleftrightarrow>
     converts (se_remaining st) p prec \<and> se_self_fill st + se_remaining st < 2 ^ 64 \<and>
     se_quote_lots_in st + quote_of (se_remaining st) p prec < 2 ^ 64"

lemma sell_room_price: "sell_room prec P st \<Longrightarrow> p \<le> P \<Longrightarrow> sell_room prec p st"
  using quote_of_price_mono [of p P "se_remaining st" prec]
  by (auto simp: sell_room_def intro: converts_price_mono)

lemma sell_room_step:
  assumes "sell_room prec p st" "q \<le> se_remaining st" "se_remaining st' = se_remaining st - q"
    and "se_self_fill st' \<le> se_self_fill st + q"
    and "se_quote_lots_in st' \<le> se_quote_lots_in st + quote_of q p prec"
  shows "sell_room prec p st'"
proof -
  have "quote_of q p prec + quote_of (se_remaining st - q) p prec \<le> quote_of (se_remaining st) p prec"
    using quote_of_superadd [of q p prec "se_remaining st - q"] assms(2) by simp
  with assms show ?thesis by (auto simp: sell_room_def intro: converts_mono)
qed

lemma sell_level_loop_total:
  assumes "\<forall>lo\<in>set los. order_ok lo" "0 < se_remaining st" "sell_room prec p st"
    and "se_cancelled st + length (filter (\<lambda>lo. \<not> live lo) los) < 2 ^ 32"
  shows "\<exists>los' st'. sell_level_loop account prec p los st = Some (los', st')"
  using assms
proof (induction los arbitrary: st)
  case (Cons lo los)
  define q where "q = min (se_remaining st) (remaining lo)"
  have ok: "order_ok lo" using Cons.prems(1) by simp
  show ?case
  proof (cases "live lo")
    case False
    define st1 where "st1 = st\<lparr>se_cancelled := se_cancelled st + 1, se_drain := se_drain st + 1\<rparr>"
    have "\<exists>los' st'. sell_level_loop account prec p los st1 = Some (los', st')"
      using Cons.prems False by (intro Cons.IH) (auto simp: sell_room_def st1_def)
    with False Cons.prems(4) show ?thesis by (auto simp: live_def checked_add_def st1_def)
  next
    case True
    then have st: "lo_status lo \<noteq> Cancelled" by (simp add: live_def)
    have q: "q \<le> se_remaining st" "q \<le> remaining lo" by (auto simp: q_def)
    have b2q: "base_to_quote_lots q p prec = Some (quote_of q p prec)"
      using Cons.prems(3) q by (intro base_to_quote_lots_converts) (auto simp: sell_room_def intro: converts_mono)
    have adds: "se_self_fill st + q < 2 ^ 64" "se_quote_lots_in st + quote_of q p prec < 2 ^ 64"
      using Cons.prems(3) q quote_of_mono [OF q(1), of p prec] by (auto simp: sell_room_def)
    have fl: "lo_filled_base_lots lo + q < 2 ^ 64" "lo_self_filled lo + q < 2 ^ 64"
      using ok q(2) by (auto simp: order_ok_def remaining_def)
    have rec: "\<exists>los' st'. sell_level_loop account prec p los st1 = Some (los', st')"
      if "se_remaining st1 = se_remaining st - q" "se_self_fill st1 \<le> se_self_fill st + q"
        "se_quote_lots_in st1 \<le> se_quote_lots_in st + quote_of q p prec" "se_cancelled st1 = se_cancelled st"
        "remaining lo < se_remaining st" for st1
      using Cons.prems sell_room_step [OF Cons.prems(3) q(1), of st1] that True
      by (intro Cons.IH) (auto simp: q_def)
    show ?thesis
    proof (cases "lo_account lo = account")
      case own: True
      show ?thesis
        using own st ok adds fl rec [of "st\<lparr>se_self_fill := se_self_fill st + q, se_remaining := se_remaining st - q,
          se_drain := se_drain st + 1\<rparr>"]
        by (auto simp: checked_add_def Let_def q_def [symmetric]) (auto simp: q_def min_def split: if_splits)
    next
      case other: False
      show ?thesis
        using other st ok adds fl b2q rec [of "st\<lparr>se_last_price := Some p, se_remaining := se_remaining st - q,
          se_quote_lots_in := se_quote_lots_in st + quote_of q p prec, se_drain := se_drain st + 1\<rparr>"]
        by (auto simp: checked_add_def Let_def q_def [symmetric]) (auto simp: q_def min_def split: if_splits)
    qed
  qed
qed simp

section \<open>Quote lots of a walk\<close>

lemma traded_append [simp]: "traded own (fs @ gs) = traded own fs @ traded own gs"
  "selfed own (fs @ gs) = selfed own fs @ selfed own gs"
  by (simp_all add: traded_def selfed_def)

lemma traded_set: "f \<in> set (traded own fs) \<Longrightarrow> f \<in> set fs" "f \<in> set (selfed own fs) \<Longrightarrow> f \<in> set fs"
  by (auto simp: traded_def selfed_def)

lemma traded_selfed_sum: "base_sum (traded own fs) + base_sum (selfed own fs) = base_sum fs"
  by (induction fs) auto

lemma base_sum_member: "(lo, q) \<in> set fs \<Longrightarrow> q \<le> base_sum fs"
  by (induction fs) auto

lemma level_quote_sum:
  assumes "\<forall>(lo, q)\<in>set fs. lo_price_multiple lo = p \<and> q \<le> b" "converts b p prec"
  shows "level_quote prec p fs = quote_sum prec fs"
  using assms
proof (induction fs)
  case (Cons f fs)
  then have "base_to_quote_lots (snd f) p prec = Some (quote_of (snd f) p prec)"
    by (intro base_to_quote_lots_converts) (auto intro: converts_mono)
  with Cons show ?case by (auto simp: quote_lots_def)
qed simp

lemma walk_fills_level:
  assumes "\<forall>lo\<in>set los. lo_price_multiple lo = p"
  shows "\<forall>(lo, f)\<in>set (w_fills (walk own q los)). lo_price_multiple lo = p \<and> f \<le> q"
proof -
  have "f \<le> q" if "(lo, f) \<in> set (w_fills (walk own q los))" for lo f
    using base_sum_member [OF that] walk_sum [of own q los] by simp
  then show ?thesis using walk_fills_live [of _ _ own q los] assms by auto
qed

section \<open>The outer loop\<close>

text \<open>Everything the loop reports, over the fills of the specification.\<close>

definition sell_outcome ::
  "(nat \<Rightarrow> nat \<Rightarrow> ordering) \<Rightarrow> (limit_order \<Rightarrow> bool) \<Rightarrow> market_precision \<Rightarrow> level list \<Rightarrow> limit_order list \<Rightarrow>
   sell_state \<Rightarrow> level list \<Rightarrow> limit_order list \<Rightarrow> sell_state \<Rightarrow> bool" where
  "sell_outcome cmp own prec levels F st levels' F' st' \<longleftrightarrow>
     (let (fills, rest, q) = match_orders own (\<lambda>_. True) (se_remaining st) (priority levels)
      in side_ok cmp levels' \<and> priority levels' = rest \<and> se_remaining st' = q \<and>
         se_quote_lots_in st' = se_quote_lots_in st + quote_sum prec (traded own fills) \<and>
         se_self_fill st' = se_self_fill st + base_sum (selfed own fills) \<and>
         filter live F' = filter live F @ map (finish own \<circ> fst) (full_fills fills) \<and>
         se_residual st' = (case partial_fill fills of None \<Rightarrow> se_residual st
           | Some (lo, q) \<Rightarrow> Some (residual_fill own (lo_price_multiple lo) lo q)) \<and>
         se_last_price st' = (if traded own fills = [] then se_last_price st
           else Some (lo_price_multiple (fst (last (traded own fills)))))) \<and>
     set (map lo_id (side_orders levels')) \<subseteq> set (map lo_id (side_orders levels)) \<and>
     lv_price ` set levels' \<subseteq> lv_price ` set levels"

lemma sell_after_level:
  assumes "\<forall>lo\<in>set los. lo_price_multiple lo = p" "converts (se_remaining st) p prec"
  shows "se_quote_lots_in (sell_after own prec p (walk own (se_remaining st) los) st) =
    se_quote_lots_in st + quote_sum prec (traded own (w_fills (walk own (se_remaining st) los)))"
proof -
  define fs where "fs = w_fills (walk own (se_remaining st) los)"
  have "\<forall>(lo, q)\<in>set (traded own fs). lo_price_multiple lo = p \<and> q \<le> se_remaining st"
    using walk_fills_level [OF assms(1), of own "se_remaining st"] traded_set(1) [of _ own fs]
    unfolding fs_def by blast
  from level_quote_sum [OF this assms(2)] show ?thesis by (simp add: sell_after_def fs_def)
qed

lemma sell_after_room:
  assumes room: "sell_room prec P st" and le: "p \<le> P"
    and los: "\<forall>lo\<in>set los. lo_price_multiple lo = p"
  shows "sell_room prec P (sell_after own prec p (walk own (se_remaining st) los) st)"
proof -
  define w where "w = walk own (se_remaining st) los"
  have sum: "base_sum (traded own (w_fills w)) + base_sum (selfed own (w_fills w)) + w_left w = se_remaining st"
    using walk_sum [of own "se_remaining st" los] traded_selfed_sum [of own "w_fills w"] by (simp add: w_def)
  have "\<forall>(lo, q)\<in>set (traded own (w_fills w)). lo_price_multiple lo \<le> P"
    using walk_fills_level [OF los, of own "se_remaining st"] traded_set(1) le by (force simp: w_def)
  then have "quote_sum prec (traded own (w_fills w)) \<le> quote_of (base_sum (traded own (w_fills w))) P prec"
    by (rule quote_sum_level)
  moreover have "quote_of (base_sum (traded own (w_fills w))) P prec + quote_of (w_left w) P prec
      \<le> quote_of (se_remaining st) P prec"
    using quote_of_superadd [of "base_sum (traded own (w_fills w))" P prec "w_left w"]
      quote_of_mono [of "base_sum (traded own (w_fills w)) + w_left w" "se_remaining st" P prec] sum by simp
  moreover have "converts (se_remaining st) p prec"
    using sell_room_price [OF room le] by (simp add: sell_room_def)
  ultimately show ?thesis
    using room sum sell_after_level [OF los, of st prec own, folded w_def]
    unfolding w_def [symmetric] sell_room_def
    by (auto simp: sell_after_def intro: converts_mono)
qed

context price_priority
begin

lemma sell_outcome_stop:
  fixes lv prec F st levels own
  defines "w \<equiv> walk own (se_remaining st) (lv_orders lv)"
  assumes ok: "side_ok cmp (levels @ [lv])" and pos: "0 < se_remaining st" and rest: "w_rest w \<noteq> []"
    and conv: "converts (se_remaining st) (lv_price lv) prec"
  shows "sell_outcome cmp own prec (levels @ [lv]) F st
    (levels @ [lv\<lparr>lv_orders := w_rest w, lv_volume := lv_volume lv - se_remaining st,
       lv_cancelled := lv_cancelled lv - length (filter (\<lambda>lo. \<not> live lo) (w_done w))\<rparr>])
    (F @ w_done w) (sell_after own prec (lv_price lv) w (st\<lparr>se_drain := 0, se_cancelled := 0\<rparr>))"
proof -
  have lv: "level_ok lv" using side_ok_butlast [OF ok] by simp
  then have price: "\<forall>lo\<in>set (lv_orders lv). lo_price_multiple lo = lv_price lv"
    by (auto simp: level_ok_def)
  have left: "w_left w = 0" using walk_left rest by (fastforce simp: w_def)
  note lv' = level_after_walk [OF lv, of own "se_remaining st", folded w_def, OF rest]
  have match: "match_orders own (\<lambda>_. True) (se_remaining st) (priority (levels @ [lv]))
      = (w_fills w, filter live (w_rest w) @ priority levels, 0)"
    using match_orders_walk [OF pos, of "lv_orders lv" "\<lambda>_. True"] left by (simp add: w_def Let_def)
  have side: "side_ok cmp (levels @ [lv\<lparr>lv_orders := w_rest w, lv_volume := lv_volume lv - se_remaining st,
       lv_cancelled := lv_cancelled lv - length (filter (\<lambda>lo. \<not> live lo) (w_done w))\<rparr>])"
    using side_ok_replace_last [OF ok lv'(2)] walk_rest_ids [of own "se_remaining st" "lv_orders lv"]
    by (simp add: w_def)
  have last: "lo_price_multiple (fst (last (traded own (w_fills w)))) = lv_price lv"
    if "traded own (w_fills w) \<noteq> []"
    using walk_fills_level [OF price, of own "se_remaining st"] traded_set(1) [OF last_in_set [OF that]]
    by (auto simp: w_def)
  have quote: "se_quote_lots_in (sell_after own prec (lv_price lv) w (st\<lparr>se_drain := 0, se_cancelled := 0\<rparr>)) =
      se_quote_lots_in st + quote_sum prec (traded own (w_fills w))"
    using sell_after_level [OF price, of "st\<lparr>se_drain := 0, se_cancelled := 0\<rparr>" prec own] conv by (simp add: w_def)
  show ?thesis
    using side left match last quote walk_done [of own "se_remaining st" "lv_orders lv"]
      walk_part [of own "se_remaining st" "lv_orders lv"]
      walk_part_price [OF price, of own "se_remaining st"]
      walk_rest_ids [of own "se_remaining st" "lv_orders lv"]
    by (auto simp: sell_outcome_def sell_after_def w_def comp_def split: option.splits)
qed

lemma sell_outcome_next:
  fixes lv prec F st levels own
  defines "w \<equiv> walk own (se_remaining st) (lv_orders lv)"
  assumes ok: "side_ok cmp (levels @ [lv])" and pos: "0 < se_remaining st" and rest: "w_rest w = []"
    and conv: "converts (se_remaining st) (lv_price lv) prec"
    and rec: "sell_outcome cmp own prec levels (F @ w_done w)
      (sell_after own prec (lv_price lv) w (st\<lparr>se_drain := 0, se_cancelled := 0\<rparr>)) levels' F' st'"
  shows "sell_outcome cmp own prec (levels @ [lv]) F st levels' F' st'"
proof -
  have lv: "level_ok lv" using side_ok_butlast [OF ok] by simp
  then have price: "\<forall>lo\<in>set (lv_orders lv). lo_price_multiple lo = lv_price lv"
    by (auto simp: level_ok_def)
  have part: "w_part w = None" "partial_fill (w_fills w) = None"
    using walk_part_rest rest walk_part by (metis w_def)+
  obtain fills r q where m: "match_orders own (\<lambda>_. True) (w_left w) (priority levels) = (fills, r, q)"
    by (cases "match_orders own (\<lambda>_. True) (w_left w) (priority levels)")
  have match: "match_orders own (\<lambda>_. True) (se_remaining st) (priority (levels @ [lv])) = (w_fills w @ fills, r, q)"
    using match_orders_walk [OF pos, of "lv_orders lv" "\<lambda>_. True"] rest m by (simp add: w_def Let_def)
  have last: "lo_price_multiple (fst (last (traded own (w_fills w)))) = lv_price lv"
    if "traded own (w_fills w) \<noteq> []"
    using walk_fills_level [OF price, of own "se_remaining st"] traded_set(1) [OF last_in_set [OF that]]
    by (auto simp: w_def)
  have quote: "se_quote_lots_in (sell_after own prec (lv_price lv) w (st\<lparr>se_drain := 0, se_cancelled := 0\<rparr>)) =
      se_quote_lots_in st + quote_sum prec (traded own (w_fills w))"
    using sell_after_level [OF price, of "st\<lparr>se_drain := 0, se_cancelled := 0\<rparr>" prec own] conv by (simp add: w_def)
  have rem: "se_remaining (sell_after own prec (lv_price lv) w (st\<lparr>se_drain := 0, se_cancelled := 0\<rparr>)) = w_left w"
    by (simp add: sell_after_def)
  show ?thesis
    using rec part last quote walk_done [of own "se_remaining st" "lv_orders lv"] m
    unfolding sell_outcome_def match rem
    by (auto simp: sell_after_def w_def [symmetric] comp_def partial_fill_append last_append split: option.splits)
qed

lemma sell_loop_outcome:
  fixes account
  defines "own \<equiv> \<lambda>lo. lo_account lo = account"
  assumes "side_ok cmp levels" "\<forall>lv\<in>set levels. lv_price lv \<le> P" "sell_room prec P st"
  shows "\<exists>levels' F' st'. sell_loop account prec levels F st = Some (levels', F', st') \<and>
    sell_outcome cmp own prec levels F st levels' F' st'"
  using assms(2-)
proof (induction levels arbitrary: F st rule: rev_induct)
  case Nil
  then show ?case by (subst sell_loop.simps) (auto simp: sell_outcome_def partial_fill_def full_fills_def)
next
  case (snoc lv levels)
  show ?case
  proof (cases "0 < se_remaining st")
    case False
    with snoc.prems(1) show ?thesis
      by (subst sell_loop.simps) (auto simp: sell_outcome_def partial_fill_def)
  next
    case True
    define st0 where "st0 = st\<lparr>se_drain := 0, se_cancelled := 0\<rparr>"
    define w where "w = walk own (se_remaining st) (lv_orders lv)"
    define st1 where "st1 = sell_after own prec (lv_price lv) w st0"
    have lv: "level_ok lv" and levels: "side_ok cmp levels"
      using side_ok_butlast [OF snoc.prems(1)] by auto
    then have price: "\<forall>lo\<in>set (lv_orders lv). lo_price_multiple lo = lv_price lv" by (auto simp: level_ok_def)
    have P: "lv_price lv \<le> P" "sell_room prec P st0"
      using snoc.prems(2,3) by (auto simp: sell_room_def st0_def)
    have conv: "converts (se_remaining st) (lv_price lv) prec"
      using sell_room_price [OF P(2,1)] by (simp add: sell_room_def st0_def)
    obtain los' st' where run: "sell_level_loop account prec (lv_price lv) (lv_orders lv) st0 = Some (los', st')"
      using sell_level_loop_total [of "lv_orders lv" st0 prec "lv_price lv" account] True lv sell_room_price [OF P(2,1)]
      by (auto simp: level_ok_def st0_def)
    have loop: "sell_level_loop account prec (lv_price lv) (lv_orders lv) st0 = Some (w_done w @ w_rest w, st1)"
      using sell_level_loop_walk [OF run] run by (simp add: Let_def own_def w_def st1_def st0_def)
    have drain: "se_drain st1 = length (w_done w)"
      and canc: "se_cancelled st1 = length (filter (\<lambda>lo. \<not> live lo) (w_done w))"
      by (simp_all add: st1_def sell_after_def st0_def)
    show ?thesis
    proof (cases "w_rest w = []")
      case False
      have "se_cancelled st1 \<le> lv_cancelled lv"
        using walk_cancelled [of "lv_orders lv" own "se_remaining st"] lv canc by (simp add: level_ok_def w_def)
      with level_after_walk(1) [OF lv False [unfolded w_def]] True loop drain False canc
        sell_outcome_stop [OF snoc.prems(1) True False [unfolded w_def] conv, of F, folded w_def, folded st0_def, folded st1_def]
      show ?thesis by (subst sell_loop.simps) (simp add: Let_def st0_def)
    next
      case rest: True
      have "sell_room prec P st1"
        using sell_after_room [OF P(2,1) price, of own] by (simp add: st1_def w_def st0_def)
      from snoc.IH [OF levels _ this, of "F @ w_done w"] snoc.prems(2) obtain levels' F' st' where
        "sell_loop account prec levels (F @ w_done w) st1 = Some (levels', F', st')"
        "sell_outcome cmp own prec levels (F @ w_done w) st1 levels' F' st'" by auto
      with sell_outcome_next [OF snoc.prems(1) True rest [unfolded w_def] conv, folded w_def, folded st0_def, folded st1_def]
        True loop drain rest
      show ?thesis by (subst sell_loop.simps) (auto simp: Let_def st0_def)
    qed
  qed
qed

end

text \<open>What \<open>execute_market_sell_order\<close> promises.\<close>

definition sell_report ::
  "market_precision \<Rightarrow> level list \<Rightarrow> market_sell_order \<Rightarrow> sell_results \<Rightarrow> level list \<Rightarrow> bool" where
  "sell_report prec levels order r levels' \<longleftrightarrow>
     (let own = (\<lambda>lo. lo_account lo = co_account (ms_common order));
          (fills, rest, q) = match_orders own (\<lambda>_. True) (ms_base_size order) (priority levels)
      in priority levels' = rest \<and> sr_order_id r = co_id (ms_common order) \<and>
         sr_base_filled_lots r = base_sum (traded own fills) \<and>
         sr_self_fill r = base_sum (selfed own fills) \<and>
         sr_base_filled_lots r + sr_self_fill r + q = ms_base_size order \<and>
         sr_quote_lots_in r = quote_sum prec (traded own fills) \<and>
         filter live (sr_filled_orders r) = map (finish own \<circ> fst) (full_fills fills) \<and>
         sr_residual_order r = map_option (\<lambda>(lo, q). residual_fill own (lo_price_multiple lo) lo q) (partial_fill fills) \<and>
         sr_last_executed_price r = (if traded own fills = [] then None
           else Some (lo_price_multiple (fst (last (traded own fills)))))) \<and>
     set (map lo_id (side_orders levels')) \<subseteq> set (map lo_id (side_orders levels)) \<and>
     lv_price ` set levels' \<subseteq> lv_price ` set levels"

context price_priority
begin

lemma execute_market_sell_report:
  assumes ok: "side_ok cmp levels" and size: "ms_base_size order < 2 ^ 64"
    and conv: "converts (ms_base_size order) P prec" and P: "\<forall>lv\<in>set levels. lv_price lv \<le> P"
  shows "\<exists>r levels'. execute_market_sell_order levels order prec = Some (r, levels') \<and>
    side_ok cmp levels' \<and> sell_report prec levels order r levels'"
proof -
  define own where "own = (\<lambda>lo :: limit_order. lo_account lo = co_account (ms_common order))"
  define st where "st = \<lparr>se_remaining = ms_base_size order, se_quote_lots_in = 0, se_self_fill = 0,
          se_residual = None, se_last_price = None, se_drain = 0, se_cancelled = 0\<rparr>"
  have "sell_room prec P st" using size conv by (auto simp: sell_room_def converts_def st_def)
  from sell_loop_outcome [OF ok P this, of "co_account (ms_common order)" "[]"] obtain levels' F' st' where
    run: "sell_loop (co_account (ms_common order)) prec levels [] st = Some (levels', F', st')"
    and out: "sell_outcome cmp own prec levels [] st levels' F' st'"
    unfolding own_def by blast
  obtain fills rest q where m: "match_orders own (\<lambda>_. True) (ms_base_size order) (priority levels) = (fills, rest, q)"
    by (cases "match_orders own (\<lambda>_. True) (ms_base_size order) (priority levels)")
  have sum: "base_sum (traded own fills) + base_sum (selfed own fills) + q = ms_base_size order"
    using match_orders_sum [of own "\<lambda>_. True" "ms_base_size order" "priority levels"] traded_selfed_sum [of own fills]
    by (simp add: m)
  have rem: "se_remaining st' = q" "se_self_fill st' = base_sum (selfed own fills)"
    using out m by (simp_all add: sell_outcome_def st_def)
  have base: "ms_base_size order - q - base_sum (selfed own fills) = base_sum (traded own fills)"
    "q \<le> ms_base_size order" "base_sum (selfed own fills) \<le> ms_base_size order - q" using sum by simp_all
  define r where "r = \<lparr>sr_order_id = co_id (ms_common order), sr_base_filled_lots = base_sum (traded own fills),
    sr_quote_lots_in = se_quote_lots_in st', sr_self_fill = se_self_fill st', sr_filled_orders = F',
    sr_residual_order = se_residual st', sr_last_executed_price = se_last_price st'\<rparr>"
  have "execute_market_sell_order levels order prec = Some (r, levels')"
    using run base rem by (simp add: execute_market_sell_order_def st_def r_def)
  moreover have "side_ok cmp levels'" using out by (auto simp: sell_outcome_def)
  moreover have "sell_report prec levels order r levels'"
    using out rem sum m
    unfolding sell_report_def sell_outcome_def own_def [symmetric]
    by (simp add: r_def st_def split: option.splits)
  ultimately show ?thesis by blast
qed

end

text \<open>A market sell against sorted bids returns when its size converts at the price of every level.\<close>

lemma market_sell_report_bids:
  assumes ok: "side_ok cmp_bid levels" and size: "ms_base_size order < 2 ^ 64"
    and conv: "\<forall>lv\<in>set levels. converts (ms_base_size order) (lv_price lv) prec"
  shows "\<exists>r levels'. execute_market_sell_order levels order prec = Some (r, levels') \<and>
    side_ok cmp_bid levels' \<and> sell_report prec levels order r levels'"
proof (cases "levels = []")
  case True
  then show ?thesis
    by (simp add: execute_market_sell_order_def sell_loop.simps sell_report_def side_ok_def levels_sorted_def checked_sub_def
        partial_fill_def full_fills_def)
next
  case False
  then show ?thesis
    using bid_cmp.execute_market_sell_report [OF ok size, of "lv_price (last levels)" prec] conv last_bid_greatest [OF ok] by simp
qed

end
