(* ===== verification/Market_Buys.thy ===== *)
theory Market_Buys
  imports Market_Sells
begin

text \<open>
  The loops of market buys, whose size is a quote amount.  At each level the remaining quote is
  converted to base lots at the level's price; the fills of all levels account for every lot the buy
  reports, and their quote lots never exceed the size.
\<close>

section \<open>The outer loop\<close>

definition quote_cost :: "market_precision \<Rightarrow> fills \<Rightarrow> nat" where
  "quote_cost prec fs = (\<Sum>(lo, q)\<leftarrow>fs. quote_lots prec q (lo_price_multiple lo))"

lemma quote_cost_simps [simp]:
  "quote_cost prec [] = 0" "quote_cost prec (fs @ gs) = quote_cost prec fs + quote_cost prec gs"
  "quote_cost prec (f # fs) = quote_lots prec (snd f) (lo_price_multiple (fst f)) + quote_cost prec fs"
  by (simp_all add: quote_cost_def case_prod_beta)

lemma level_quote_cost:
  "\<forall>(lo, q)\<in>set fs. lo_price_multiple lo = p \<Longrightarrow> level_quote prec p fs = quote_cost prec fs"
  by (induction fs) (auto simp: case_prod_beta)

lemma traded_selfed_cost:
  "quote_cost prec (traded own fs) + quote_cost prec (selfed own fs) = quote_cost prec fs"
  by (induction fs) auto

definition buy_fills ::
  "(limit_order \<Rightarrow> bool) \<Rightarrow> market_precision \<Rightarrow> level list \<Rightarrow> buy_state \<Rightarrow> buy_state \<Rightarrow> fills \<Rightarrow> bool" where
  "buy_fills own prec levels st st' fs \<longleftrightarrow>
     be_base_lots_in st' = be_base_lots_in st + base_sum (traded own fs) \<and>
     be_self_fill st' = be_self_fill st + quote_cost prec (selfed own fs) \<and>
     be_remaining_quote st = be_remaining_quote st' + quote_cost prec fs \<and>
     (\<forall>(lo, q)\<in>set fs. lo \<in> set (side_orders levels) \<and> live lo \<and> q \<le> remaining lo)"

lemma buy_fills_nil [simp]: "buy_fills own prec levels st st []"
  by (simp add: buy_fills_def)

lemma buy_level_fills:
  fixes account
  defines "own \<equiv> \<lambda>lo. lo_account lo = account"
  assumes "buy_level_loop account prec (lv_price lv) (lv_orders lv) st = Some (los', st')"
    and "\<forall>lo\<in>set (lv_orders lv). lo_price_multiple lo = lv_price lv" "lv \<in> set levels"
  shows "buy_fills own prec levels st st' (w_fills (walk own (be_remaining_base st) (lv_orders lv)))"
proof -
  define fs where "fs = w_fills (walk own (be_remaining_base st) (lv_orders lv))"
  have st': "st' = buy_after own prec (lv_price lv) (walk own (be_remaining_base st) (lv_orders lv)) st"
    and le: "level_quote prec (lv_price lv) fs \<le> be_remaining_quote st"
    using buy_level_loop_walk [OF assms(2)] by (simp_all add: Let_def own_def fs_def)
  have live: "\<forall>(lo, q)\<in>set fs. lo \<in> set (lv_orders lv) \<and> live lo \<and> q \<le> remaining lo"
    using walk_fills_live [of _ _ own "be_remaining_base st" "lv_orders lv"] by (auto simp: fs_def)
  then have price: "\<forall>(lo, q)\<in>set fs. lo_price_multiple lo = lv_price lv" using assms(3) by auto
  have cost: "level_quote prec (lv_price lv) fs = quote_cost prec fs"
    "level_quote prec (lv_price lv) (selfed own fs) = quote_cost prec (selfed own fs)"
    using price traded_set(2) [of _ own fs] by (auto intro!: level_quote_cost)
  have "\<forall>(lo, q)\<in>set fs. lo \<in> set (side_orders levels)"
    using live assms(4) by (auto simp: side_orders_def)
  with live st' le cost show ?thesis
    unfolding fs_def [symmetric] by (auto simp: buy_fills_def buy_after_def fs_def [symmetric])
qed

lemma buy_loop_fills:
  fixes account
  defines "own \<equiv> \<lambda>lo. lo_account lo = account"
  assumes "buy_loop account prec levels F st = Some (levels', F', st')"
    and "\<forall>lv\<in>set levels. \<forall>lo\<in>set (lv_orders lv). lo_price_multiple lo = lv_price lv"
  shows "\<exists>fs. buy_fills own prec levels st st' fs"
  using assms(2-)
proof (induction levels arbitrary: F st rule: rev_induct)
  case Nil
  then have "st' = st" by (subst (asm) buy_loop.simps) simp
  then show ?case using buy_fills_nil by blast
next
  case (snoc lv levels)
  define b where "b = quote_lots_to_base_lots (be_remaining_quote st) (lv_price lv) prec"
  show ?case
  proof (cases "be_remaining_quote st = 0 \<or> b = Some 0")
    case True
    with snoc.prems(1) have "st' = st"
      by (subst (asm) buy_loop.simps) (auto simp: Let_def b_def split: if_splits)
    then show ?thesis using buy_fills_nil by blast
  next
    case go: False
    obtain n where n: "b = Some n" "n \<noteq> 0"
      using go snoc.prems(1) by (subst (asm) buy_loop.simps) (auto simp: Let_def b_def bind_eq_Some_conv)
    define st0 where "st0 = st\<lparr>be_remaining_base := n, be_level_filled := 0, be_drain := 0, be_cancelled := 0\<rparr>"
    obtain los st1 where lp: "buy_level_loop account prec (lv_price lv) (lv_orders lv) st0 = Some (los, st1)"
      using go n snoc.prems(1)
      by (subst (asm) buy_loop.simps) (auto simp: Let_def b_def st0_def bind_eq_Some_conv)
    define fs where "fs = w_fills (walk own (be_remaining_base st0) (lv_orders lv))"
    have first: "buy_fills own prec (levels @ [lv]) st st1 fs"
      using buy_level_fills [OF lp, of "levels @ [lv]"] snoc.prems(2)
      by (simp add: fs_def own_def st0_def buy_fills_def)
    show ?thesis
    proof (cases "be_drain st1 < length los")
      case True
      with go n lp snoc.prems(1) have "st' = st1"
        by (subst (asm) buy_loop.simps) (auto simp: Let_def b_def st0_def bind_eq_Some_conv)
      with first show ?thesis by blast
    next
      case False
      with go n lp snoc.prems(1) have "buy_loop account prec levels (F @ los) st1 = Some (levels', F', st')"
        by (subst (asm) buy_loop.simps) (simp add: Let_def b_def st0_def)
      from snoc.IH [OF this] snoc.prems(2) obtain gs where "buy_fills own prec levels st1 st' gs" by auto
      with first have "buy_fills own prec (levels @ [lv]) st st' (fs @ gs)"
        by (auto simp: buy_fills_def)
      then show ?thesis by blast
    qed
  qed
qed

text \<open>What \<open>execute_market_buy_order\<close> promises of the lots it reports.\<close>

lemma execute_market_buy_fills:
  fixes order
  defines "own \<equiv> \<lambda>lo. lo_account lo = co_account (mb_common order)"
  assumes "execute_market_buy_order levels order prec = Some (r, levels')"
    and "\<forall>lv\<in>set levels. \<forall>lo\<in>set (lv_orders lv). lo_price_multiple lo = lv_price lv"
  shows "\<exists>fs. br_base_lots_in r = base_sum (traded own fs) \<and>
    br_quote_filled_lots r = quote_cost prec (traded own fs) \<and>
    br_self_fill r = quote_cost prec (selfed own fs) \<and>
    br_quote_filled_lots r + br_self_fill r \<le> mb_quote_size order \<and>
    (\<forall>(lo, q)\<in>set fs. lo \<in> set (side_orders levels) \<and> live lo \<and> q \<le> remaining lo)"
proof -
  define st where "st = \<lparr>be_remaining_quote = mb_quote_size order, be_remaining_base = 0,
          be_base_lots_in = 0, be_self_fill = 0, be_level_filled = 0, be_residual = None,
          be_last_price = None, be_drain = 0, be_cancelled = 0\<rparr>"
  obtain F st' where run: "buy_loop (co_account (mb_common order)) prec levels [] st = Some (levels', F, st')"
    and r: "br_base_lots_in r = be_base_lots_in st'" "br_self_fill r = be_self_fill st'"
      "br_quote_filled_lots r = mb_quote_size order - be_remaining_quote st' - be_self_fill st'"
    using assms(2) by (auto simp: execute_market_buy_order_def st_def bind_eq_Some_conv checked_sub_def split: if_splits)
  obtain fs where fs: "buy_fills own prec levels st st' fs"
    using buy_loop_fills [OF run assms(3)] by (auto simp: own_def)
  have "quote_cost prec fs = quote_cost prec (traded own fs) + quote_cost prec (selfed own fs)"
    by (simp add: traded_selfed_cost)
  with fs r show ?thesis by (intro exI [of _ fs]) (auto simp: buy_fills_def st_def)
qed

end
