(* ===== verification/Book_Sanity.thy ===== *)
theory Book_Sanity
  imports Market
begin

text \<open>
  The structure of a book that holds whatever the sizes are: levels sorted by price, orders filed
  under their price and in the order of their ids, no id twice, and the best bid below the best ask.
  Unlike \<open>market_ok\<close> it says nothing of volumes, so every operation keeps it whenever it returns.  The
  matching loops and the cancellation only take orders out of a side, which is the relation
  \<open>side_sub\<close>; adding an order with a new id is the only way in.
\<close>

section \<open>The structural invariant\<close>

definition okey :: "limit_order \<Rightarrow> order_id \<times> nat" where
  "okey lo = (lo_id lo, lo_price_multiple lo)"

definition level_sub :: "level \<Rightarrow> level \<Rightarrow> bool" where
  "level_sub lv' lv \<longleftrightarrow>
     lv_price lv' = lv_price lv \<and> subseq (map okey (lv_orders lv')) (map okey (lv_orders lv))"

definition side_sub :: "level list \<Rightarrow> level list \<Rightarrow> bool" where
  "side_sub levels' levels \<longleftrightarrow> list_emb level_sub levels' levels"

definition level_sane :: "level \<Rightarrow> bool" where
  "level_sane lv \<longleftrightarrow>
     (\<forall>lo\<in>set (lv_orders lv). lo_price_multiple lo = lv_price lv) \<and> sorted_wrt (<) (map lo_id (lv_orders lv))"

definition side_sane :: "(nat \<Rightarrow> nat \<Rightarrow> ordering) \<Rightarrow> level list \<Rightarrow> bool" where
  "side_sane cmp levels \<longleftrightarrow> levels_sorted cmp levels \<and> (\<forall>lv\<in>set levels. level_sane lv)"

definition market_sane :: "spot_market \<Rightarrow> bool" where
  "market_sane m \<longleftrightarrow>
     side_sane cmp_bid (sm_bids_levels m) \<and> side_sane cmp_ask (sm_asks_levels m) \<and>
     distinct (map lo_id (market_orders m)) \<and> uncrossed m"

lemma okey_update [simp]:
  "okey (lo\<lparr>lo_filled_base_lots := x\<rparr>) = okey lo" "okey (lo\<lparr>lo_self_filled := x\<rparr>) = okey lo"
  "okey (set_status st lo) = okey lo" "okey (mark_id k lo) = okey lo"
  by (simp_all add: okey_def)

lemma map_fst_okey: "map fst (map okey los) = map lo_id los"
  by (simp add: okey_def)

section \<open>Taking orders out\<close>

lemma level_sub_refl [simp]: "level_sub lv lv"
  by (simp add: level_sub_def)

lemma level_sub_trans: "\<lbrakk>level_sub a b; level_sub b c\<rbrakk> \<Longrightarrow> level_sub a c"
  by (auto simp: level_sub_def intro: subseq_order.trans)

lemma side_sub_refl [simp]: "side_sub levels levels"
  by (simp add: side_sub_def list_emb_refl)

lemma side_sub_trans: "\<lbrakk>side_sub a b; side_sub b c\<rbrakk> \<Longrightarrow> side_sub a c"
  unfolding side_sub_def by (erule (1) list_emb_trans [rotated 1]) (blast intro: level_sub_trans)

lemma side_sub_butlast: "side_sub (butlast levels) levels"
proof (cases levels rule: rev_cases)
  case (snoc ys y)
  then show ?thesis by (simp add: side_sub_def list_emb_prefix list_emb_refl)
qed simp

lemma side_sub_last:
  assumes "levels \<noteq> []" "level_sub lv (last levels)"
  shows "side_sub (butlast levels @ [lv]) levels"
proof -
  have "list_emb level_sub (butlast levels @ [lv]) (butlast levels @ [last levels])"
    using assms(2) by (intro list_emb_append_mono list_emb_refl list_emb_Cons2) simp_all
  with assms(1) show ?thesis by (simp add: side_sub_def)
qed

lemma side_sub_prices: "side_sub levels' levels \<Longrightarrow> subseq (map lv_price levels') (map lv_price levels)"
  unfolding side_sub_def by (induction rule: list_emb.induct) (auto simp: level_sub_def)

lemma side_sub_keys:
  "side_sub levels' levels \<Longrightarrow> subseq (map okey (side_orders levels')) (map okey (side_orders levels))"
  unfolding side_sub_def
  by (induction rule: list_emb.induct) (auto simp: level_sub_def intro: list_emb_append_mono)

lemma side_sub_ids:
  "side_sub levels' levels \<Longrightarrow> subseq (map lo_id (side_orders levels')) (map lo_id (side_orders levels))"
  using subseq_map [OF side_sub_keys, of levels' levels fst] by (simp only: map_fst_okey)

lemma level_sub_sane:
  assumes "level_sub lv' lv" "level_sane lv"
  shows "level_sane lv'"
proof -
  have sub: "subseq (map okey (lv_orders lv')) (map okey (lv_orders lv))" and p: "lv_price lv' = lv_price lv"
    using assms(1) by (simp_all add: level_sub_def)
  have "subseq (map lo_id (lv_orders lv')) (map lo_id (lv_orders lv))"
    using subseq_map [OF sub, of fst] by (simp only: map_fst_okey)
  moreover have "snd ` set (map okey (lv_orders lv')) \<subseteq> snd ` set (map okey (lv_orders lv))"
    using subseq_set [OF sub] by blast
  ultimately show ?thesis
    using assms(2) p subseq_sorted_wrt by (fastforce simp: level_sane_def okey_def image_image)
qed

lemma side_sub_sane: "\<lbrakk>side_sub levels' levels; side_sane cmp levels\<rbrakk> \<Longrightarrow> side_sane cmp levels'"
proof -
  assume sub: "side_sub levels' levels" and sane: "side_sane cmp levels"
  have "\<forall>lv'\<in>set levels'. \<exists>lv\<in>set levels. level_sub lv' lv"
    using sub unfolding side_sub_def by (induction rule: list_emb.induct) auto
  then show "side_sane cmp levels'"
    using sane side_sub_prices [OF sub] level_sub_sane
    by (fastforce simp: side_sane_def levels_sorted_def intro: subseq_sorted_wrt)
qed

section \<open>The matching loops take orders out\<close>

lemma limit_level_loop_keys:
  assumes "limit_level_loop is_buy prec p los st = Some (los', st')"
  shows "map okey los' = map okey los \<and> (le_remaining st' = 0 \<or> le_drain st' = le_drain st + length los)"
  using assms
proof (induction los arbitrary: st los')
  case (Cons lo los)
  note [simp] = Let_def
  show ?case
  proof (cases "lo_status lo = Cancelled")
    case True
    with Cons.prems Cons.IH show ?thesis by (fastforce simp: checked)
  next
    case False
    with Cons.prems obtain r where r: "get_order_remaining lo = Some r"
      by (auto simp: bind_eq_Some_conv)
    show ?thesis
    proof (cases "r < le_remaining st")
      case True
      with Cons.prems False r obtain los1 st1 where
        "limit_level_loop is_buy prec p los st1 = Some (los1, st')" "los' = lo # los1"
        "le_drain st1 = le_drain st + 1"
        by (auto simp: bind_eq_Some_conv checked_sub_def)
      with Cons.IH [OF this(1)] show ?thesis by simp
    next
      case le: False
      with Cons.prems False r show ?thesis
        by (auto simp: bind_eq_Some_conv checked_sub_def split: if_splits)
    qed
  qed
qed simp

lemma walk_keys: "map okey (w_done (walk own q los) @ w_rest (walk own q los)) = map okey los"
  by (induction los arbitrary: q) (auto simp: Let_def consume_def finish_def okey_def)

lemma sell_level_loop_keys:
  "sell_level_loop account prec p los st = Some (los', st') \<Longrightarrow> map okey los' = map okey los"
  by (drule sell_level_loop_walk) (simp add: Let_def walk_keys [unfolded map_append])

lemma buy_level_loop_keys:
  "buy_level_loop account prec p los st = Some (los', st') \<Longrightarrow> map okey los' = map okey los"
  by (drule buy_level_loop_walk) (simp add: Let_def walk_keys [unfolded map_append])

text \<open>The last level after a loop has drained the first \<open>n\<close> of its orders.\<close>

lemma drained_level_sub:
  assumes "map okey los = map okey (lv_orders lv)" "lv_price lv' = lv_price lv" "lv_orders lv' = drop n los"
  shows "level_sub lv' lv"
proof -
  have "map okey (drop n los) = drop n (map okey (lv_orders lv))"
    using assms(1) by (simp add: drop_map [symmetric])
  with assms show ?thesis by (simp add: level_sub_def suffix_drop suffix_imp_subseq)
qed

lemma drained_side_sub:
  assumes "levels \<noteq> []" "map okey los = map okey (lv_orders (last levels))"
  shows "side_sub (butlast levels @ [(last levels)\<lparr>lv_orders := drop n los, lv_volume := v, lv_cancelled := c\<rparr>]) levels"
  using side_sub_last [OF assms(1)] drained_level_sub [OF assms(2)] by simp

lemma limit_loop_sub:
  assumes "limit_loop cmp price is_buy prec levels filled st = Some (levels', filled', st')"
  shows "side_sub levels' levels \<and>
    (le_remaining st' = 0 \<or> levels' = [] \<or> cmp price (lv_price (last levels')) = Greater)"
  using assms
proof (induction cmp price is_buy prec levels filled st rule: limit_loop.induct)
  case (1 cmp price is_buy prec levels filled st)
  show ?case
  proof (cases "levels = [] \<or> le_remaining st = 0 \<or> cmp price (lv_price (last levels)) = Greater")
    case True
    with 1(2) show ?thesis by (auto simp: limit_loop.simps [of _ _ _ _ levels] split: if_splits)
  next
    case go: False
    define lv where "lv = last levels"
    define st0 where "st0 = st\<lparr>le_drain := 0, le_cancelled := 0\<rparr>"
    obtain orders st1 where lp: "limit_level_loop is_buy prec (lv_price lv) (lv_orders lv) st0 = Some (orders, st1)"
      using go 1(2) by (auto simp: limit_loop.simps [of _ _ _ _ levels] lv_def st0_def Let_def bind_eq_Some_conv)
    note keys = limit_level_loop_keys [OF lp]
    have len: "length orders = length (lv_orders lv)" using keys by (metis length_map)
    show ?thesis
    proof (cases "le_drain st1 < length orders")
      case True
      then have "le_remaining st1 = 0" using keys len by (simp add: st0_def)
      moreover obtain lv' where "levels' = butlast levels @ [lv']" "lv_price lv' = lv_price lv"
        "lv_orders lv' = drop (le_drain st1) orders" "st' = st1"
        using go 1(2) lp True
        by (auto simp: limit_loop.simps [of _ _ _ _ levels] lv_def st0_def Let_def bind_eq_Some_conv)
      ultimately show ?thesis
        using go keys side_sub_last [of levels lv'] drained_level_sub [of orders lv lv'] by (simp add: lv_def)
    next
      case False
      have "limit_loop cmp price is_buy prec (butlast levels) (filled @ orders) st1 = Some (levels', filled', st')"
        using go 1(2) lp False by (simp add: limit_loop.simps [of _ _ _ _ levels] lv_def st0_def Let_def)
      moreover have "0 < le_remaining st" "levels \<noteq> []" using go by auto
      ultimately show ?thesis
        using 1(1) [of lv "le_remaining st" "(orders, st1)" orders st1] go False lp side_sub_butlast [of levels]
        by (auto simp: lv_def st0_def intro: side_sub_trans)
    qed
  qed
qed

lemma sell_loop_sub:
  "sell_loop account prec levels filled st = Some (levels', filled', st') \<Longrightarrow> side_sub levels' levels"
proof (induction account prec levels filled st rule: sell_loop.induct)
  case (1 account prec levels filled st)
  show ?case
  proof (cases "levels = [] \<or> se_remaining st = 0")
    case True
    with 1(2) show ?thesis by (auto simp: sell_loop.simps [of _ _ levels])
  next
    case go: False
    define lv where "lv = last levels"
    define st0 where "st0 = st\<lparr>se_drain := 0, se_cancelled := 0\<rparr>"
    obtain orders st1 where lp: "sell_level_loop account prec (lv_price lv) (lv_orders lv) st0 = Some (orders, st1)"
      using go 1(2) by (auto simp: sell_loop.simps [of _ _ levels] lv_def st0_def Let_def bind_eq_Some_conv)
    note keys = sell_level_loop_keys [OF lp]
    show ?thesis
    proof (cases "se_drain st1 < length orders")
      case True
      with go 1(2) lp keys show ?thesis
        by (auto simp: sell_loop.simps [of _ _ levels] lv_def st0_def Let_def bind_eq_Some_conv
            intro: drained_side_sub)
    next
      case False
      with go 1(2) lp have "sell_loop account prec (butlast levels) (filled @ orders) st1 = Some (levels', filled', st')"
        by (simp add: sell_loop.simps [of _ _ levels] lv_def st0_def Let_def)
      with 1(1) [of lv "se_remaining st" "(orders, st1)" orders st1] go False lp show ?thesis
        by (auto simp: lv_def st0_def intro: side_sub_trans side_sub_butlast)
    qed
  qed
qed

lemma buy_loop_sub:
  "buy_loop account prec levels filled st = Some (levels', filled', st') \<Longrightarrow> side_sub levels' levels"
proof (induction account prec levels filled st rule: buy_loop.induct)
  case (1 account prec levels filled st)
  show ?case
  proof (cases "levels = [] \<or> be_remaining_quote st = 0 \<or>
      quote_lots_to_base_lots (be_remaining_quote st) (lv_price (last levels)) prec = Some 0")
    case True
    with 1(2) show ?thesis by (auto simp: buy_loop.simps [of _ _ levels] Let_def split: if_splits)
  next
    case go: False
    define lv where "lv = last levels"
    obtain b where b: "quote_lots_to_base_lots (be_remaining_quote st) (lv_price lv) prec = Some b" "b \<noteq> 0"
      using go 1(2) by (auto simp: buy_loop.simps [of _ _ levels] lv_def Let_def bind_eq_Some_conv)
    define st0 where "st0 = st\<lparr>be_remaining_base := b, be_level_filled := 0, be_drain := 0, be_cancelled := 0\<rparr>"
    obtain orders st1 where lp: "buy_level_loop account prec (lv_price lv) (lv_orders lv) st0 = Some (orders, st1)"
      using go b 1(2) by (auto simp: buy_loop.simps [of _ _ levels] lv_def st0_def Let_def bind_eq_Some_conv)
    note keys = buy_level_loop_keys [OF lp]
    show ?thesis
    proof (cases "be_drain st1 < length orders")
      case True
      with go b 1(2) lp keys show ?thesis
        by (auto simp: buy_loop.simps [of _ _ levels] lv_def st0_def Let_def bind_eq_Some_conv
            intro: drained_side_sub)
    next
      case False
      with go b 1(2) lp have "buy_loop account prec (butlast levels) (filled @ orders) st1 = Some (levels', filled', st')"
        by (simp add: buy_loop.simps [of _ _ levels] lv_def st0_def Let_def)
      with 1(1) [of lv b "(orders, st1)" orders st1] go b False lp show ?thesis
        by (auto simp: lv_def st0_def intro: side_sub_trans side_sub_butlast)
    qed
  qed
qed

section \<open>Cancelling takes orders out\<close>

lemma cancel_in_level_sub:
  assumes "level_sane lv" "cancel_in_level lv lo = Some (u, lv_opt)"
  shows "\<forall>lv'. lv_opt = Some lv' \<longrightarrow> level_sub lv' lv"
proof -
  have sorted: "sorted_wrt (<) (map lo_id (lv_orders lv))" using assms(1) by (simp add: level_sane_def)
  then have dist: "distinct (map lo_id (lv_orders lv))" by (simp add: strict_sorted_iff)
  define marked where "marked = map (mark_id (lo_id lo)) (lv_orders lv)"
  have m: "mark_order_as_cancelled (lv_orders lv) lo =
      Some (\<exists>x\<in>set (lv_orders lv). lo_id x = lo_id lo \<and> live x, marked)"
    using mark_order_as_cancelled_linear [OF sorted] mark_linear_map [OF dist] by (simp add: marked_def)
  have keys: "map okey marked = map okey (lv_orders lv)" by (simp add: marked_def)
  have "subseq (map okey (filter P marked)) (map okey marked)" for P
    by (simp add: subseq_map subseq_filter_left)
  with keys m assms(2) show ?thesis
    by (auto simp: cancel_in_level_def level_sub_def bind_eq_Some_conv Let_def split: if_splits)
qed

lemma book_cancel_sub:
  "\<lbrakk>\<forall>lv\<in>set levels. level_sane lv; book_cancel levels lo = Some (u, levels')\<rbrakk> \<Longrightarrow> side_sub levels' levels"
proof (induction levels arbitrary: levels')
  case (Cons lv levels)
  have tl: "side_sub levels (lv # levels)" by (simp add: side_sub_def list_emb_refl list_emb_Cons)
  show ?case
  proof (cases "lo_price_multiple lo = lv_price lv")
    case True
    then obtain lvo where "cancel_in_level lv lo = Some (u, lvo)"
      "levels' = (case lvo of None \<Rightarrow> levels | Some lv' \<Rightarrow> lv' # levels)"
      using Cons.prems by (auto simp: bind_eq_Some_conv)
    with cancel_in_level_sub [of lv lo u lvo] Cons.prems tl show ?thesis
      by (auto simp: side_sub_def list_emb_refl split: option.splits)
  next
    case False
    with Cons show ?thesis by (auto simp: bind_eq_Some_conv side_sub_def)
  qed
qed (simp add: side_sub_def)

section \<open>Putting an order in\<close>

definition ids_below :: "level list \<Rightarrow> order_id \<Rightarrow> bool" where
  "ids_below levels n \<longleftrightarrow> (\<forall>x\<in>set (side_orders levels). lo_id x < n)"

lemma ids_below_sub: "\<lbrakk>side_sub levels' levels; ids_below levels n\<rbrakk> \<Longrightarrow> ids_below levels' n"
  using subseq_set [OF side_sub_ids, of levels' levels] by (auto simp: ids_below_def)

lemma ids_below_mono: "\<lbrakk>ids_below levels n; n \<le> k\<rbrakk> \<Longrightarrow> ids_below levels k"
  by (auto simp: ids_below_def)

lemma book_insert_level_sane:
  assumes "\<forall>lv\<in>set levels. level_sane lv" "ids_below levels (lo_id lo)"
    and "book_insert cmp levels lo = Some levels'"
  shows "\<forall>lv\<in>set levels'. level_sane lv"
  using assms
proof (induction levels arbitrary: levels')
  case Nil
  then show ?case by (auto simp: new_level_def level_sane_def bind_eq_Some_conv)
next
  case (Cons lv levels)
  have "level_sane lv'" if "push_order lv lo = Some lv'" "lo_price_multiple lo = lv_price lv" for lv'
    using that Cons.prems(1,2)
    by (auto simp: push_order_def level_sane_def ids_below_def bind_eq_Some_conv sorted_wrt_append)
  moreover have "level_sane lv'" if "new_level lo = Some lv'" for lv'
    using that by (auto simp: new_level_def level_sane_def bind_eq_Some_conv)
  moreover have "ids_below levels (lo_id lo)" using Cons.prems(2) by (auto simp: ids_below_def)
  ultimately show ?case
    using Cons.prems Cons.IH by (auto simp: bind_eq_Some_conv split: if_splits)
qed

context price_priority
begin

lemma add_order_sane:
  assumes "side_sane cmp levels" "ids_below levels (lo_id lo)"
    and "add_order_with_cmp cmp levels lo = Some levels'"
  shows "side_sane cmp levels'" "ids_below levels' (Suc (lo_id lo))"
    and "lv_price ` set levels' = insert (lo_price_multiple lo) (lv_price ` set levels)"
    and "mset (side_orders levels') = add_mset lo (mset (side_orders levels))"
proof -
  have ins: "book_insert cmp levels lo = Some levels'"
    using assms add_order_with_cmp_insert by (simp add: side_sane_def)
  show "side_sane cmp levels'"
    using assms(1) book_insert_sorted [OF _ ins] book_insert_level_sane [OF _ assms(2) ins]
    by (simp add: side_sane_def)
  show "lv_price ` set levels' = insert (lo_price_multiple lo) (lv_price ` set levels)"
    by (rule book_insert_prices [OF ins])
  show ms: "mset (side_orders levels') = add_mset lo (mset (side_orders levels))"
    by (rule book_insert_orders [OF ins])
  then have "set (side_orders levels') = insert lo (set (side_orders levels))"
    by (metis set_mset_add_mset_insert set_mset_mset)
  with assms(2) show "ids_below levels' (Suc (lo_id lo))" by (auto simp: ids_below_def less_Suc_eq)
qed

lemma cancel_order_sub:
  "\<lbrakk>side_sane cmp levels; cancel_order_with_cmp cmp levels lo = Some (u, levels')\<rbrakk> \<Longrightarrow> side_sub levels' levels"
  by (simp add: side_sane_def cancel_order_with_cmp_cancel book_cancel_sub)

end

section \<open>Markets\<close>

definition market_ids_below :: "spot_market \<Rightarrow> order_id \<Rightarrow> bool" where
  "market_ids_below m n \<longleftrightarrow> ids_below (sm_bids_levels m) n \<and> ids_below (sm_asks_levels m) n"

lemma market_ids_below_mono: "\<lbrakk>market_ids_below m n; n \<le> k\<rbrakk> \<Longrightarrow> market_ids_below m k"
  by (auto simp: market_ids_below_def intro: ids_below_mono)

text \<open>Replacing the two sides by parts of them.\<close>

lemma market_sub_sane:
  assumes "market_sane m" "side_sub (sm_bids_levels m') (sm_bids_levels m)"
    and "side_sub (sm_asks_levels m') (sm_asks_levels m)"
  shows "market_sane m'" "market_ids_below m n \<Longrightarrow> market_ids_below m' n"
proof -
  have "subseq (map lo_id (market_orders m')) (map lo_id (market_orders m))"
    using list_emb_append_mono [OF side_sub_ids [OF assms(2)] side_sub_ids [OF assms(3)]]
    by (simp add: market_orders_def)
  then have "distinct (map lo_id (market_orders m'))"
    using assms(1) by (auto simp: market_sane_def intro: subseq_distinct)
  moreover have "lv_price ` set (sm_bids_levels m') \<subseteq> lv_price ` set (sm_bids_levels m)"
    "lv_price ` set (sm_asks_levels m') \<subseteq> lv_price ` set (sm_asks_levels m)"
    using subseq_set [OF side_sub_prices [OF assms(2)]] subseq_set [OF side_sub_prices [OF assms(3)]]
    by simp_all
  then have "uncrossed m'"
    using assms(1) unfolding market_sane_def uncrossed_def by (meson subsetD)
  ultimately show "market_sane m'"
    using assms side_sub_sane by (auto simp: market_sane_def)
  show "market_ids_below m n \<Longrightarrow> market_ids_below m' n"
    using assms by (auto simp: market_ids_below_def intro: ids_below_sub)
qed

lemma inserted_distinct:
  assumes "mset (market_orders m') = add_mset lo (mset (market_orders m))" "market_sane m"
    and "market_ids_below m (lo_id lo)"
  shows "distinct (map lo_id (market_orders m'))"
proof -
  have "mset (map lo_id (market_orders m')) = mset (lo_id lo # map lo_id (market_orders m))"
    using assms(1) by simp
  moreover have "lo_id lo \<notin> set (map lo_id (market_orders m))"
    using assms(3) by (force simp: market_ids_below_def ids_below_def market_orders_def)
  then have "distinct (lo_id lo # map lo_id (market_orders m))"
    using assms(2) by (simp add: market_sane_def)
  ultimately show ?thesis by (metis mset_eq_imp_distinct_iff)
qed

lemma add_bid_sane:
  assumes "market_sane m" "market_ids_below m (lo_id lo)" "add_bid m lo = Some m'"
    and "\<forall>a\<in>lv_price ` set (sm_asks_levels m). lo_price_multiple lo < a"
  shows "market_sane m'" "market_ids_below m' (Suc (lo_id lo))"
proof -
  obtain levels where l: "add_order_with_cmp cmp_bid (sm_bids_levels m) lo = Some levels"
    and m': "m' = m\<lparr>sm_bids_levels := levels\<rparr>"
    using assms(3) by (auto simp: add_bid_def bind_eq_Some_conv)
  have side: "side_sane cmp_bid (sm_bids_levels m)" and below: "ids_below (sm_bids_levels m) (lo_id lo)"
    using assms by (simp_all add: market_sane_def market_ids_below_def)
  note ins = bid_cmp.add_order_sane [OF side below l]
  have "distinct (map lo_id (market_orders m'))"
    using inserted_distinct [OF _ assms(1,2), of m'] ins(4) by (simp add: m' market_orders_def)
  with assms ins show "market_sane m'" by (auto simp: m' market_sane_def uncrossed_def)
  show "market_ids_below m' (Suc (lo_id lo))"
    using assms(2) ins(2) by (auto simp: m' market_ids_below_def intro: ids_below_mono)
qed

lemma add_ask_sane:
  assumes "market_sane m" "market_ids_below m (lo_id lo)" "add_ask m lo = Some m'"
    and "\<forall>b\<in>lv_price ` set (sm_bids_levels m). b < lo_price_multiple lo"
  shows "market_sane m'" "market_ids_below m' (Suc (lo_id lo))"
proof -
  obtain levels where l: "add_order_with_cmp cmp_ask (sm_asks_levels m) lo = Some levels"
    and m': "m' = m\<lparr>sm_asks_levels := levels\<rparr>"
    using assms(3) by (auto simp: add_ask_def bind_eq_Some_conv)
  have side: "side_sane cmp_ask (sm_asks_levels m)" and below: "ids_below (sm_asks_levels m) (lo_id lo)"
    using assms by (simp_all add: market_sane_def market_ids_below_def)
  note ins = ask_cmp.add_order_sane [OF side below l]
  have "distinct (map lo_id (market_orders m'))"
    using inserted_distinct [OF _ assms(1,2), of m'] ins(4) by (simp add: m' market_orders_def)
  with assms ins show "market_sane m'" by (auto simp: m' market_sane_def uncrossed_def)
  show "market_ids_below m' (Suc (lo_id lo))"
    using assms(2) ins(2) by (auto simp: m' market_ids_below_def intro: ids_below_mono)
qed

lemma last_ask_least_sane:
  assumes "side_sane cmp_ask levels" "lv \<in> set levels"
  shows "lv_price (last levels) \<le> lv_price lv"
proof (cases levels rule: rev_cases)
  case (snoc ys y)
  with assms show ?thesis
    by (fastforce simp: side_sane_def levels_sorted_def sorted_wrt_append intro: less_imp_le)
qed (use assms in simp)

lemma last_bid_greatest_sane:
  assumes "side_sane cmp_bid levels" "lv \<in> set levels"
  shows "lv_price lv \<le> lv_price (last levels)"
proof (cases levels rule: rev_cases)
  case (snoc ys y)
  with assms show ?thesis
    by (fastforce simp: side_sane_def levels_sorted_def sorted_wrt_append intro: less_imp_le)
qed (use assms in simp)

lemma best_prices_uncrossed:
  assumes "market_sane m" "get_best_prices m = (Some b, Some a)"
  shows "b < a"
proof -
  have "sm_bids_levels m \<noteq> []" "sm_asks_levels m \<noteq> []"
    "b = lv_price (last (sm_bids_levels m))" "a = lv_price (last (sm_asks_levels m))"
    using assms(2) by (auto simp: get_best_prices_def vec_last_def split: if_splits)
  with assms(1) show ?thesis by (simp add: market_sane_def uncrossed_def)
qed

lemma execute_limit_sub:
  assumes "execute_limit cmp levels lo asset_in asset_out is_buy prec = Some (res, levels', lo')"
  shows "side_sub levels' levels" "okey lo' = okey lo"
    "lo_filled_base_lots lo' < lo_base_lots lo' \<Longrightarrow>
     levels' = [] \<or> cmp (lo_price_multiple lo) (lv_price (last levels')) = Greater"
proof -
  obtain filled st where loop: "limit_loop cmp (lo_price_multiple lo) is_buy prec levels []
      \<lparr>le_remaining = lo_base_lots lo, le_lots_in = 0, le_lots_out = 0, le_residual = None,
       le_last_price = None, le_drain = 0, le_cancelled = 0\<rparr> = Some (levels', filled, st)"
    and lo': "lo' = lo\<lparr>lo_filled_base_lots := lo_base_lots lo - le_remaining st\<rparr>" "le_remaining st \<le> lo_base_lots lo"
    using assms by (auto simp: execute_limit_def bind_eq_Some_conv checked_sub_def split: if_splits)
  note sub = limit_loop_sub [OF loop]
  then show "side_sub levels' levels" by simp
  show "okey lo' = okey lo" by (simp add: lo')
  show "lo_filled_base_lots lo' < lo_base_lots lo' \<Longrightarrow>
     levels' = [] \<or> cmp (lo_price_multiple lo) (lv_price (last levels')) = Greater"
    using sub lo' by auto
qed

lemma add_limit_buy_sane:
  assumes "market_sane m" "market_ids_below m (lo_id lo)"
    and "add_limit_order m lo base quote prec = Some (r, m')" "lo_direction lo = Buy"
  shows "market_sane m' \<and> market_ids_below m' (Suc (lo_id lo))"
proof (cases "sm_asks_levels m \<noteq> [] \<and> lv_price (last (sm_asks_levels m)) \<le> lo_price_multiple lo")
  case True
  then obtain res levels lo' where ex: "execute_limit cmp_ask (sm_asks_levels m) lo base quote True prec =
      Some (res, levels, lo')"
    and rest: "(if lo_filled_base_lots lo' < lo_base_lots lo'
        then add_bid (set_last_executed_price (m\<lparr>sm_asks_levels := levels\<rparr>) (lf_last_executed_price res)) lo'
        else Some (set_last_executed_price (m\<lparr>sm_asks_levels := levels\<rparr>) (lf_last_executed_price res))) = Some m'"
    using assms(3,4) by (auto simp: add_limit_order_def get_best_prices_simps bind_eq_Some_conv Let_def)
  define m1 where "m1 = set_last_executed_price (m\<lparr>sm_asks_levels := levels\<rparr>) (lf_last_executed_price res)"
  note sub = execute_limit_sub [OF ex]
  have id: "lo_id lo' = lo_id lo" "lo_price_multiple lo' = lo_price_multiple lo"
    using sub(2) by (simp_all add: okey_def)
  have m1: "market_sane m1" "market_ids_below m1 (lo_id lo')"
    using market_sub_sane [OF assms(1), of m1] sub(1) assms(2) id by (simp_all add: m1_def)
  show ?thesis
  proof (cases "lo_filled_base_lots lo' < lo_base_lots lo'")
    case True
    have "\<forall>a\<in>lv_price ` set (sm_asks_levels m1). lo_price_multiple lo' < a"
      using sub(3) [OF True] last_ask_least_sane [of "sm_asks_levels m1"] m1(1) id
      by (fastforce simp: m1_def market_sane_def cmp_ask_def split: if_splits)
    with add_bid_sane [OF m1, of m'] rest True id show ?thesis by (simp add: m1_def)
  next
    case False
    with rest m1 id show ?thesis by (auto simp: m1_def intro: market_ids_below_mono)
  qed
next
  case False
  then have "add_bid m lo = Some m'" "\<forall>a\<in>lv_price ` set (sm_asks_levels m). lo_price_multiple lo < a"
    using assms(1,3,4) last_ask_least_sane [of "sm_asks_levels m"]
    by (fastforce simp: add_limit_order_def get_best_prices_simps bind_eq_Some_conv market_sane_def
        split: if_splits)+
  with add_bid_sane [OF assms(1,2)] show ?thesis by blast
qed

lemma add_limit_sell_sane:
  assumes "market_sane m" "market_ids_below m (lo_id lo)"
    and "add_limit_order m lo base quote prec = Some (r, m')" "lo_direction lo = Sell"
  shows "market_sane m' \<and> market_ids_below m' (Suc (lo_id lo))"
proof (cases "sm_bids_levels m \<noteq> [] \<and> lo_price_multiple lo \<le> lv_price (last (sm_bids_levels m))")
  case True
  then obtain res levels lo' where ex: "execute_limit cmp_bid (sm_bids_levels m) lo quote base False prec =
      Some (res, levels, lo')"
    and rest: "(if lo_filled_base_lots lo' < lo_base_lots lo'
        then add_ask (set_last_executed_price (m\<lparr>sm_bids_levels := levels\<rparr>) (lf_last_executed_price res)) lo'
        else Some (set_last_executed_price (m\<lparr>sm_bids_levels := levels\<rparr>) (lf_last_executed_price res))) = Some m'"
    using assms(3,4) by (auto simp: add_limit_order_def get_best_prices_simps bind_eq_Some_conv Let_def)
  define m1 where "m1 = set_last_executed_price (m\<lparr>sm_bids_levels := levels\<rparr>) (lf_last_executed_price res)"
  note sub = execute_limit_sub [OF ex]
  have id: "lo_id lo' = lo_id lo" "lo_price_multiple lo' = lo_price_multiple lo"
    using sub(2) by (simp_all add: okey_def)
  have m1: "market_sane m1" "market_ids_below m1 (lo_id lo')"
    using market_sub_sane [OF assms(1), of m1] sub(1) assms(2) id by (simp_all add: m1_def)
  show ?thesis
  proof (cases "lo_filled_base_lots lo' < lo_base_lots lo'")
    case True
    have "\<forall>b\<in>lv_price ` set (sm_bids_levels m1). b < lo_price_multiple lo'"
      using sub(3) [OF True] last_bid_greatest_sane [of "sm_bids_levels m1"] m1(1) id
      by (fastforce simp: m1_def market_sane_def cmp_bid_def split: if_splits)
    with add_ask_sane [OF m1, of m'] rest True id show ?thesis by (simp add: m1_def)
  next
    case False
    with rest m1 id show ?thesis by (auto simp: m1_def intro: market_ids_below_mono)
  qed
next
  case False
  then have "add_ask m lo = Some m'" "\<forall>b\<in>lv_price ` set (sm_bids_levels m). b < lo_price_multiple lo"
    using assms(1,3,4) last_bid_greatest_sane [of "sm_bids_levels m"]
    by (fastforce simp: add_limit_order_def get_best_prices_simps bind_eq_Some_conv market_sane_def
        split: if_splits)+
  with add_ask_sane [OF assms(1,2)] show ?thesis by blast
qed

lemma add_limit_order_sane:
  assumes "market_sane m" "market_ids_below m (lo_id lo)"
    and "add_limit_order m lo base quote prec = Some (r, m')"
  shows "market_sane m'" "market_ids_below m' (Suc (lo_id lo))"
  using add_limit_buy_sane [OF assms] add_limit_sell_sane [OF assms] by (cases "lo_direction lo"; simp)+

lemma handle_market_order_sane:
  assumes "market_sane m" "handle_market_order m order prec = Some (r, m')"
  shows "market_sane m'" "market_ids_below m n \<Longrightarrow> market_ids_below m' n"
proof -
  have "side_sub (sm_bids_levels m') (sm_bids_levels m) \<and> side_sub (sm_asks_levels m') (sm_asks_levels m)"
    using assms(2)
    by (auto simp: handle_market_order_def execute_market_sell_order_def execute_market_buy_order_def
        bind_eq_Some_conv split: market_order.splits intro: sell_loop_sub buy_loop_sub)
  then show "market_sane m'" "market_ids_below m n \<Longrightarrow> market_ids_below m' n"
    using market_sub_sane [OF assms(1)] by blast+
qed

lemma market_cancel_order_sane:
  assumes "market_sane m" "market_cancel_order m lo = Some (u, m')"
  shows "market_sane m'" "market_ids_below m n \<Longrightarrow> market_ids_below m' n"
proof -
  have "side_sub (sm_bids_levels m') (sm_bids_levels m) \<and> side_sub (sm_asks_levels m') (sm_asks_levels m)"
    using assms
    by (auto simp: market_cancel_order_def cancel_bid_def cancel_ask_def market_sane_def bind_eq_Some_conv
        split: order_direction.splits intro: bid_cmp.cancel_order_sub ask_cmp.cancel_order_sub)
  then show "market_sane m'" "market_ids_below m n \<Longrightarrow> market_ids_below m' n"
    using market_sub_sane [OF assms(1)] by blast+
qed

end
