(* ===== verification/Exchange_Properties.thy ===== *)
theory Exchange_Properties
  imports Exchange_Samples Market_Buys Book_Sanity
begin

text \<open>
  The properties of the spot exchange: the binary searches of the order book are linear scans,
  limit orders match by price and time, the market's invariant, the conversions, and the
  conservation of assets by settlement. Each property is followed by its witness.
\<close>

section \<open>Matching\<close>

text \<open>
  C1. A limit order to buy that fits the machine integers is always processed without a panic:
  it is matched against the asks in price and time order up to its limit price, the reported
  lots, filled orders, residual order and last price are those of the reference matching, its
  unfilled remainder joins the bids, and the invariant of the market (sorted uncrossed sides,
  level volumes, distinct ids) is kept.
\<close>

theorem limit_buy_price_time:
  assumes "market_ok m" "fresh_order m lo" "limit_fits m lo prec" "lo_direction lo = Buy"
  shows "\<exists>r m'. add_limit_order m lo base_asset quote_asset prec = Some (r, m') \<and> market_ok m' \<and>
    limit_contract (\<lambda>p. p \<le> lo_price_multiple lo) True prec (sm_bids_levels m) (sm_asks_levels m) lo r
      (sm_bids_levels m') (sm_asks_levels m')"
  by (rule add_limit_buy_ok [OF assms])

theorem limit_buy_price_time_witness:
  "\<exists>r m'. add_limit_order sample_market (sample_order 4 taker_key Buy 11 6) 0 1 unit_precision = Some (r, m') \<and>
    market_ok m' \<and>
    limit_contract (\<lambda>p. p \<le> 11) True unit_precision sample_bids sample_asks
      (sample_order 4 taker_key Buy 11 6) r (sm_bids_levels m') (sm_asks_levels m')"
proof -
  let ?lo = "sample_order 4 taker_key Buy 11 6"
  have "fresh_order sample_market ?lo"
    by (simp add: fresh_order_def enters_def market_orders_def side_defs) (simp add: sample_defs)
  moreover have "limit_fits sample_market ?lo unit_precision"
    by (simp add: limit_fits_def sample_defs converts_def price_den_def price_num_def quote_of_def)
  ultimately show ?thesis
    using limit_buy_price_time [of sample_market ?lo unit_precision 0 1] sample_market_ok
    by (simp add: sample_order_def)
qed

text \<open>
  C3. The same for a limit order to sell, matched against the bids from the highest price down
  to its limit price.
\<close>

theorem limit_sell_price_time:
  assumes "market_ok m" "fresh_order m lo" "limit_fits m lo prec" "lo_direction lo = Sell"
  shows "\<exists>r m'. add_limit_order m lo base_asset quote_asset prec = Some (r, m') \<and> market_ok m' \<and>
    limit_contract (\<lambda>p. lo_price_multiple lo \<le> p) False prec (sm_asks_levels m) (sm_bids_levels m) lo r
      (sm_asks_levels m') (sm_bids_levels m')"
  by (rule add_limit_sell_ok [OF assms])

theorem limit_sell_price_time_witness:
  "\<exists>r m'. add_limit_order sample_market (sample_order 4 taker_key Sell 9 7) 0 1 unit_precision = Some (r, m') \<and>
    market_ok m' \<and>
    limit_contract (\<lambda>p. 9 \<le> p) False unit_precision sample_asks sample_bids
      (sample_order 4 taker_key Sell 9 7) r (sm_asks_levels m') (sm_bids_levels m')"
proof -
  let ?lo = "sample_order 4 taker_key Sell 9 7"
  have "fresh_order sample_market ?lo"
    by (simp add: fresh_order_def enters_def market_orders_def side_defs) (simp add: sample_defs)
  moreover have "limit_fits sample_market ?lo unit_precision"
    by (simp add: limit_fits_def sample_defs converts_def price_den_def price_num_def quote_of_def)
  ultimately show ?thesis
    using limit_sell_price_time [of sample_market ?lo unit_precision 0 1] sample_market_ok
    by (simp add: sample_order_def)
qed

text \<open>
  C14. On a book whose levels hold fewer than \<open>2 ^ 32 - 1\<close> orders, cancelling a live resting order with
  a copy of the same id and price whose unfilled size (its size less its fills, self-filled lots not
  counted) is the remaining size of the resting order returns that size, keeps the market's
  invariant and the other side, and takes exactly that order from the orders that can still trade. A copy
  that carries self-filled lots does not agree in this sense, and the code can panic on it.
\<close>

theorem cancel_removes_order:
  assumes "market_ok m" "small_levels m"
    and "x \<in> set (side_orders (side_of (lo_direction lo) m))" "live x" "agrees lo x"
  shows "\<exists>m'. market_cancel_order m lo = Some (remaining x, m') \<and> market_ok m' \<and>
    side_of (opposite (lo_direction lo)) m' = side_of (opposite (lo_direction lo)) m \<and>
    filter active (side_orders (side_of (lo_direction lo) m')) =
      filter (\<lambda>y. active y \<and> lo_id y \<noteq> lo_id lo) (side_orders (side_of (lo_direction lo) m))"
  by (rule market_cancel_order_ok [OF assms])

theorem cancel_removes_order_witness:
  "\<exists>m'. market_cancel_order sample_market (sample_order 1 maker_key Sell 11 3) = Some (3, m') \<and>
    market_ok m' \<and>
    filter active (side_orders (sm_asks_levels m')) =
      [sample_order 3 maker_key Sell 12 4, sample_order 2 maker_key Sell 11 2]"
proof -
  let ?x = "sample_order 1 maker_key Sell 11 3"
  have "small_levels sample_market" by (simp add: small_levels_def) (simp add: sample_defs)
  moreover have "?x \<in> set (side_orders sample_asks)" by (simp add: sample_defs)
  moreover have "live ?x" "agrees ?x ?x" by (simp_all add: agrees_def)
  ultimately obtain m' where m': "market_cancel_order sample_market ?x = Some (3, m')" "market_ok m'"
    "filter active (side_orders (sm_asks_levels m')) =
      filter (\<lambda>y. active y \<and> lo_id y \<noteq> 1) (side_orders sample_asks)"
    using cancel_removes_order [of sample_market ?x ?x] sample_market_ok
    by (auto simp: side_of_def)
  have "filter (\<lambda>y. active y \<and> lo_id y \<noteq> 1) (side_orders sample_asks) =
      [sample_order 3 maker_key Sell 12 4, sample_order 2 maker_key Sell 11 2]"
    by (simp add: sample_asks_def sample_level_def active_def)
  with m' show ?thesis by auto
qed

section \<open>Market orders\<close>

text \<open>
  C4. A market order to sell whose size fits the machine integers at every bid's price is processed
  without a panic: it is matched against all the bids in price and time order, orders of the seller's
  own account are reduced without a trade, the lots, quote lots, filled orders, residual order and last
  price it reports are those of the reference matching, every lot of its size is traded, self-filled or
  left over, the asks are not touched and the invariant of the market is kept.
\<close>

theorem market_sell_price_time:
  assumes ok: "market_ok m" and size: "ms_base_size so < 2 ^ 64"
    and conv: "\<forall>lv\<in>set (sm_bids_levels m). converts (ms_base_size so) (lv_price lv) prec"
  shows "\<exists>r m'. handle_market_order m (MarketSell so) prec = Some (SellResults r, m') \<and> market_ok m' \<and>
    sell_report prec (sm_bids_levels m) so r (sm_bids_levels m') \<and>
    sm_asks_levels m' = sm_asks_levels m \<and>
    sm_last_executed_price m' = (case sr_last_executed_price r of None \<Rightarrow> sm_last_executed_price m | Some p \<Rightarrow> Some p)"
proof -
  have side: "side_ok cmp_bid (sm_bids_levels m)" using ok by (simp add: market_ok_def)
  obtain r bids where run: "execute_market_sell_order (sm_bids_levels m) so prec = Some (r, bids)"
    and bids: "side_ok cmp_bid bids" and rep: "sell_report prec (sm_bids_levels m) so r bids"
    using market_sell_report_bids [OF side size conv] by blast
  have "market_ok (set_last_executed_price (m\<lparr>sm_bids_levels := bids\<rparr>) (sr_last_executed_price r))"
    using rep by (intro market_ok_bids [OF ok bids]) (simp_all add: sell_report_def)
  with run rep show ?thesis
    by (auto simp: handle_market_order_def set_last_executed_price_def split: option.splits)
qed

theorem market_sell_price_time_witness:
  "\<exists>so r m'. sample_sell 7 = MarketSell so \<and>
    handle_market_order sample_market (sample_sell 7) unit_precision = Some (SellResults r, m') \<and> market_ok m' \<and>
    sell_report unit_precision sample_bids so r (sm_bids_levels m') \<and> sm_asks_levels m' = sample_asks"
proof -
  obtain so where so: "sample_sell 7 = MarketSell so" "ms_base_size so = 7" by (simp add: sample_sell_def)
  then have "\<forall>lv\<in>set (sm_bids_levels sample_market). converts (ms_base_size so) (lv_price lv) unit_precision"
    by (simp add: sample_defs converts_def price_den_def price_num_def quote_of_def)
  from market_sell_price_time [OF sample_market_ok _ this] so show ?thesis by auto
qed

lemma sample_market_sane: "market_sane sample_market"
  using sample_market_ok by (simp add: market_ok_def market_sane_def side_sane_def side_ok_def level_sane_def)
    (simp add: sample_defs)

text \<open>
  C6. A market order to buy never spends more than its quote size: the base lots it reports are
  the sum of fills of live ask orders of other accounts, each at most the order's remaining size, the
  quote lots it reports are what these fills cost at their orders' prices, the self-filled amount is the
  cost of the reductions of its own orders, and the two together are at most the size.
\<close>

theorem market_buy_never_overspends:
  fixes bo
  defines "own \<equiv> \<lambda>lo. lo_account lo = co_account (mb_common bo)"
  assumes ok: "market_sane m" and run: "handle_market_order m (MarketBuy bo) prec = Some (BuyResults r, m')"
  shows "\<exists>fs. br_base_lots_in r = base_sum (traded own fs) \<and>
    br_quote_filled_lots r = quote_cost prec (traded own fs) \<and>
    br_self_fill r = quote_cost prec (selfed own fs) \<and>
    br_quote_filled_lots r + br_self_fill r \<le> mb_quote_size bo \<and>
    (\<forall>(lo, q)\<in>set fs. lo \<in> set (side_orders (sm_asks_levels m)) \<and> live lo \<and> q \<le> remaining lo) \<and>
    market_sane m'"
proof -
  obtain asks where "execute_market_buy_order (sm_asks_levels m) bo prec = Some (r, asks)"
    using run by (auto simp: handle_market_order_def bind_eq_Some_conv)
  moreover have "\<forall>lv\<in>set (sm_asks_levels m). \<forall>lo\<in>set (lv_orders lv). lo_price_multiple lo = lv_price lv"
    using ok by (simp add: market_sane_def side_sane_def level_sane_def)
  ultimately show ?thesis
    using execute_market_buy_fills handle_market_order_sane(1) [OF ok run] unfolding own_def by blast
qed

theorem market_buy_never_overspends_witness:
  "\<exists>bo r m'. sample_buy 70 = MarketBuy bo \<and>
    handle_market_order sample_market (sample_buy 70) unit_precision = Some (BuyResults r, m') \<and>
    br_base_lots_in r = 6 \<and> br_quote_filled_lots r + br_self_fill r \<le> 70 \<and> market_sane m'"
proof -
  obtain bo where bo: "sample_buy 70 = MarketBuy bo" "mb_quote_size bo = 70" by (simp add: sample_buy_def)
  obtain r m' where run: "handle_market_order sample_market (sample_buy 70) unit_precision = Some (BuyResults r, m')"
    and r: "br_base_lots_in r = 6"
    by (simp add: exchange_eval)
  from market_buy_never_overspends [OF sample_market_sane run [unfolded bo(1)]] run r bo show ?thesis by auto
qed

section \<open>The searches of the order book\<close>

text \<open>
  C17. On levels sorted for a side, the binary search that adds an order gives the same levels
  as the linear scan, for the comparison closures of the bids and of the asks, and so does the
  one that cancels.
\<close>

theorem book_searches_linear:
  assumes "cmp = cmp_bid \<or> cmp = cmp_ask" "levels_sorted cmp levels"
  shows "add_order_with_cmp cmp levels order = book_insert cmp levels order \<and>
    cancel_order_with_cmp cmp levels order = book_cancel levels order"
  using assms bid_cmp.add_order_with_cmp_insert ask_cmp.add_order_with_cmp_insert
    bid_cmp.cancel_order_with_cmp_cancel ask_cmp.cancel_order_with_cmp_cancel by auto

theorem book_searches_linear_witness:
  "add_order_with_cmp cmp_ask sample_asks (sample_order 4 taker_key Sell 12 1) =
     book_insert cmp_ask sample_asks (sample_order 4 taker_key Sell 12 1) \<and>
   cancel_order_with_cmp cmp_ask sample_asks (sample_order 1 maker_key Sell 11 3) =
     book_cancel sample_asks (sample_order 1 maker_key Sell 11 3)"
  using book_searches_linear [of cmp_ask sample_asks] sample_asks_ok by (simp add: side_ok_def)

text \<open>
  On a level's orders, whose ids increase, the binary search by order id marks exactly the
  order with that id and reports whether an open order was found.
\<close>

lemma mark_order_linear:
  assumes "sorted_wrt (<) (map lo_id orders)"
  shows "mark_order_as_cancelled orders order =
    Some (\<exists>x\<in>set orders. lo_id x = lo_id order \<and> live x, map (mark_id (lo_id order)) orders)"
  using assms mark_order_as_cancelled_linear [of orders order]
  by (simp add: mark_linear_map strict_sorted_iff)

lemma mark_order_linear_witness:
  "mark_order_as_cancelled [sample_order 1 maker_key Sell 11 3, sample_order 2 maker_key Sell 11 2]
     (sample_order 2 maker_key Sell 11 2) =
   Some (True, [sample_order 1 maker_key Sell 11 3,
     set_status Cancelled (sample_order 2 maker_key Sell 11 2)])"
  using mark_order_linear [of "[sample_order 1 maker_key Sell 11 3, sample_order 2 maker_key Sell 11 2]"
      "sample_order 2 maker_key Sell 11 2"]
  by (simp add: sample_order_def mark_id_def live_def)

section \<open>Conversions\<close>

text \<open>
  The base lots that an amount of quote lots buys at a price never cost more than that
  amount, whether or not the conversions wrap; when the cost fits, the code computes it.
\<close>

lemma base_lots_never_overspend:
  assumes "quote_lots_to_base_lots q p prec = Some b" "base_to_quote_lots b p prec = Some q'"
  shows "q' \<le> q"
proof -
  have d: "0 < price_den prec" and q': "q' = as_u64 (quote_of b p prec)"
    using base_to_quote_lots_Some [OF assms(2)] by auto
  have "b \<le> base_of q p prec"
    using quote_lots_to_base_lots_Some(1) [OF assms(1)] as_u64_le by simp
  then have "quote_of b p prec \<le> q"
    using quote_of_base_of [OF d] quote_of_mono order_trans by blast
  then show ?thesis using q' as_u64_le order_trans by blast
qed

lemma base_lots_never_overspend_witness:
  "quote_lots_to_base_lots 100 7 unit_precision = Some 14 \<and>
   base_to_quote_lots 14 7 unit_precision = Some 98 \<and> (98::nat) \<le> 100"
proof -
  have a: "quote_lots_to_base_lots 100 7 unit_precision = Some 14"
    by (simp add: quote_lots_to_base_lots_def unit_precision_def checked_mul_def checked_pow_def
        checked_div_def as_u64_def)
  have b: "base_to_quote_lots 14 7 unit_precision = Some 98"
    by (simp add: base_to_quote_lots_def unit_precision_def checked_mul_def checked_pow_def
        checked_div_def as_u64_def)
  show ?thesis using a b base_lots_never_overspend [OF a b] by simp
qed

section \<open>Settlement\<close>

text \<open>
  C8. On books where no resting order has ever been reduced by a self trade, and resting orders stand at
  their level's price, a limit order handled by the clearing house, whatever its result, leaves the total
  amount of every asset held by all accounts unchanged: what the taker pays is what the makers of the
  filled and the residual orders receive, and conversely. The condition is needed: the settlement of a
  filled maker ignores its self-filled lots.
\<close>

theorem limit_order_conserves_assets:
  assumes "handle_limit_order ch order prec = Some (r, ch')" "finite (dom (ch_accounts ch))"
    and "\<forall>m\<in>set (ch_markets ch). clean_book (Limit order) m"
  shows "total_supply (ch_accounts ch') a = total_supply (ch_accounts ch) a"
  by (rule handle_limit_order_conserves [OF assms])

theorem limit_order_conserves_assets_witness:
  "\<exists>r ch'. handle_limit_order sample_house (sample_order 4 taker_key Buy 11 6) unit_precision =
     Some (r, ch') \<and> total_supply (ch_accounts ch') 1 = total_supply (ch_accounts sample_house) 1"
proof -
  let ?o = "sample_order 4 taker_key Buy 11 6"
  have "\<exists>r ch'. handle_limit_order sample_house ?o unit_precision = Some (r, ch')"
    by (simp add: exchange_eval)
  then obtain r ch' where run: "handle_limit_order sample_house ?o unit_precision = Some (r, ch')"
    by blast
  show ?thesis using run limit_order_conserves_assets [OF run] by (simp add: sample_house_clean)
qed

text \<open>
  C10. A market order leaves the total amount of every asset unchanged too, on books where no resting
  order of any account has ever been reduced by a self trade, resting orders stand at their level's
  price, and the side that the order takes holds only well-formed orders of other accounts.
\<close>

theorem market_order_conserves_assets:
  assumes "handle_market ch order prec = Some (r, ch')" "finite (dom (ch_accounts ch))"
    and "\<forall>m\<in>set (ch_markets ch). clean_book (Market order) m"
  shows "total_supply (ch_accounts ch') a = total_supply (ch_accounts ch) a"
  by (rule handle_market_conserves [OF assms])

theorem market_order_conserves_assets_witness:
  "\<exists>r ch'. handle_market sample_house (sample_buy 40) unit_precision = Some (r, ch') \<and>
     total_supply (ch_accounts ch') 0 = total_supply (ch_accounts sample_house) 0"
proof -
  have "\<exists>r ch'. handle_market sample_house (sample_buy 40) unit_precision = Some (r, ch')"
    by (simp add: exchange_eval)
  then obtain r ch' where run: "handle_market sample_house (sample_buy 40) unit_precision = Some (r, ch')"
    by blast
  show ?thesis using run market_order_conserves_assets [OF run] by (simp add: sample_house_clean)
qed

section \<open>Self-filled makers\<close>

text \<open>
  Why conservation and cancellation exclude self-filled lots: on a book that satisfies the market's
  invariant and holds a bid of 8 lots of which 3 were self-filled, a limit sell of the remaining 5 lots
  creates 3 lots of the base asset, and cancelling the bid with an identical copy panics.
\<close>

definition self_filled_bid :: limit_order where
  "self_filled_bid = (sample_order 0 maker_key Buy 9 8)\<lparr>lo_self_filled := 3\<rparr>"

definition self_filled_market :: spot_market where
  "self_filled_market = sample_market\<lparr>sm_bids_levels := [sample_level 9 5 [self_filled_bid]]\<rparr>"

lemma self_filled_market_ok: "market_ok self_filled_market"
proof -
  have "side_ok cmp_bid [sample_level 9 5 [self_filled_bid]]"
    by (simp add: side_defs self_filled_bid_def sample_defs)
  with sample_market_ok show ?thesis
    by (simp add: self_filled_market_def market_ok_def market_orders_def uncrossed_def)
      (simp add: self_filled_bid_def sample_defs)
qed

lemma self_filled_maker_mints:
  "\<exists>r ch'. handle_limit_order (sample_house\<lparr>ch_markets := [self_filled_market]\<rparr>)
      (sample_order 4 taker_key Sell 9 5) unit_precision = Some (r, ch') \<and>
    total_supply (ch_accounts ch') 0 = total_supply (ch_accounts sample_house) 0 + 3"
  by (simp add: self_filled_market_def self_filled_bid_def exchange_eval)
    (simp add: total_supply_def ab_total_def)

lemma self_filled_cancel_panics: "market_cancel_order self_filled_market self_filled_bid = None"
  by (simp add: self_filled_market_def self_filled_bid_def exchange_eval cancel_bid_def
      cancel_order_with_cmp_def cancel_order_loop.simps cancel_in_level_def mark_order_as_cancelled_def mark_loop.simps)

end
