(* ===== verification/Transactions.thy ===== *)
theory Transactions
  imports Settlement
begin

text \<open>
  Transactions (\<^verbatim>\<open>src/src/types/transaction.rs\<close>): the three kinds of transaction, their status,
  signing and the check of the sender's signature; with them the error values of
  \<^verbatim>\<open>src/src/state/state.rs\<close> that a status carries and the signature helpers of
  \<^verbatim>\<open>src/src/hotstuff/utils.rs\<close>.

  The crates the source calls (\<open>hex\<close>, \<open>bincode\<close>, \<open>sha2\<close>, \<open>ed25519_dalek\<close>) are not part of the
  repository. They are a record of functions, \<open>crates\<close>, that the definitions take as an
  argument; a public key is represented by its 32 bytes and a signature by its 64.
\<close>

section \<open>Data\<close>

type_synonym bytes = "8 word list"
type_synonym nonce = nat

datatype public_key_string = PublicKeyString string

datatype signature_string = SignatureString string

datatype resource = MarketResource market_id | AssetResource asset_id

datatype exec_error =
    InsufficientFunds public_key_string nat nat
  | ResourceNotFound resource

datatype transaction_status = Executed | RejectedTx string | ErrorTx exec_error | Pending

record transfer_transaction =
  tt_from :: public_key_hash
  tt_to :: public_key_hash
  tt_amount :: nat
  tt_asset_id :: asset_id
  tt_status :: transaction_status
  tt_nonce :: nonce

record order_transaction =
  ot_from :: public_key_hash
  ot_market_id :: market_id
  ot_direction :: order_direction
  ot_order_type :: order_type
  ot_status :: transaction_status
  ot_nonce :: nonce

record cancel_order_transaction =
  ct_from :: public_key_hash
  ct_market_id :: market_id
  ct_order_id :: order_id
  ct_status :: transaction_status
  ct_nonce :: nonce

datatype unsigned_transaction =
    Transfer transfer_transaction
  | OrderTx order_transaction
  | CancelOrder cancel_order_transaction

record signed_transaction =
  st_tx :: unsigned_transaction
  st_signature :: signature_string
  st_hash :: sha256_hash

section \<open>The crates\<close>

text \<open>
  \<open>x_hex_encode\<close> and \<open>x_from_hex n\<close> are \<open>hex::encode\<close> and \<open><[u8; n]>::from_hex\<close> (\<open>None\<close> for text
  that is not \<open>n\<close> bytes in hexadecimal); \<open>x_hex_decode\<close> is \<open>hex::decode\<close>; \<open>x_sha256\<close> is
  \<open>Sha256::digest\<close>; \<open>x_key_ok\<close> tells whether \<open>VerifyingKey::from_bytes\<close> accepts the bytes;
  \<open>x_verify_strict\<close> and \<open>x_sign\<close> are the signature scheme, and \<open>x_verifying_key\<close> the public
  key of a signing key; the others are \<open>bincode::serialize\<close> at the types the source uses.
\<close>

record crates =
  x_hex_encode :: "bytes \<Rightarrow> string"
  x_from_hex :: "nat \<Rightarrow> string \<Rightarrow> bytes option"
  x_hex_decode :: "string \<Rightarrow> bytes option"
  x_sha256 :: "bytes \<Rightarrow> sha256_hash"
  x_key_ok :: "bytes \<Rightarrow> bool"
  x_verify_strict :: "bytes \<Rightarrow> bytes \<Rightarrow> bytes \<Rightarrow> bool"
  x_sign :: "bytes \<Rightarrow> bytes \<Rightarrow> bytes"
  x_verifying_key :: "bytes \<Rightarrow> bytes"
  x_serialize_transaction :: "unsigned_transaction \<Rightarrow> bytes"
  x_serialize_block :: "sha256_hash \<Rightarrow> sha256_hash \<Rightarrow> nat \<Rightarrow> bytes"
  x_serialize_partial_sig :: "bytes \<Rightarrow> bytes \<Rightarrow> bytes"
  x_serialize_qc :: "nat \<Rightarrow> sha256_hash \<Rightarrow> sha256_hash \<Rightarrow> sha256_hash list \<Rightarrow> bytes"
  x_serialize_message :: "nat \<Rightarrow> sha256_hash \<Rightarrow> sha256_hash \<Rightarrow> bytes"

section \<open>Hashing and signing\<close>

definition tx_hash :: "crates \<Rightarrow> unsigned_transaction \<Rightarrow> sha256_hash" where
  "tx_hash X tx = x_sha256 X (x_serialize_transaction X tx)"

text \<open>Equality of unsigned transactions compares their hashes.\<close>

definition tx_eq :: "crates \<Rightarrow> unsigned_transaction \<Rightarrow> unsigned_transaction \<Rightarrow> bool" where
  "tx_eq X a b \<longleftrightarrow> tx_hash X a = tx_hash X b"

definition sig_to_string :: "crates \<Rightarrow> bytes \<Rightarrow> string" where
  "sig_to_string X sig = x_hex_encode X sig"

definition string_to_sig :: "crates \<Rightarrow> string \<Rightarrow> string + bytes" where
  "string_to_sig X s =
     (case x_hex_decode X s of
        None \<Rightarrow> Inl ''Invalid hex''
      | Some bs \<Rightarrow> if length bs = 64 then Inr bs else Inl ''Invalid sig length'')"

definition tx_sign :: "crates \<Rightarrow> bytes \<Rightarrow> unsigned_transaction \<Rightarrow> signed_transaction" where
  "tx_sign X signing_key tx =
     (let transaction_hash = tx_hash X tx;
          signature = x_sign X signing_key transaction_hash
      in \<lparr>st_tx = tx, st_signature = SignatureString (sig_to_string X signature),
          st_hash = transaction_hash\<rparr>)"

fun signature_as_str :: "signature_string \<Rightarrow> string" where
  "signature_as_str (SignatureString s) = s"

definition signature_new :: "crates \<Rightarrow> string \<Rightarrow> string + signature_string" where
  "signature_new X s =
     (case x_from_hex X 64 s of None \<Rightarrow> Inl ''Invalid hex'' | Some _ \<Rightarrow> Inr (SignatureString s))"

definition as_signature :: "crates \<Rightarrow> signature_string \<Rightarrow> bytes option" where
  "as_signature X s = x_from_hex X 64 (signature_as_str s)"

fun pk_as_str :: "public_key_string \<Rightarrow> string" where
  "pk_as_str (PublicKeyString s) = s"

definition pk_from_public_key :: "crates \<Rightarrow> bytes \<Rightarrow> public_key_string" where
  "pk_from_public_key X pk = PublicKeyString (x_hex_encode X pk)"

text \<open>The outer option is the panic of \<open>expect\<close> on bytes that are not a key.\<close>

definition pk_from_string :: "crates \<Rightarrow> string \<Rightarrow> (string + public_key_string) option" where
  "pk_from_string X s =
     (case x_from_hex X 32 s of
        None \<Rightarrow> Some (Inl ''Invalid hex'')
      | Some bs \<Rightarrow> if x_key_ok X bs then Some (Inr (PublicKeyString s)) else None)"

definition pk_from_bytes :: "crates \<Rightarrow> sha256_hash \<Rightarrow> public_key_string" where
  "pk_from_bytes X bs = PublicKeyString (x_hex_encode X bs)"

definition as_public_key :: "crates \<Rightarrow> public_key_string \<Rightarrow> bytes option" where
  "as_public_key X pk = do {
     bs \<leftarrow> x_from_hex X 32 (pk_as_str pk);
     if x_key_ok X bs then Some bs else None
   }"

definition pk_to_bytes :: "crates \<Rightarrow> public_key_string \<Rightarrow> sha256_hash option" where
  "pk_to_bytes X pk = x_from_hex X 32 (pk_as_str pk)"

definition pk_default :: public_key_string where
  "pk_default = PublicKeyString (replicate 64 (CHR ''0''))"

section \<open>Signed transactions\<close>

text \<open>
  \<open>verify_sender\<close> panics on a malformed key or signature. A transfer is checked against the
  hash stored beside it, an order and a cancellation against the hash of their contents.
\<close>

definition verify_signature :: "crates \<Rightarrow> public_key_hash \<Rightarrow> sha256_hash \<Rightarrow> signature_string \<Rightarrow> bool option" where
  "verify_signature X from hash sig = do {
     public_key \<leftarrow> as_public_key X (pk_from_bytes X from);
     signature \<leftarrow> (case string_to_sig X (signature_as_str sig) of Inl _ \<Rightarrow> None | Inr s \<Rightarrow> Some s);
     Some (x_verify_strict X public_key hash signature)
   }"

definition verify_sender :: "crates \<Rightarrow> signed_transaction \<Rightarrow> bool option" where
  "verify_sender X stx =
     (case st_tx stx of
        Transfer t \<Rightarrow> verify_signature X (tt_from t) (st_hash stx) (st_signature stx)
      | OrderTx t \<Rightarrow> verify_signature X (ot_from t) (tx_hash X (st_tx stx)) (st_signature stx)
      | CancelOrder t \<Rightarrow> verify_signature X (ct_from t) (tx_hash X (st_tx stx)) (st_signature stx))"

fun unsigned_from :: "unsigned_transaction \<Rightarrow> public_key_hash" where
  "unsigned_from (Transfer t) = tt_from t"
| "unsigned_from (OrderTx t) = ot_from t"
| "unsigned_from (CancelOrder t) = ct_from t"

fun unsigned_nonce :: "unsigned_transaction \<Rightarrow> nonce" where
  "unsigned_nonce (Transfer t) = tt_nonce t"
| "unsigned_nonce (OrderTx t) = ot_nonce t"
| "unsigned_nonce (CancelOrder t) = ct_nonce t"

fun unsigned_status :: "unsigned_transaction \<Rightarrow> transaction_status" where
  "unsigned_status (Transfer t) = tt_status t"
| "unsigned_status (OrderTx t) = ot_status t"
| "unsigned_status (CancelOrder t) = ct_status t"

definition get_from_account :: "signed_transaction \<Rightarrow> public_key_hash" where
  "get_from_account stx = unsigned_from (st_tx stx)"

definition get_nonce :: "signed_transaction \<Rightarrow> nonce" where
  "get_nonce stx = unsigned_nonce (st_tx stx)"

definition get_status :: "signed_transaction \<Rightarrow> transaction_status" where
  "get_status stx = unsigned_status (st_tx stx)"

section \<open>What the sender check accepts\<close>

text \<open>What the source relies on of the crates: the documented laws of the codec and the scheme.\<close>

definition hex_ok :: "crates \<Rightarrow> bool" where
  "hex_ok X \<longleftrightarrow> (\<forall>bs. x_from_hex X (length bs) (x_hex_encode X bs) = Some bs \<and>
     x_hex_decode X (x_hex_encode X bs) = Some bs)"

definition signs :: "crates \<Rightarrow> bytes \<Rightarrow> bool" where
  "signs X sk \<longleftrightarrow> length (x_verifying_key X sk) = 32 \<and> x_key_ok X (x_verifying_key X sk) \<and>
     (\<forall>m. length (x_sign X sk m) = 64 \<and> x_verify_strict X (x_verifying_key X sk) m (x_sign X sk m))"

lemma string_to_sig_roundtrip:
  "\<lbrakk>hex_ok X; length sig = 64\<rbrakk> \<Longrightarrow> string_to_sig X (sig_to_string X sig) = Inr sig"
  by (simp add: string_to_sig_def sig_to_string_def hex_ok_def)

lemma as_public_key_roundtrip:
  assumes "hex_ok X" "length pk = 32"
  shows "as_public_key X (pk_from_bytes X pk) = (if x_key_ok X pk then Some pk else None)"
proof -
  from assms have "x_from_hex X 32 (x_hex_encode X pk) = Some pk"
    unfolding hex_ok_def by metis
  then show ?thesis by (simp add: as_public_key_def pk_from_bytes_def)
qed

lemma verify_sender_sign:
  assumes "hex_ok X" "signs X sk" "unsigned_from tx = x_verifying_key X sk"
  shows "verify_sender X (tx_sign X sk tx) = Some True"
proof -
  have "verify_signature X (x_verifying_key X sk) (tx_hash X tx)
      (SignatureString (sig_to_string X (x_sign X sk (tx_hash X tx)))) = Some True"
    using assms(1, 2)
    by (simp add: verify_signature_def as_public_key_roundtrip string_to_sig_roundtrip signs_def)
  then show ?thesis using assms(3)
    by (cases tx) (simp_all add: verify_sender_def tx_sign_def Let_def)
qed

end
