(* ===== verification/Ledger.thy ===== *)
theory Ledger
  imports Transactions
begin

text \<open>
  The replicated ledger (\<^verbatim>\<open>src/src/state/state.rs\<close>, \<^verbatim>\<open>transaction_delta.rs\<close> and the query types of
  \<^verbatim>\<open>src/src/node/client/handler.rs\<close>): accounts with their nonces and orders, the execution of
  transfers, orders and cancellations, and the execution of a list of transactions. A
  handler returns its result, the transaction with its new status and the new state; \<open>None\<close>
  outside is a panic.
\<close>

section \<open>Accounts and the ledger's state\<close>

record account_info =
  ai_expected_nonce :: nonce
  ai_open_orders :: "limit_order list"
  ai_completed_orders :: "order list"

definition account_info_new :: account_info where
  "account_info_new = \<lparr>ai_expected_nonce = 0, ai_open_orders = [], ai_completed_orders = []\<rparr>"

definition create_faucet :: account_info where
  "create_faucet = \<lparr>ai_expected_nonce = 0, ai_open_orders = [], ai_completed_orders = []\<rparr>"

record account_info_with_balances =
  ab_account_info :: account_info
  ab_spot_balances :: account_balance

definition get_open_order :: "account_info \<Rightarrow> order_id \<Rightarrow> limit_order option" where
  "get_open_order ai order_id = find (\<lambda>order. lo_id order = order_id) (ai_open_orders ai)"

record ledger_state =
  ls_accounts :: "public_key_hash \<rightharpoonup> account_info"
  ls_asset_manager :: asset_manager
  ls_order_manager :: order_state_manager
  ls_spot_clearinghouse :: spot_clearing_house

text \<open>\<open>LedgerState::new\<close>; the faucet's public key comes from the environment.\<close>

definition ledger_new :: "public_key_hash \<Rightarrow> ledger_state option" where
  "ledger_new pk = do {
     let accounts = Map.empty(pk \<mapsto> create_faucet);
     let am = asset_manager_new;
     asset_0 \<leftarrow> index (am_assets am) 0;
     asset_1 \<leftarrow> index (am_assets am) 1;
     let ch = add_faucet_account pk clearing_house_new;
     let (_, ch') = add_market ch 0 1 (as_asset_name asset_0) (as_asset_name asset_1) 100 3;
     Some \<lparr>ls_accounts = accounts, ls_asset_manager = asset_manager_new,
           ls_order_manager = order_manager_new, ls_spot_clearinghouse = ch'\<rparr>
   }"

definition get_asset_info :: "ledger_state \<Rightarrow> asset list" where
  "get_asset_info s = am_assets (ls_asset_manager s)"

definition ledger_market_info :: "ledger_state \<Rightarrow> market_id \<Rightarrow> market_info option" where
  "ledger_market_info s market_id = get_market_info_from_id (ls_spot_clearinghouse s) market_id"

definition ledger_markets :: "ledger_state \<Rightarrow> market_info list" where
  "ledger_markets s = get_markets (ls_spot_clearinghouse s)"

definition get_account_info_with_balances ::
  "ledger_state \<Rightarrow> public_key_hash \<Rightarrow> account_info_with_balances option" where
  "get_account_info_with_balances s pk = do {
     ai \<leftarrow> ls_accounts s pk;
     ab \<leftarrow> get_account_balance (ls_spot_clearinghouse s) pk;
     Some \<lparr>ab_account_info = ai, ab_spot_balances = ab\<rparr>
   }"

definition get_account_info_with_balances_or_default ::
  "ledger_state \<Rightarrow> public_key_hash \<Rightarrow> account_info_with_balances" where
  "get_account_info_with_balances_or_default s pk =
     (case get_account_info_with_balances s pk of
        None \<Rightarrow> \<lparr>ab_account_info = account_info_new, ab_spot_balances = account_balance_new\<rparr>
      | Some a \<Rightarrow> a)"

definition get_account_info_or_default :: "ledger_state \<Rightarrow> public_key_hash \<Rightarrow> account_info" where
  "get_account_info_or_default s pk =
     (case ls_accounts s pk of Some ai \<Rightarrow> ai | None \<Rightarrow> account_info_new)"

text \<open>
  \<open>get_account_info_mut\<close> creates a missing account and returns a reference: the account
  and the state that has it, and the write through the reference.
\<close>

definition get_account_info_mut :: "ledger_state \<Rightarrow> public_key_hash \<Rightarrow> account_info \<times> ledger_state" where
  "get_account_info_mut s pk =
     (case ls_accounts s pk of
        Some ai \<Rightarrow> (ai, s)
      | None \<Rightarrow> (account_info_new, s\<lparr>ls_accounts := (ls_accounts s)(pk \<mapsto> account_info_new)\<rparr>))"

definition put_account :: "ledger_state \<Rightarrow> public_key_hash \<Rightarrow> account_info \<Rightarrow> ledger_state" where
  "put_account s pk ai = s\<lparr>ls_accounts := (ls_accounts s)(pk \<mapsto> ai)\<rparr>"

definition get_account_spot_balances_mut ::
  "ledger_state \<Rightarrow> public_key_hash \<Rightarrow> account_balance \<times> ledger_state" where
  "get_account_spot_balances_mut s pk =
     (let ch = ls_spot_clearinghouse s;
          (ab, accts) = get_account_balance_mut (ch_accounts ch) pk
      in (ab, s\<lparr>ls_spot_clearinghouse := ch\<lparr>ch_accounts := accts\<rparr>\<rparr>))"

definition put_balance :: "ledger_state \<Rightarrow> public_key_hash \<Rightarrow> account_balance \<Rightarrow> ledger_state" where
  "put_balance s pk ab =
     (let ch = ls_spot_clearinghouse s
      in s\<lparr>ls_spot_clearinghouse := ch\<lparr>ch_accounts := (ch_accounts ch)(pk \<mapsto> ab)\<rparr>\<rparr>)"

definition get_order_position_from_open_orders :: "account_info \<Rightarrow> order_id \<Rightarrow> nat option" where
  "get_order_position_from_open_orders ai order_id =
     position (\<lambda>order. lo_id order = order_id) (ai_open_orders ai)"

definition is_self_cross :: "limit_order list \<Rightarrow> order_direction \<Rightarrow> nat \<Rightarrow> bool" where
  "is_self_cross open_orders curr_direction curr_price =
     (case curr_direction of
        Buy \<Rightarrow> list_ex (\<lambda>order. lo_direction order = Sell \<and> curr_price \<ge> lo_price_multiple order) open_orders
      | Sell \<Rightarrow> list_ex (\<lambda>order. lo_direction order = Buy \<and> curr_price \<le> lo_price_multiple order) open_orders)"

section \<open>Transfers\<close>

record asset_delta =
  ad_account :: public_key_hash
  ad_asset_id :: asset_id
  ad_amount :: nat
  ad_is_increase :: bool

record transfer_delta =
  td_asset_in :: asset_delta
  td_asset_out :: asset_delta
  td_nonce_delta :: public_key_hash

definition prepare_transfer_transaction ::
  "crates \<Rightarrow> ledger_state \<Rightarrow> transfer_transaction \<Rightarrow> (exec_error + transfer_delta) \<times> ledger_state" where
  "prepare_transfer_transaction X s t =
     (let (from_balances, s1) = get_account_spot_balances_mut s (tt_from t);
          from = pk_from_bytes X (tt_from t)
      in case find_asset_id from_balances (tt_asset_id t) of
           None \<Rightarrow> (Inl (InsufficientFunds from 0 (tt_amount t)), s1)
         | Some b \<Rightarrow>
             if atb_available_balance b < tt_amount t
             then (Inl (InsufficientFunds from (atb_available_balance b) (tt_amount t)), s1)
             else
               (let (_, s2) = get_account_info_mut s1 (tt_to t)
                in (Inr \<lparr>td_asset_in = \<lparr>ad_account = tt_to t, ad_asset_id = tt_asset_id t,
                                         ad_amount = tt_amount t, ad_is_increase = True\<rparr>,
                         td_asset_out = \<lparr>ad_account = tt_from t, ad_asset_id = tt_asset_id t,
                                          ad_amount = tt_amount t, ad_is_increase = False\<rparr>,
                         td_nonce_delta = tt_from t\<rparr>, s2)))"

text \<open>
  The debit indexes the vector of balances with the asset id; the credit searches it.
\<close>

definition debit_position :: "account_balance \<Rightarrow> nat \<Rightarrow> nat \<Rightarrow> account_balance option" where
  "debit_position ab i n = do {
     b \<leftarrow> index (ab_asset_balances ab) i;
     b' \<leftarrow> sub_available n b;
     Some (ab\<lparr>ab_asset_balances := (ab_asset_balances ab)[i := b']\<rparr>)
   }"

definition credit_asset :: "account_balance \<Rightarrow> asset_id \<Rightarrow> nat \<Rightarrow> account_balance option" where
  "credit_asset ab asset_id n =
     (case position (\<lambda>a. atb_asset_id a = asset_id) (ab_asset_balances ab) of
        Some i \<Rightarrow> do {
          b \<leftarrow> credit n (ab_asset_balances ab ! i);
          Some (ab\<lparr>ab_asset_balances := (ab_asset_balances ab)[i := b]\<rparr>)
        }
      | None \<Rightarrow> Some (ab\<lparr>ab_asset_balances := ab_asset_balances ab @
          [\<lparr>atb_asset_id = asset_id, atb_available_balance = n, atb_total_balance = n\<rparr>]\<rparr>))"

definition commit_transfer_transaction ::
  "ledger_state \<Rightarrow> transfer_delta \<Rightarrow> (nonce \<times> ledger_state) option" where
  "commit_transfer_transaction s delta = do {
     let asset_in = td_asset_in delta;
     let asset_out = td_asset_out delta;
     let (from_info, s1) = get_account_info_mut s (td_nonce_delta delta);
     expected_nonce \<leftarrow> add64 (ai_expected_nonce from_info) 1;
     let s2 = put_account s1 (td_nonce_delta delta) (from_info\<lparr>ai_expected_nonce := expected_nonce\<rparr>);
     let (from_balances, s3) = get_account_spot_balances_mut s2 (ad_account asset_out);
     from_balances' \<leftarrow> debit_position from_balances (ad_asset_id asset_out) (ad_amount asset_out);
     let s4 = put_balance s3 (ad_account asset_out) from_balances';
     let (to_balances, s5) = get_account_spot_balances_mut s4 (ad_account asset_in);
     to_balances' \<leftarrow> credit_asset to_balances (ad_asset_id asset_in) (ad_amount asset_in);
     Some (expected_nonce, put_balance s5 (ad_account asset_in) to_balances')
   }"

definition handle_transfer_transaction ::
  "crates \<Rightarrow> ledger_state \<Rightarrow> transfer_transaction \<Rightarrow>
   ((public_key_hash \<times> nonce) option \<times> transfer_transaction \<times> ledger_state) option" where
  "handle_transfer_transaction X s t =
     (let (from_info, s1) = get_account_info_mut s (tt_from t)
      in if tt_nonce t < ai_expected_nonce from_info
         then Some (None, t\<lparr>tt_status := RejectedTx ''Duplicate Nonce''\<rparr>, s1)
         else if ai_expected_nonce from_info < tt_nonce t
         then Some (None, t\<lparr>tt_status := RejectedTx ''Out of order nonce''\<rparr>, s1)
         else (case prepare_transfer_transaction X s1 t of
             (Inr delta, s2) \<Rightarrow> do {
               (expected_nonce, s3) \<leftarrow> commit_transfer_transaction s2 delta;
               Some (Some (tt_from t, expected_nonce), t\<lparr>tt_status := Executed\<rparr>, s3)
             }
           | (Inl err, s2) \<Rightarrow> Some (None, t\<lparr>tt_status := ErrorTx err\<rparr>, s2)))"

section \<open>Orders\<close>

text \<open>The market precision of a market id, or the resource that is missing.\<close>

definition precision_of :: "ledger_state \<Rightarrow> market_id \<Rightarrow> resource + market_precision" where
  "precision_of s market_id =
     (case get_quote_base_tick_from_id (ls_spot_clearinghouse s) market_id of
        None \<Rightarrow> Inl (MarketResource market_id)
      | Some (quote_asset, base_asset, tick, tick_decimals) \<Rightarrow>
          (case index (am_assets (ls_asset_manager s)) quote_asset of
             None \<Rightarrow> Inl (AssetResource quote_asset)
           | Some q \<Rightarrow>
               (case index (am_assets (ls_asset_manager s)) base_asset of
                  None \<Rightarrow> Inl (AssetResource base_asset)
                | Some b \<Rightarrow> Inr \<lparr>mp_base_lot_size = as_lot_size b, mp_quote_lot_size = as_lot_size q,
                                 mp_tick = tick, mp_tick_decimals = tick_decimals\<rparr>)))"

text \<open>Create the order; a limit order enters the sender's open orders at once.\<close>

definition create_order ::
  "ledger_state \<Rightarrow> order_transaction \<Rightarrow> (order \<times> ledger_state) option" where
  "create_order s t =
     (case ot_order_type t of
        LimitType price quote_size \<Rightarrow> do {
          (order, om) \<leftarrow> new_limit_order (ls_order_manager s) (ot_market_id t) (ot_from t)
             (ot_direction t) price quote_size;
          let (ai, s1) = get_account_info_mut (s\<lparr>ls_order_manager := om\<rparr>) (ot_from t);
          Some (Limit order, put_account s1 (ot_from t)
             (ai\<lparr>ai_open_orders := ai_open_orders ai @ [order]\<rparr>))
        }
      | MarketType order_size \<Rightarrow> do {
          (order, om) \<leftarrow> new_market_order (ls_order_manager s) (ot_market_id t) (ot_from t)
             (ot_direction t) order_size;
          Some (Market order, s\<lparr>ls_order_manager := om\<rparr>)
        })"

text \<open>The change of the sender's own order.\<close>

definition update_limit_order :: "account_info \<Rightarrow> order_id \<Rightarrow> nat \<Rightarrow> account_info option" where
  "update_limit_order ai order_id filled_amount = do {
     i \<leftarrow> get_order_position_from_open_orders ai order_id;
     order \<leftarrow> index (ai_open_orders ai) i;
     remaining_size \<leftarrow> get_order_remaining order;
     if filled_amount < remaining_size
     then do {
       filled \<leftarrow> add64 (lo_filled_base_lots order) filled_amount;
       Some (ai\<lparr>ai_open_orders := (ai_open_orders ai)
         [i := (set_status PartiallyFilled order)\<lparr>lo_filled_base_lots := filled\<rparr>]\<rparr>)
     }
     else do {
       rest \<leftarrow> vec_remove (ai_open_orders ai) i;
       Some (ai\<lparr>ai_open_orders := rest,
                ai_completed_orders := ai_completed_orders ai @ [Limit (set_status Filled order)]\<rparr>)
     }
   }"

definition complete_market_order :: "market_order \<Rightarrow> nat \<Rightarrow> nat \<Rightarrow> nat \<Rightarrow> market_order" where
  "complete_market_order order filled_lots self_fill average =
     (case order of
        MarketBuy mb \<Rightarrow> MarketBuy (mb\<lparr>
          mb_common := (mb_common mb)\<lparr>co_status :=
            (if filled_lots < mb_quote_size mb then PartiallyFilled else Filled)\<rparr>,
          mb_filled_size := filled_lots, mb_average_execution_price := average,
          mb_self_filled := self_fill\<rparr>)
      | MarketSell ms \<Rightarrow> MarketSell (ms\<lparr>
          ms_common := (ms_common ms)\<lparr>co_status :=
            (if filled_lots < ms_base_size ms then PartiallyFilled else Filled)\<rparr>,
          ms_filled_size := filled_lots, ms_average_execution_price := average,
          ms_self_filled := self_fill\<rparr>))"

definition apply_user_change ::
  "ledger_state \<Rightarrow> order \<Rightarrow> public_key_hash \<Rightarrow> order_change option \<Rightarrow> ledger_state option" where
  "apply_user_change s order user_account change =
     (case change of
        None \<Rightarrow> Some s
      | Some (LimitOrderChange order_id filled_amount _) \<Rightarrow> do {
          let (ai, s1) = get_account_info_mut s user_account;
          ai' \<leftarrow> update_limit_order ai order_id filled_amount;
          Some (put_account s1 user_account ai')
        }
      | Some (MarketOrderChange _ filled_lots self_fill average) \<Rightarrow>
          (case order of
             Market mo \<Rightarrow>
               (let mo' = complete_market_order mo filled_lots self_fill average;
                    pk = market_get_account mo;
                    (ai, s1) = get_account_info_mut s pk
                in Some (put_account s1 pk (ai\<lparr>ai_completed_orders := ai_completed_orders ai @ [Market mo']\<rparr>)))
           | Limit _ \<Rightarrow> Some s))"

text \<open>A filled maker order leaves the maker's open orders for the completed ones.\<close>

definition complete_filled_order :: "ledger_state \<Rightarrow> limit_order \<Rightarrow> ledger_state option" where
  "complete_filled_order s filled_order =
     (let (ai, s1) = get_account_info_mut s (lo_account filled_order)
      in case get_order_position_from_open_orders ai (lo_id filled_order) of
           None \<Rightarrow> Some s1
         | Some i \<Rightarrow> do {
             removed \<leftarrow> index (ai_open_orders ai) i;
             rest \<leftarrow> vec_remove (ai_open_orders ai) i;
             filled \<leftarrow> checked_sub (lo_base_lots removed) (lo_self_filled filled_order);
             let removed' = (set_status Filled removed)\<lparr>lo_self_filled := lo_self_filled filled_order,
                                                        lo_filled_base_lots := filled\<rparr>;
             Some (put_account s1 (lo_account filled_order)
               (ai\<lparr>ai_open_orders := rest,
                   ai_completed_orders := ai_completed_orders ai @ [Limit removed']\<rparr>))
           })"

fun complete_filled_orders :: "ledger_state \<Rightarrow> limit_order list \<Rightarrow> ledger_state option" where
  "complete_filled_orders s [] = Some s"
| "complete_filled_orders s (filled_order # filled_orders) = do {
     s' \<leftarrow> complete_filled_order s filled_order;
     complete_filled_orders s' filled_orders
   }"

definition update_residual_order :: "ledger_state \<Rightarrow> residual_order option \<Rightarrow> ledger_state option" where
  "update_residual_order s residual =
     (case residual of
        None \<Rightarrow> Some s
      | Some r \<Rightarrow> do {
          let (ai, s1) = get_account_info_mut s (ro_account_public_key r);
          i \<leftarrow> position (\<lambda>order. lo_id order = ro_order_id r) (ai_open_orders ai);
          order \<leftarrow> index (ai_open_orders ai) i;
          filled \<leftarrow> add64 (lo_filled_base_lots order) (ro_filled_base_lots r);
          self_filled \<leftarrow> add64 (lo_self_filled order) (ro_self_fill r);
          Some (put_account s1 (ro_account_public_key r)
            (ai\<lparr>ai_open_orders := (ai_open_orders ai)
              [i := order\<lparr>lo_filled_base_lots := filled, lo_self_filled := self_filled\<rparr>]\<rparr>))
        })"

text \<open>The update of the accounts after the clearinghouse has executed the order.\<close>

definition apply_execution_results ::
  "ledger_state \<Rightarrow> order \<Rightarrow> public_key_hash \<Rightarrow> execution_results option \<Rightarrow> ledger_state option" where
  "apply_execution_results s order user_account result =
     (case result of
        None \<Rightarrow> Some s
      | Some r \<Rightarrow> do {
          s1 \<leftarrow> apply_user_change s order user_account (er_user_order_change r);
          s2 \<leftarrow> complete_filled_orders s1 (er_filled_orders r);
          update_residual_order s2 (er_residual_order r)
        })"

text \<open>The last step of an executed transaction.\<close>

definition increment_nonce :: "ledger_state \<Rightarrow> public_key_hash \<Rightarrow> (nonce \<times> ledger_state) option" where
  "increment_nonce s pk = do {
     let (ai, s1) = get_account_info_mut s pk;
     n \<leftarrow> add64 (ai_expected_nonce ai) 1;
     Some (n, put_account s1 pk (ai\<lparr>ai_expected_nonce := n\<rparr>))
   }"

definition self_crosses :: "account_info \<Rightarrow> order_transaction \<Rightarrow> bool" where
  "self_crosses ai t =
     (case ot_order_type t of
        LimitType price _ \<Rightarrow> is_self_cross (ai_open_orders ai) (ot_direction t) price
      | MarketType _ \<Rightarrow> False)"

definition handle_order_transaction ::
  "ledger_state \<Rightarrow> order_transaction \<Rightarrow>
   ((public_key_hash \<times> nonce) option \<times> order_transaction \<times> ledger_state) option" where
  "handle_order_transaction s t =
     (let (ai, s1) = get_account_info_mut s (ot_from t)
      in if ot_nonce t < ai_expected_nonce ai
         then Some (None, t\<lparr>ot_status := RejectedTx ''Duplicate nonce''\<rparr>, s1)
         else if ai_expected_nonce ai < ot_nonce t
         then Some (None, t\<lparr>ot_status := RejectedTx ''Out of order nonce''\<rparr>, s1)
         else if self_crosses ai t
         then Some (None, t\<lparr>ot_status := RejectedTx ''Self Cross''\<rparr>, s1)
         else do {
           (order, s2) \<leftarrow> create_order s1 t;
           (case precision_of s2 (ot_market_id t) of
              Inl missing \<Rightarrow> Some (None, t\<lparr>ot_status := ErrorTx (ResourceNotFound missing)\<rparr>, s2)
            | Inr precision \<Rightarrow> do {
                (result, ch) \<leftarrow> handle_order (ls_spot_clearinghouse s2) order precision;
                s3 \<leftarrow> apply_execution_results (s2\<lparr>ls_spot_clearinghouse := ch\<rparr>) order (ot_from t) result;
                (n, s4) \<leftarrow> increment_nonce s3 (ot_from t);
                Some (Some (ot_from t, n), t\<lparr>ot_status := Executed\<rparr>, s4)
              })
         })"

section \<open>Cancellations\<close>

text \<open>
  Move a cancelled order to the completed ones; \<open>False\<close> is the early return of \<open>?\<close>, which
  leaves the transaction's status as it is.
\<close>

definition complete_cancelled_order ::
  "ledger_state \<Rightarrow> public_key_hash \<Rightarrow> limit_order \<Rightarrow> bool \<times> ledger_state" where
  "complete_cancelled_order s pk order =
     (let (ai, s1) = get_account_info_mut s pk
      in case position (\<lambda>x. lo_id x = lo_id order) (ai_open_orders ai) of
           None \<Rightarrow> (False, s1)
         | Some pos \<Rightarrow> (True, put_account s1 pk
             (ai\<lparr>ai_open_orders := take pos (ai_open_orders ai) @ drop (Suc pos) (ai_open_orders ai),
                 ai_completed_orders := ai_completed_orders ai @ [Limit order]\<rparr>)))"

definition handle_cancel_order_transaction ::
  "ledger_state \<Rightarrow> cancel_order_transaction \<Rightarrow>
   ((public_key_hash \<times> nonce) option \<times> cancel_order_transaction \<times> ledger_state) option" where
  "handle_cancel_order_transaction s t =
     (let ai = get_account_info_or_default s (ct_from t)
      in if ct_nonce t < ai_expected_nonce ai
         then Some (None, t\<lparr>ct_status := RejectedTx ''Duplicate nonce''\<rparr>, s)
         else if ai_expected_nonce ai < ct_nonce t
         then Some (None, t\<lparr>ct_status := RejectedTx ''Out of order nonce''\<rparr>, s)
         else (case get_open_order ai (ct_order_id t) of
             None \<Rightarrow> Some (None, t\<lparr>ct_status := ErrorTx (ResourceNotFound (MarketResource (ct_market_id t)))\<rparr>, s)
           | Some order \<Rightarrow>
               (case precision_of s (ct_market_id t) of
                  Inl missing \<Rightarrow> Some (None, t\<lparr>ct_status := ErrorTx (ResourceNotFound missing)\<rparr>, s)
                | Inr precision \<Rightarrow> do {
                    (cancelled, ch) \<leftarrow> cancel_order (ls_spot_clearinghouse s) order precision;
                    let s1 = s\<lparr>ls_spot_clearinghouse := ch\<rparr>;
                    (case (if cancelled then complete_cancelled_order s1 (ct_from t) order else (True, s1)) of
                       (False, s2) \<Rightarrow> Some (None, t, s2)
                     | (True, s2) \<Rightarrow> do {
                         (n, s3) \<leftarrow> increment_nonce s2 (ct_from t);
                         Some (Some (ct_from t, n), t\<lparr>ct_status := Executed\<rparr>, s3)
                       })
                  })))"

section \<open>Lists of transactions\<close>

definition apply_one ::
  "crates \<Rightarrow> ledger_state \<Rightarrow> signed_transaction \<Rightarrow>
   ((public_key_hash \<times> nonce) option \<times> signed_transaction \<times> ledger_state) option" where
  "apply_one X s stx =
     (case st_tx stx of
        Transfer t \<Rightarrow> do {
          (r, t', s') \<leftarrow> handle_transfer_transaction X s t;
          Some (r, stx\<lparr>st_tx := Transfer t'\<rparr>, s')
        }
      | OrderTx t \<Rightarrow> do {
          (r, t', s') \<leftarrow> handle_order_transaction s t;
          Some (r, stx\<lparr>st_tx := OrderTx t'\<rparr>, s')
        }
      | CancelOrder t \<Rightarrow> do {
          (r, t', s') \<leftarrow> handle_cancel_order_transaction s t;
          Some (r, stx\<lparr>st_tx := CancelOrder t'\<rparr>, s')
        })"

fun apply_all ::
  "crates \<Rightarrow> ledger_state \<Rightarrow> signed_transaction list \<Rightarrow>
   ((public_key_hash \<times> nonce) option list \<times> signed_transaction list \<times> ledger_state) option" where
  "apply_all X s [] = Some ([], [], s)"
| "apply_all X s (stx # stxs) = do {
     (r, stx', s') \<leftarrow> apply_one X s stx;
     (rs, stxs', s'') \<leftarrow> apply_all X s' stxs;
     Some (r # rs, stx' # stxs', s'')
   }"

section \<open>Queries\<close>

datatype client_query =
    AccountQuery public_key_hash
  | AssetQuery
  | MarketInfoQuery market_id
  | MarketsQuery

datatype client_response =
    AccountQueryReponse account_info_with_balances
  | AssetQueryResponse "asset list"
  | MarketInfoQueryResponse "market_info option"
  | MarketsQueryResponse "market_info list"

fun handle_query :: "ledger_state \<Rightarrow> client_query \<Rightarrow> client_response" where
  "handle_query s (AccountQuery pk) = AccountQueryReponse (get_account_info_with_balances_or_default s pk)"
| "handle_query s AssetQuery = AssetQueryResponse (get_asset_info s)"
| "handle_query s (MarketInfoQuery market_id) = MarketInfoQueryResponse (ledger_market_info s market_id)"
| "handle_query s MarketsQuery = MarketsQueryResponse (ledger_markets s)"

section \<open>Nonces\<close>

definition nonce_of :: "ledger_state \<Rightarrow> public_key_hash \<Rightarrow> nonce" where
  "nonce_of s pk = (case ls_accounts s pk of None \<Rightarrow> 0 | Some ai \<Rightarrow> ai_expected_nonce ai)"

lemma get_account_info_mut_nonce:
  assumes "get_account_info_mut s pk = (ai, s')"
  shows "ai_expected_nonce ai = nonce_of s pk \<and> nonce_of s' = nonce_of s \<and>
    ls_spot_clearinghouse s' = ls_spot_clearinghouse s"
  using assms by (auto simp: get_account_info_mut_def nonce_of_def account_info_new_def fun_eq_iff
      split: option.splits if_splits)

lemma put_account_nonce [simp]:
  "nonce_of (put_account s pk ai) = (nonce_of s)(pk := ai_expected_nonce ai)"
  by (auto simp: put_account_def nonce_of_def fun_eq_iff)

lemma nonce_of_updates [simp]:
  "nonce_of (s\<lparr>ls_spot_clearinghouse := ch\<rparr>) = nonce_of s"
  "nonce_of (s\<lparr>ls_order_manager := om\<rparr>) = nonce_of s"
  "nonce_of (put_balance s pk ab) = nonce_of s"
  by (simp_all add: nonce_of_def put_balance_def Let_def fun_eq_iff)

lemma get_account_spot_balances_mut_nonce:
  "get_account_spot_balances_mut s pk = (ab, s') \<Longrightarrow> nonce_of s' = nonce_of s"
  by (auto simp: get_account_spot_balances_mut_def Let_def split: prod.splits)

lemma mut_nonce [simp]:
  "ai_expected_nonce (fst (get_account_info_mut s pk)) = nonce_of s pk"
  "nonce_of (snd (get_account_info_mut s pk)) = nonce_of s"
  "nonce_of (snd (get_account_spot_balances_mut s pk)) = nonce_of s"
  using get_account_info_mut_nonce [of s pk] get_account_spot_balances_mut_nonce [of s pk]
  by (metis prod.collapse)+

lemma get_account_info_or_default_nonce [simp]:
  "ai_expected_nonce (get_account_info_or_default s pk) = nonce_of s pk"
  by (simp add: get_account_info_or_default_def nonce_of_def account_info_new_def split: option.splits)

lemma update_limit_order_nonce:
  "update_limit_order ai i n = Some ai' \<Longrightarrow> ai_expected_nonce ai' = ai_expected_nonce ai"
  by (auto simp: update_limit_order_def checked split: if_splits)

lemma apply_user_change_nonce:
  "apply_user_change s order pk change = Some s' \<Longrightarrow> nonce_of s' = nonce_of s"
  by (auto simp: apply_user_change_def checked Let_def fun_eq_iff
      split: option.splits order_change.splits order.splits prod.splits
      dest!: update_limit_order_nonce get_account_info_mut_nonce)

lemma complete_filled_orders_nonce:
  "complete_filled_orders s los = Some s' \<Longrightarrow> nonce_of s' = nonce_of s"
proof (induction los arbitrary: s)
  case (Cons lo los)
  then obtain s1 where 1: "complete_filled_order s lo = Some s1"
    and 2: "complete_filled_orders s1 los = Some s'"
    by (auto simp: bind_eq_Some_conv)
  from 1 have "nonce_of s1 = nonce_of s"
    by (auto simp: complete_filled_order_def checked Let_def fun_eq_iff
        split: option.splits prod.splits dest!: get_account_info_mut_nonce)
  with Cons.IH [OF 2] show ?case by simp
qed simp

lemma update_residual_order_nonce:
  "update_residual_order s r = Some s' \<Longrightarrow> nonce_of s' = nonce_of s"
  by (auto simp: update_residual_order_def checked Let_def fun_eq_iff
      split: option.splits prod.splits dest!: get_account_info_mut_nonce)

lemma apply_execution_results_nonce:
  "apply_execution_results s order pk r = Some s' \<Longrightarrow> nonce_of s' = nonce_of s"
  by (auto simp: apply_execution_results_def bind_eq_Some_conv split: option.splits
      dest!: apply_user_change_nonce complete_filled_orders_nonce update_residual_order_nonce)

lemma increment_nonce_nonce:
  "increment_nonce s pk = Some (n, s') \<Longrightarrow> n = nonce_of s pk + 1 \<and> nonce_of s' = (nonce_of s)(pk := n)"
  by (auto simp: increment_nonce_def checked Let_def split: prod.splits dest!: get_account_info_mut_nonce)

lemma create_order_nonce:
  "create_order s t = Some (order, s') \<Longrightarrow> nonce_of s' = nonce_of s"
  by (auto simp: create_order_def bind_eq_Some_conv Let_def case_prod_beta split: order_type.splits)

lemma complete_cancelled_order_nonce:
  "complete_cancelled_order s pk order = (b, s') \<Longrightarrow> nonce_of s' = nonce_of s"
  by (auto simp: complete_cancelled_order_def Let_def fun_eq_iff
      split: option.splits prod.splits dest!: get_account_info_mut_nonce)

lemma prepare_transfer_transaction_nonce:
  "prepare_transfer_transaction X s t = (r, s') \<Longrightarrow> nonce_of s' = nonce_of s"
  by (auto simp: prepare_transfer_transaction_def Let_def
      split: option.splits prod.splits if_splits
      dest!: get_account_info_mut_nonce get_account_spot_balances_mut_nonce)

lemma commit_transfer_transaction_nonce:
  "commit_transfer_transaction s d = Some (n, s') \<Longrightarrow>
   n = nonce_of s (td_nonce_delta d) + 1 \<and> nonce_of s' = (nonce_of s)(td_nonce_delta d := n)"
  by (auto simp: commit_transfer_transaction_def checked Let_def case_prod_beta)

text \<open>
  What one transaction does to the nonces: either it is executed, and then it carried the
  sender's expected nonce, which is advanced by one, or no nonce changes.
\<close>

definition nonce_step ::
  "ledger_state \<Rightarrow> public_key_hash \<Rightarrow> nonce \<Rightarrow> (public_key_hash \<times> nonce) option \<Rightarrow> ledger_state \<Rightarrow> bool" where
  "nonce_step s from nonce r s' \<longleftrightarrow>
     (case r of
        None \<Rightarrow> nonce_of s' = nonce_of s
      | Some (pk, n) \<Rightarrow> pk = from \<and> nonce = nonce_of s from \<and> n = nonce + 1 \<and>
          nonce_of s' = (nonce_of s)(from := n))"

text \<open>The outcomes of the three handlers, as case rules.\<close>

lemma handle_transfer_transaction_cases:
  assumes "handle_transfer_transaction X s t = Some (r, t', s')"
  obtains (rejected) ai why where "get_account_info_mut s (tt_from t) = (ai, s')"
      "tt_nonce t \<noteq> ai_expected_nonce ai" "r = None" "t' = t\<lparr>tt_status := RejectedTx why\<rparr>"
  | (failed) ai s1 err where "get_account_info_mut s (tt_from t) = (ai, s1)"
      "tt_nonce t = ai_expected_nonce ai" "prepare_transfer_transaction X s1 t = (Inl err, s')"
      "r = None" "t' = t\<lparr>tt_status := ErrorTx err\<rparr>"
  | (executed) ai s1 delta s2 n where "get_account_info_mut s (tt_from t) = (ai, s1)"
      "tt_nonce t = ai_expected_nonce ai" "prepare_transfer_transaction X s1 t = (Inr delta, s2)"
      "commit_transfer_transaction s2 delta = Some (n, s')"
      "r = Some (tt_from t, n)" "t' = t\<lparr>tt_status := Executed\<rparr>"
proof -
  obtain ai s1 where get: "get_account_info_mut s (tt_from t) = (ai, s1)" by fastforce
  obtain p s2 where prep: "prepare_transfer_transaction X s1 t = (p, s2)" by fastforce
  show thesis
  proof (cases "tt_nonce t = ai_expected_nonce ai")
    case False
    with assms get rejected show thesis
      by (auto simp: handle_transfer_transaction_def split: if_splits)
  next
    case True
    with assms get prep failed executed show thesis
      by (cases p) (auto simp: handle_transfer_transaction_def bind_eq_Some_conv)
  qed
qed

lemma handle_order_transaction_cases:
  assumes "handle_order_transaction s t = Some (r, t', s')"
  obtains (rejected) ai why where "get_account_info_mut s (ot_from t) = (ai, s')"
      "ot_nonce t \<noteq> ai_expected_nonce ai \<or> self_crosses ai t" "r = None"
      "t' = t\<lparr>ot_status := RejectedTx why\<rparr>"
  | (missing) ai s1 order res where "get_account_info_mut s (ot_from t) = (ai, s1)"
      "ot_nonce t = ai_expected_nonce ai" "\<not> self_crosses ai t"
      "create_order s1 t = Some (order, s')" "precision_of s' (ot_market_id t) = Inl res"
      "r = None" "t' = t\<lparr>ot_status := ErrorTx (ResourceNotFound res)\<rparr>"
  | (executed) ai s1 order s2 prec result ch s3 n where "get_account_info_mut s (ot_from t) = (ai, s1)"
      "ot_nonce t = ai_expected_nonce ai" "\<not> self_crosses ai t"
      "create_order s1 t = Some (order, s2)" "precision_of s2 (ot_market_id t) = Inr prec"
      "handle_order (ls_spot_clearinghouse s2) order prec = Some (result, ch)"
      "apply_execution_results (s2\<lparr>ls_spot_clearinghouse := ch\<rparr>) order (ot_from t) result = Some s3"
      "increment_nonce s3 (ot_from t) = Some (n, s')"
      "r = Some (ot_from t, n)" "t' = t\<lparr>ot_status := Executed\<rparr>"
proof -
  obtain ai s1 where get: "get_account_info_mut s (ot_from t) = (ai, s1)" by fastforce
  show thesis
  proof (cases "ot_nonce t = ai_expected_nonce ai \<and> \<not> self_crosses ai t")
    case False
    with assms get rejected show thesis
      by (auto simp: handle_order_transaction_def split: if_splits)
  next
    case True
    with assms get obtain order s2 where create: "create_order s1 t = Some (order, s2)"
      by (auto simp: handle_order_transaction_def bind_eq_Some_conv)
    with True assms get missing executed show thesis
      by (cases "precision_of s2 (ot_market_id t)")
        (auto simp: handle_order_transaction_def bind_eq_Some_conv)
  qed
qed

lemma handle_cancel_order_transaction_cases:
  assumes "handle_cancel_order_transaction s t = Some (r, t', s')"
  obtains (rejected) why where "ct_nonce t \<noteq> nonce_of s (ct_from t)" "r = None" "s' = s"
      "t' = t\<lparr>ct_status := RejectedTx why\<rparr>"
  | (missing) res where "r = None" "s' = s" "t' = t\<lparr>ct_status := ErrorTx (ResourceNotFound res)\<rparr>"
  | (executed) order prec cancelled ch s2 n where
      "ct_nonce t = nonce_of s (ct_from t)"
      "get_open_order (get_account_info_or_default s (ct_from t)) (ct_order_id t) = Some order"
      "precision_of s (ct_market_id t) = Inr prec"
      "cancel_order (ls_spot_clearinghouse s) order prec = Some (cancelled, ch)"
      "(if cancelled then complete_cancelled_order (s\<lparr>ls_spot_clearinghouse := ch\<rparr>) (ct_from t) order
        else (True, s\<lparr>ls_spot_clearinghouse := ch\<rparr>)) = (True, s2)"
      "increment_nonce s2 (ct_from t) = Some (n, s')"
      "r = Some (ct_from t, n)" "t' = t\<lparr>ct_status := Executed\<rparr>"
proof -
  let ?ai = "get_account_info_or_default s (ct_from t)"
  note defs = handle_cancel_order_transaction_def Let_def
  show thesis
  proof (cases "ct_nonce t = nonce_of s (ct_from t)")
    case False
    with assms rejected show thesis by (auto simp: defs split: if_splits)
  next
    case nonce: True
    show thesis
    proof (cases "get_open_order ?ai (ct_order_id t)")
      case None
      with nonce assms missing show thesis by (auto simp: defs)
    next
      case (Some order)
      show thesis
      proof (cases "precision_of s (ct_market_id t)")
        case (Inl res)
        with nonce Some assms missing show thesis by (auto simp: defs)
      next
        case (Inr prec)
        with nonce Some assms obtain cancelled ch where
          1: "cancel_order (ls_spot_clearinghouse s) order prec = Some (cancelled, ch)"
          by (auto simp: defs bind_eq_Some_conv)
        have found: "ls_accounts s (ct_from t) \<noteq> None"
          using Some by (cases "ls_accounts s (ct_from t)")
            (auto simp: get_open_order_def get_account_info_or_default_def account_info_new_def)
        have "fst (complete_cancelled_order (s\<lparr>ls_spot_clearinghouse := ch\<rparr>) (ct_from t) order)"
          using found Some position_None [of "\<lambda>x. lo_id x = lo_id order"]
          by (auto simp: complete_cancelled_order_def get_account_info_mut_def get_account_info_or_default_def
              get_open_order_def Let_def find_Some_iff split: option.splits)
        with nonce Some Inr 1 assms show thesis
          by (cases cancelled)
            (auto simp: defs bind_eq_Some_conv split: prod.splits bool.splits intro: executed)
      qed
    qed
  qed
qed

lemma handle_transfer_transaction_nonce:
  assumes "handle_transfer_transaction X s t = Some (r, t', s')"
  shows "nonce_step s (tt_from t) (tt_nonce t) r s'"
  using assms
proof (cases rule: handle_transfer_transaction_cases)
  case (executed ai s1 delta s2 n)
  moreover have "td_nonce_delta delta = tt_from t"
    using executed(3) by (auto simp: prepare_transfer_transaction_def Let_def
        split: option.splits prod.splits if_splits)
  ultimately show ?thesis
    using commit_transfer_transaction_nonce [OF executed(4)] prepare_transfer_transaction_nonce [OF executed(3)]
      get_account_info_mut_nonce [OF executed(1)] by (simp add: nonce_step_def)
qed (auto simp: nonce_step_def dest!: get_account_info_mut_nonce prepare_transfer_transaction_nonce)

lemma handle_order_transaction_nonce:
  assumes "handle_order_transaction s t = Some (r, t', s')"
  shows "nonce_step s (ot_from t) (ot_nonce t) r s'"
  using assms
  by (cases rule: handle_order_transaction_cases)
    (auto simp: nonce_step_def dest!: get_account_info_mut_nonce increment_nonce_nonce
      apply_execution_results_nonce create_order_nonce)

lemma handle_cancel_order_transaction_nonce:
  assumes "handle_cancel_order_transaction s t = Some (r, t', s')"
  shows "nonce_step s (ct_from t) (ct_nonce t) r s'"
  using assms
  by (cases rule: handle_cancel_order_transaction_cases)
    (auto simp: nonce_step_def dest!: increment_nonce_nonce complete_cancelled_order_nonce split: if_splits)

lemma handle_transfer_transaction_keeps:
  "handle_transfer_transaction X s t = Some (r, t', s') \<Longrightarrow>
   tt_from t' = tt_from t \<and> tt_nonce t' = tt_nonce t \<and> (r \<noteq> None \<longrightarrow> tt_status t' = Executed)"
  by (erule handle_transfer_transaction_cases) auto

lemma handle_order_transaction_keeps:
  "handle_order_transaction s t = Some (r, t', s') \<Longrightarrow>
   ot_from t' = ot_from t \<and> ot_nonce t' = ot_nonce t \<and> (r \<noteq> None \<longrightarrow> ot_status t' = Executed)"
  by (erule handle_order_transaction_cases) auto

lemma handle_cancel_order_transaction_keeps:
  "handle_cancel_order_transaction s t = Some (r, t', s') \<Longrightarrow>
   ct_from t' = ct_from t \<and> ct_nonce t' = ct_nonce t \<and> (r \<noteq> None \<longrightarrow> ct_status t' = Executed)"
  by (erule handle_cancel_order_transaction_cases) auto

text \<open>One transaction of any kind.\<close>

lemma apply_one_nonce:
  assumes "apply_one X s stx = Some (r, stx', s')"
  shows "nonce_step s (get_from_account stx) (get_nonce stx) r s' \<and>
    get_from_account stx' = get_from_account stx \<and> get_nonce stx' = get_nonce stx \<and>
    (r \<noteq> None \<longrightarrow> get_status stx' = Executed)"
proof (cases "st_tx stx")
  case (Transfer t)
  with assms obtain t' where h: "handle_transfer_transaction X s t = Some (r, t', s')" and stx': "stx' = stx\<lparr>st_tx := Transfer t'\<rparr>"
    by (auto simp: apply_one_def bind_eq_Some_conv)
  show ?thesis using handle_transfer_transaction_nonce [OF h] handle_transfer_transaction_keeps [OF h] stx' Transfer
    by (simp add: get_from_account_def get_nonce_def get_status_def)
next
  case (OrderTx t)
  with assms obtain t' where h: "handle_order_transaction s t = Some (r, t', s')" and stx': "stx' = stx\<lparr>st_tx := OrderTx t'\<rparr>"
    by (auto simp: apply_one_def bind_eq_Some_conv)
  show ?thesis using handle_order_transaction_nonce [OF h] handle_order_transaction_keeps [OF h] stx' OrderTx
    by (simp add: get_from_account_def get_nonce_def get_status_def)
next
  case (CancelOrder t)
  with assms obtain t' where h: "handle_cancel_order_transaction s t = Some (r, t', s')" and stx': "stx' = stx\<lparr>st_tx := CancelOrder t'\<rparr>"
    by (auto simp: apply_one_def bind_eq_Some_conv)
  show ?thesis using handle_cancel_order_transaction_nonce [OF h] handle_cancel_order_transaction_keeps [OF h] stx' CancelOrder
    by (simp add: get_from_account_def get_nonce_def get_status_def)
qed

lemma apply_one_mono: "apply_one X s stx = Some (r, stx', s') \<Longrightarrow> nonce_of s pk \<le> nonce_of s' pk"
  using apply_one_nonce [of X s stx r stx' s'] by (auto simp: nonce_step_def split: option.splits)

lemma apply_all_mono: "apply_all X s stxs = Some (rs, stxs', s') \<Longrightarrow> nonce_of s pk \<le> nonce_of s' pk"
proof (induction stxs arbitrary: s rs stxs')
  case (Cons stx stxs)
  then obtain r stx' s1 rs' stxs1 where "apply_one X s stx = Some (r, stx', s1)"
    "apply_all X s1 stxs = Some (rs', stxs1, s')" by (auto simp: bind_eq_Some_conv)
  then show ?case using apply_one_mono Cons.IH order_trans by blast
qed simp

text \<open>
  The nonces of an account's executed transactions, in the order of execution: there are no
  gaps and no repetitions.
\<close>

definition executed_nonces ::
  "public_key_hash \<Rightarrow> signed_transaction list \<Rightarrow> (public_key_hash \<times> nonce) option list \<Rightarrow> nonce list" where
  "executed_nonces pk stxs rs =
     map (\<lambda>(stx, r). get_nonce stx) (filter (\<lambda>(stx, r). r \<noteq> None \<and> get_from_account stx = pk) (zip stxs rs))"

lemma apply_all_executed_nonces:
  "apply_all X s stxs = Some (rs, stxs', s') \<Longrightarrow>
   length rs = length stxs \<and> executed_nonces pk stxs rs = [nonce_of s pk..<nonce_of s' pk]"
proof (induction stxs arbitrary: s rs stxs')
  case (Cons stx stxs)
  then obtain r stx' s1 rs' stxs1 where 1: "apply_one X s stx = Some (r, stx', s1)"
    and 2: "apply_all X s1 stxs = Some (rs', stxs1, s')" and rs: "rs = r # rs'"
    by (auto simp: bind_eq_Some_conv)
  have step: "nonce_step s (get_from_account stx) (get_nonce stx) r s1" using apply_one_nonce [OF 1] by blast
  have mono: "nonce_of s1 pk \<le> nonce_of s' pk" using apply_all_mono [OF 2] .
  show ?case
  proof (cases "r \<noteq> None \<and> get_from_account stx = pk")
    case True
    with step have "get_nonce stx = nonce_of s pk" "nonce_of s1 pk = Suc (nonce_of s pk)"
      by (auto simp: nonce_step_def)
    with True Cons.IH [OF 2] mono show ?thesis
      by (auto simp: executed_nonces_def rs upt_rec [of "nonce_of s pk"])
  next
    case False
    with step have "nonce_of s1 pk = nonce_of s pk" by (auto simp: nonce_step_def split: option.splits)
    with False Cons.IH [OF 2] show ?thesis by (auto simp: executed_nonces_def rs)
  qed
qed (simp add: executed_nonces_def)

end
