(* ===== verification/Ledger_Supply.thy ===== *)
theory Ledger_Supply
  imports Ledger
begin

text \<open>
  The effect of a transaction on the amounts of the assets: orders and cancellations leave
  every total as it is, by the conservation lemmas of \<open>Settlement\<close>; an executed transfer adds
  its amount to the recipient's total and only lowers the sender's available balance, so it
  raises the total supply of its asset. The lemmas ending in \<open>_house\<close> are the frame of the
  account updates: they do not touch the clearing house.
\<close>

section \<open>Frames\<close>

definition ledger_supply :: "ledger_state \<Rightarrow> asset_id \<Rightarrow> nat" where
  "ledger_supply s a = total_supply (ch_accounts (ls_spot_clearinghouse s)) a"

abbreviation ledger_balances :: "ledger_state \<Rightarrow> accounts" where
  "ledger_balances s \<equiv> ch_accounts (ls_spot_clearinghouse s)"

lemma get_account_info_mut_house [simp]:
  "ls_spot_clearinghouse (snd (get_account_info_mut s pk)) = ls_spot_clearinghouse s"
  "ls_asset_manager (snd (get_account_info_mut s pk)) = ls_asset_manager s"
  "ls_order_manager (snd (get_account_info_mut s pk)) = ls_order_manager s"
  by (simp_all add: get_account_info_mut_def split: option.splits)

lemma put_account_house [simp]:
  "ls_spot_clearinghouse (put_account s pk ai) = ls_spot_clearinghouse s"
  "ls_asset_manager (put_account s pk ai) = ls_asset_manager s"
  by (simp_all add: put_account_def)

lemma apply_user_change_house:
  "apply_user_change s order pk change = Some s' \<Longrightarrow> ls_spot_clearinghouse s' = ls_spot_clearinghouse s"
  by (auto simp: apply_user_change_def checked Let_def case_prod_beta
      split: option.splits order_change.splits order.splits)

lemma complete_filled_orders_house:
  "complete_filled_orders s los = Some s' \<Longrightarrow> ls_spot_clearinghouse s' = ls_spot_clearinghouse s"
proof (induction los arbitrary: s)
  case (Cons lo los)
  then obtain s1 where 1: "complete_filled_order s lo = Some s1"
    and 2: "complete_filled_orders s1 los = Some s'"
    by (auto simp: bind_eq_Some_conv)
  from 1 have "ls_spot_clearinghouse s1 = ls_spot_clearinghouse s"
    by (auto simp: complete_filled_order_def checked Let_def case_prod_beta split: option.splits)
  with Cons.IH [OF 2] show ?case by simp
qed simp

lemma update_residual_order_house:
  "update_residual_order s r = Some s' \<Longrightarrow> ls_spot_clearinghouse s' = ls_spot_clearinghouse s"
  by (auto simp: update_residual_order_def checked Let_def case_prod_beta split: option.splits)

lemma apply_execution_results_house:
  "apply_execution_results s order pk r = Some s' \<Longrightarrow> ls_spot_clearinghouse s' = ls_spot_clearinghouse s"
  by (auto simp: apply_execution_results_def bind_eq_Some_conv split: option.splits
      dest!: apply_user_change_house complete_filled_orders_house update_residual_order_house)

lemma increment_nonce_house:
  "increment_nonce s pk = Some (n, s') \<Longrightarrow> ls_spot_clearinghouse s' = ls_spot_clearinghouse s"
  by (auto simp: increment_nonce_def checked Let_def case_prod_beta)

lemma create_order_house:
  "create_order s t = Some (order, s') \<Longrightarrow> ls_spot_clearinghouse s' = ls_spot_clearinghouse s"
  by (auto simp: create_order_def bind_eq_Some_conv Let_def case_prod_beta split: order_type.splits)

lemma complete_cancelled_order_house:
  "complete_cancelled_order s pk order = (b, s') \<Longrightarrow> ls_spot_clearinghouse s' = ls_spot_clearinghouse s"
  by (auto simp: complete_cancelled_order_def Let_def case_prod_beta split: option.splits)

section \<open>Orders and cancellations\<close>

text \<open>
  What the books must satisfy for an order's settlement to balance: resting orders without
  self-fills and, for a market order, no order of the taker on the other side.
\<close>

definition clean_for :: "order_transaction \<Rightarrow> spot_market \<Rightarrow> bool" where
  "clean_for t m \<longleftrightarrow> plain_levels (sm_bids_levels m) \<and> plain_levels (sm_asks_levels m) \<and>
     (case ot_order_type t of
        LimitType _ _ \<Rightarrow> True
      | MarketType _ \<Rightarrow> foreign (ot_from t) (side_of (opposite (ot_direction t)) m))"

lemma create_order_clean:
  assumes "create_order s t = Some (order, s')" "clean_for t m"
  shows "clean_book order m"
  using assms
  by (auto simp: create_order_def new_limit_order_def new_market_order_def clean_for_def clean_book_def
      side_of_def opposite_def checked Let_def case_prod_beta
      split: order_type.splits order_direction.splits)

lemma handle_order_conserves:
  assumes "handle_order ch order prec = Some (r, ch')" "finite (dom (ch_accounts ch))"
    and "\<forall>m\<in>set (ch_markets ch). clean_book order m"
  shows "total_supply (ch_accounts ch') a = total_supply (ch_accounts ch) a"
  using assms handle_limit_order_conserves handle_market_conserves
  by (cases order) (auto simp: handle_order_def)

lemma handle_order_transaction_supply:
  assumes "handle_order_transaction s t = Some (r, t', s')" "finite (dom (ledger_balances s))"
    and "\<forall>m\<in>set (ch_markets (ls_spot_clearinghouse s)). clean_for t m"
  shows "ledger_supply s' a = ledger_supply s a"
  using assms(1)
proof (cases rule: handle_order_transaction_cases)
  case (rejected ai why)
  then show ?thesis by (metis get_account_info_mut_house(1) ledger_supply_def snd_conv)
next
  case (missing ai s1 order res)
  then show ?thesis
    by (metis create_order_house get_account_info_mut_house(1) ledger_supply_def snd_conv)
next
  case (executed ai s1 order s2 prec result ch s3 n)
  have s2: "ls_spot_clearinghouse s2 = ls_spot_clearinghouse s"
    using create_order_house [OF executed(4)] get_account_info_mut_house(1) [of s "ot_from t"] executed(1)
    by simp
  have "ls_spot_clearinghouse s' = ch"
    using increment_nonce_house [OF executed(8)] apply_execution_results_house [OF executed(7)] by simp
  moreover have "total_supply (ch_accounts ch) a = ledger_supply s a"
    using handle_order_conserves [OF executed(6)] assms(2,3) create_order_clean [OF executed(4)]
    by (simp add: s2 ledger_supply_def)
  ultimately show ?thesis by (simp add: ledger_supply_def)
qed

lemma handle_cancel_order_transaction_house:
  assumes "handle_cancel_order_transaction s t = Some (r, t', s')"
  shows "ls_spot_clearinghouse s' = ls_spot_clearinghouse s \<or>
    (\<exists>order prec b. cancel_order (ls_spot_clearinghouse s) order prec = Some (b, ls_spot_clearinghouse s'))"
  using assms
  by (auto simp: handle_cancel_order_transaction_def Let_def bind_eq_Some_conv
      split: if_splits option.splits sum.splits prod.splits bool.splits
      dest!: complete_cancelled_order_house increment_nonce_house)

lemma handle_cancel_order_transaction_supply:
  assumes "handle_cancel_order_transaction s t = Some (r, t', s')" "finite (dom (ledger_balances s))"
  shows "ledger_supply s' a = ledger_supply s a"
  using handle_cancel_order_transaction_house [OF assms(1)] cancel_order_conserves [OF _ assms(2)]
  by (auto simp: ledger_supply_def)

section \<open>Transfers\<close>

lemma spot_balances_mut:
  assumes "finite (dom (ledger_balances s))" "get_account_spot_balances_mut s pk = (ab, s')"
  shows "finite (dom (ledger_balances s'))" "ledger_supply s' a = ledger_supply s a"
    "ledger_supply (put_balance s' pk ab') a + ab_total ab a = ledger_supply s a + ab_total ab' a"
proof -
  obtain ab1 accts where g: "get_account_balance_mut (ledger_balances s) pk = (ab1, accts)"
    by fastforce
  have s': "ab1 = ab" "ledger_balances s' = accts"
    using assms(2) g by (auto simp: get_account_spot_balances_mut_def Let_def)
  note facts = supply_put [OF assms(1) g]
  show "finite (dom (ledger_balances s'))" using facts(1) s' by simp
  show "ledger_supply s' a = ledger_supply s a" using facts(2) s' by (simp add: ledger_supply_def)
  show "ledger_supply (put_balance s' pk ab') a + ab_total ab a = ledger_supply s a + ab_total ab' a"
    using facts(3) [of ab' a] s' by (simp add: ledger_supply_def put_balance_def Let_def)
qed

lemma debit_position_total:
  assumes "debit_position ab i n = Some ab'"
  shows "ab_total ab' a = ab_total ab a"
proof -
  obtain b' where i: "i < length (ab_asset_balances ab)"
    and b': "sub_available n (ab_asset_balances ab ! i) = Some b'"
    and ab': "ab' = ab\<lparr>ab_asset_balances := (ab_asset_balances ab)[i := b']\<rparr>"
    using assms by (auto simp: debit_position_def checked)
  have "atb_asset_id b' = atb_asset_id (ab_asset_balances ab ! i)"
    "atb_total_balance b' + 0 = atb_total_balance (ab_asset_balances ab ! i) + 0"
    using b' shifts_simps(2) [of n] by (auto simp: shifts_def)
  from ab_total_update [OF i this, of a] show ?thesis by (simp add: ab')
qed

lemma credit_asset_total:
  assumes "credit_asset ab x n = Some ab'"
  shows "ab_total ab' a = ab_total ab a + amount x a n"
proof (cases "position (\<lambda>t. atb_asset_id t = x) (ab_asset_balances ab)")
  case None
  with assms show ?thesis by (auto simp: credit_asset_def ab_total_def amount_def)
next
  case (Some i)
  have i: "i < length (ab_asset_balances ab)" "atb_asset_id (ab_asset_balances ab ! i) = x"
    using position_Some [OF Some] by auto
  obtain b' where b': "credit n (ab_asset_balances ab ! i) = Some b'"
    and ab': "ab' = ab\<lparr>ab_asset_balances := (ab_asset_balances ab)[i := b']\<rparr>"
    using assms Some by (auto simp: credit_asset_def checked)
  have "atb_asset_id b' = atb_asset_id (ab_asset_balances ab ! i)"
    "atb_total_balance b' + 0 = atb_total_balance (ab_asset_balances ab ! i) + n"
    using b' shifts_simps(4) [of n] by (auto simp: shifts_def)
  from ab_total_update [OF i(1) this, of a] this i(2) show ?thesis by (simp add: ab')
qed

lemma commit_transfer_supply:
  assumes "commit_transfer_transaction s d = Some (n, s')" "finite (dom (ledger_balances s))"
  shows "ledger_supply s' a =
    ledger_supply s a + amount (ad_asset_id (td_asset_in d)) a (ad_amount (td_asset_in d))"
proof -
  obtain ai s1 where 1: "get_account_info_mut s (td_nonce_delta d) = (ai, s1)" by fastforce
  define s2 where "s2 = put_account s1 (td_nonce_delta d) (ai\<lparr>ai_expected_nonce := ai_expected_nonce ai + 1\<rparr>)"
  obtain ab s3 where 3: "get_account_spot_balances_mut s2 (ad_account (td_asset_out d)) = (ab, s3)"
    by fastforce
  obtain ab' where 4: "debit_position ab (ad_asset_id (td_asset_out d)) (ad_amount (td_asset_out d)) = Some ab'"
    using assms(1) 1 3 by (auto simp: commit_transfer_transaction_def checked Let_def s2_def)
  define s4 where "s4 = put_balance s3 (ad_account (td_asset_out d)) ab'"
  obtain tb s5 where 5: "get_account_spot_balances_mut s4 (ad_account (td_asset_in d)) = (tb, s5)"
    by fastforce
  obtain tb' where 6: "credit_asset tb (ad_asset_id (td_asset_in d)) (ad_amount (td_asset_in d)) = Some tb'"
    and s': "s' = put_balance s5 (ad_account (td_asset_in d)) tb'"
    using assms(1) 1 3 4 5 by (auto simp: commit_transfer_transaction_def checked Let_def s2_def s4_def)
  have s2: "ls_spot_clearinghouse s2 = ls_spot_clearinghouse s"
    using get_account_info_mut_house(1) [of s "td_nonce_delta d"] 1 by (simp add: s2_def)
  then have fin2: "finite (dom (ledger_balances s2))" using assms(2) by simp
  have "finite (dom (ledger_balances s3))" by (rule spot_balances_mut(1) [OF fin2 3])
  then have fin4: "finite (dom (ledger_balances s4))" by (simp add: s4_def put_balance_def Let_def)
  have "ledger_supply s4 a = ledger_supply s a"
    using spot_balances_mut(3) [OF fin2 3, of ab' a] debit_position_total [OF 4, of a] s2
    by (simp add: s4_def ledger_supply_def)
  then show ?thesis
    using spot_balances_mut(3) [OF fin4 5, of tb' a] credit_asset_total [OF 6, of a] by (simp add: s')
qed

lemma prepare_transfer_supply:
  assumes "prepare_transfer_transaction X s t = (r, s')" "finite (dom (ledger_balances s))"
  shows "finite (dom (ledger_balances s'))" "ledger_supply s' a = ledger_supply s a"
    "\<And>d. r = Inr d \<Longrightarrow> td_asset_in d = \<lparr>ad_account = tt_to t, ad_asset_id = tt_asset_id t,
       ad_amount = tt_amount t, ad_is_increase = True\<rparr>"
proof -
  obtain ab s1 where 1: "get_account_spot_balances_mut s (tt_from t) = (ab, s1)" by fastforce
  have s': "ls_spot_clearinghouse s' = ls_spot_clearinghouse s1"
    using assms(1) 1 get_account_info_mut_house(1) [of s1 "tt_to t"]
    by (auto simp: prepare_transfer_transaction_def Let_def case_prod_beta split: option.splits if_splits)
  show "finite (dom (ledger_balances s'))" using spot_balances_mut(1) [OF assms(2) 1] s' by simp
  show "ledger_supply s' a = ledger_supply s a"
    using spot_balances_mut(2) [OF assms(2) 1, of a] s' by (simp add: ledger_supply_def)
  show "\<And>d. r = Inr d \<Longrightarrow> td_asset_in d = \<lparr>ad_account = tt_to t, ad_asset_id = tt_asset_id t,
       ad_amount = tt_amount t, ad_is_increase = True\<rparr>"
    using assms(1) 1
    by (auto simp: prepare_transfer_transaction_def Let_def case_prod_beta split: option.splits if_splits)
qed

lemma handle_transfer_transaction_supply:
  assumes "handle_transfer_transaction X s t = Some (r, t', s')" "finite (dom (ledger_balances s))"
  shows "ledger_supply s' a =
    ledger_supply s a + (if r = None then 0 else amount (tt_asset_id t) a (tt_amount t))"
  using assms(1)
proof (cases rule: handle_transfer_transaction_cases)
  case (rejected ai why)
  have "ls_spot_clearinghouse s' = ls_spot_clearinghouse s"
    using get_account_info_mut_house(1) [of s "tt_from t"] rejected(1) by simp
  with rejected(3) show ?thesis by (simp add: ledger_supply_def)
next
  case (failed ai s1 err)
  have s1: "ls_spot_clearinghouse s1 = ls_spot_clearinghouse s"
    using get_account_info_mut_house(1) [of s "tt_from t"] failed(1) by simp
  then show ?thesis using prepare_transfer_supply(2) [OF failed(3), of a] assms(2) failed(4)
    by (simp add: ledger_supply_def)
next
  case (executed ai s1 delta s2 n)
  have s1: "ls_spot_clearinghouse s1 = ls_spot_clearinghouse s"
    using get_account_info_mut_house(1) [of s "tt_from t"] executed(1) by simp
  then have fin: "finite (dom (ledger_balances s1))" using assms(2) by simp
  note prep = prepare_transfer_supply [OF executed(3) fin]
  show ?thesis
    using commit_transfer_supply [OF executed(4) prep(1), of a] prep(2) [of a] prep(3) [OF refl] s1 executed(5)
    by (simp add: ledger_supply_def)
qed

section \<open>One transaction\<close>

definition clean_tx :: "unsigned_transaction \<Rightarrow> ledger_state \<Rightarrow> bool" where
  "clean_tx tx s \<longleftrightarrow>
     (case tx of
        OrderTx t \<Rightarrow> (\<forall>m\<in>set (ch_markets (ls_spot_clearinghouse s)). clean_for t m)
      | _ \<Rightarrow> True)"

definition minted :: "unsigned_transaction \<Rightarrow> asset_id \<Rightarrow> nat" where
  "minted tx a = (case tx of Transfer t \<Rightarrow> amount (tt_asset_id t) a (tt_amount t) | _ \<Rightarrow> 0)"

lemma apply_one_supply:
  assumes "apply_one X s stx = Some (r, stx', s')" "finite (dom (ledger_balances s))"
    and "clean_tx (st_tx stx) s"
  shows "ledger_supply s' a = ledger_supply s a + (if r = None then 0 else minted (st_tx stx) a)"
  using assms handle_transfer_transaction_supply [OF _ assms(2)]
    handle_order_transaction_supply [OF _ assms(2)] handle_cancel_order_transaction_supply [OF _ assms(2)]
  by (cases "st_tx stx") (auto simp: apply_one_def checked minted_def clean_tx_def)

section \<open>Rejected nonces\<close>

lemma apply_one_wrong_nonce:
  assumes "get_nonce stx \<noteq> nonce_of s (get_from_account stx)"
  shows "\<exists>stx' s' why. apply_one X s stx = Some (None, stx', s') \<and> get_status stx' = RejectedTx why \<and>
    nonce_of s' = nonce_of s \<and> ls_spot_clearinghouse s' = ls_spot_clearinghouse s \<and>
    ls_order_manager s' = ls_order_manager s"
  using assms
  by (cases "st_tx stx")
    (auto simp: apply_one_def handle_transfer_transaction_def handle_order_transaction_def
      handle_cancel_order_transaction_def get_nonce_def get_from_account_def get_status_def
      Let_def case_prod_beta)

end
