(* ===== verification/Mempool.thy ===== *)
theory Mempool
  imports Transactions
begin

text \<open>
  The priority mempool (\<^verbatim>\<open>src/src/hotstuff/mempool.rs\<close>): pending transactions by account and nonce,
  and three buckets of keys of the transactions that are ready, by priority. The counters are
  machine integers whose decrements panic below zero; the invariant shows that they never
  do, and that a block is never given more transactions than it asked for.
\<close>

section \<open>State and operations\<close>

type_synonym account_queue = "nonce \<rightharpoonup> signed_transaction"
type_synonym priority_index = "public_key_hash \<times> nonce"

datatype priority_level = Liquidation | CancelPriority | Other

record priority_mempool =
  pm_length :: nat
  pm_ready_transactions_length :: nat
  pm_account_queues :: "public_key_hash \<rightharpoonup> account_queue"
  pm_buckets :: "priority_level \<Rightarrow> priority_index list"

definition mempool_new :: priority_mempool where
  "mempool_new = \<lparr>pm_length = 0, pm_ready_transactions_length = 0,
     pm_account_queues = Map.empty, pm_buckets = (\<lambda>_. [])\<rparr>"

fun priority_of :: "unsigned_transaction \<Rightarrow> priority_level" where
  "priority_of (Transfer _) = Other"
| "priority_of (OrderTx _) = Other"
| "priority_of (CancelOrder _) = CancelPriority"

text \<open>\<open>push_back\<close> on one bucket.\<close>

definition push_bucket :: "priority_level \<Rightarrow> priority_index \<Rightarrow> priority_mempool \<Rightarrow> priority_mempool" where
  "push_bucket pr k mp = mp\<lparr>pm_buckets := (pm_buckets mp)(pr := pm_buckets mp pr @ [k])\<rparr>"

text \<open>\<open>account_queues.entry(pk).or_default()\<close>.\<close>

definition queue_of :: "priority_mempool \<Rightarrow> public_key_hash \<Rightarrow> account_queue" where
  "queue_of mp pk = (case pm_account_queues mp pk of Some q \<Rightarrow> q | None \<Rightarrow> Map.empty)"

definition mempool_insert :: "priority_mempool \<Rightarrow> signed_transaction \<Rightarrow> nonce \<Rightarrow> priority_mempool option" where
  "mempool_insert mp txn expected_nonce =
     (let transaction_nonce = get_nonce txn; transaction_from = get_from_account txn in
      if transaction_nonce < expected_nonce then Some mp
      else do {
        mp1 \<leftarrow> (if transaction_nonce = expected_nonce then do {
                  ready \<leftarrow> add64 (pm_ready_transactions_length mp) 1;
                  Some ((push_bucket (priority_of (st_tx txn)) (transaction_from, expected_nonce) mp)
                          \<lparr>pm_ready_transactions_length := ready\<rparr>)
                }
                else Some mp);
        len \<leftarrow> add64 (pm_length mp1) 1;
        Some (mp1\<lparr>pm_length := len,
                  pm_account_queues := (pm_account_queues mp1)
                    (transaction_from \<mapsto> (queue_of mp transaction_from)(transaction_nonce \<mapsto> txn))\<rparr>)
      })"

text \<open>\<open>_pop_next\<close>: one transaction. An unknown account makes it try the next bucket.\<close>

fun pop_next_from :: "priority_level list \<Rightarrow> priority_mempool \<Rightarrow> (signed_transaction option \<times> priority_mempool) option" where
  "pop_next_from [] mp = Some (None, mp)"
| "pop_next_from (pr # prs) mp =
     (case pm_buckets mp pr of
        [] \<Rightarrow> pop_next_from prs mp
      | (pk, nonce) # rest \<Rightarrow>
          (let mp1 = mp\<lparr>pm_buckets := (pm_buckets mp)(pr := rest)\<rparr>
           in case pm_account_queues mp pk of
                None \<Rightarrow> pop_next_from prs mp1
              | Some q \<Rightarrow> do {
                  len \<leftarrow> checked_sub (pm_length mp1) 1;
                  ready \<leftarrow> checked_sub (pm_ready_transactions_length mp1) 1;
                  Some (q nonce, mp1\<lparr>pm_length := len, pm_ready_transactions_length := ready,
                    pm_account_queues := (pm_account_queues mp1)(pk \<mapsto> q(nonce := None))\<rparr>)
                }))"

definition pop_next :: "priority_mempool \<Rightarrow> (signed_transaction option \<times> priority_mempool) option" where
  "pop_next mp = pop_next_from [Liquidation, CancelPriority, Other] mp"

text \<open>
  \<open>pop_next_n\<close> first takes keys out of the buckets: all of them, or \<open>n\<close> by priority.
\<close>

fun drain_all :: "priority_level list \<Rightarrow> priority_mempool \<Rightarrow> priority_index list \<times> priority_mempool" where
  "drain_all [] mp = ([], mp)"
| "drain_all (pr # prs) mp =
     (let (ks, mp') = drain_all prs (mp\<lparr>pm_buckets := (pm_buckets mp)(pr := [])\<rparr>)
      in (pm_buckets mp pr @ ks, mp'))"

fun drain_n :: "priority_level list \<Rightarrow> nat \<Rightarrow> priority_mempool \<Rightarrow> priority_index list \<times> priority_mempool" where
  "drain_n [] n mp = ([], mp)"
| "drain_n (pr # prs) n mp =
     (let t = min n (length (pm_buckets mp pr));
          taken = take t (pm_buckets mp pr);
          mp1 = mp\<lparr>pm_buckets := (pm_buckets mp)(pr := drop t (pm_buckets mp pr))\<rparr>
      in if n - t = 0 then (taken, mp1)
         else (let (ks, mp') = drain_n prs (n - t) mp1 in (taken @ ks, mp')))"

text \<open>Then it looks each key up and removes the transaction it finds.\<close>

fun take_keys :: "priority_index list \<Rightarrow> priority_mempool \<Rightarrow> (signed_transaction list \<times> priority_mempool) option" where
  "take_keys [] mp = Some ([], mp)"
| "take_keys ((pk, nonce) # ks) mp =
     (case pm_account_queues mp pk of
        None \<Rightarrow> take_keys ks mp
      | Some q \<Rightarrow>
          (case q nonce of
             None \<Rightarrow> take_keys ks mp
           | Some transaction \<Rightarrow> do {
               len \<leftarrow> checked_sub (pm_length mp) 1;
               ready \<leftarrow> checked_sub (pm_ready_transactions_length mp) 1;
               (txs, mp') \<leftarrow> take_keys ks (mp\<lparr>pm_length := len, pm_ready_transactions_length := ready,
                 pm_account_queues := (pm_account_queues mp)(pk \<mapsto> q(nonce := None))\<rparr>);
               Some (transaction # txs, mp')
             }))"

definition pop_next_n :: "priority_mempool \<Rightarrow> nat \<Rightarrow> (signed_transaction list \<times> priority_mempool) option" where
  "pop_next_n mp n =
     (let priorities = [Liquidation, CancelPriority, Other];
          (keys, mp1) = (if pm_ready_transactions_length mp < n then drain_all priorities mp
                         else drain_n priorities n mp)
      in take_keys keys mp1)"

text \<open>After a block: the next transaction of each account whose nonce advanced is ready.\<close>

fun update_after_execution ::
  "priority_mempool \<Rightarrow> (public_key_hash \<times> nonce) option list \<Rightarrow> priority_mempool option" where
  "update_after_execution mp [] = Some mp"
| "update_after_execution mp (None # rs) = update_after_execution mp rs"
| "update_after_execution mp (Some (pk, next_expected_nonce) # rs) =
     (case pm_account_queues mp pk of
        None \<Rightarrow> update_after_execution mp rs
      | Some account \<Rightarrow>
          if account next_expected_nonce \<noteq> None then do {
            ready \<leftarrow> add64 (pm_ready_transactions_length mp) 1;
            update_after_execution
              ((push_bucket Other (pk, next_expected_nonce) mp)\<lparr>pm_ready_transactions_length := ready\<rparr>) rs
          }
          else update_after_execution mp rs)"

section \<open>The invariant\<close>

text \<open>
  \<open>stored\<close> is the set of keys that have a transaction. The ready counter bounds the keys in
  the buckets, the length counter bounds the stored transactions, and a transaction is stored
  under its own sender and nonce.
\<close>

definition lookup :: "priority_mempool \<Rightarrow> priority_index \<Rightarrow> signed_transaction option" where
  "lookup mp k = queue_of mp (fst k) (snd k)"

definition stored :: "priority_mempool \<Rightarrow> priority_index set" where
  "stored mp = {k. lookup mp k \<noteq> None}"

definition bucket_keys :: "priority_mempool \<Rightarrow> priority_index list" where
  "bucket_keys mp = pm_buckets mp Liquidation @ pm_buckets mp CancelPriority @ pm_buckets mp Other"

definition mempool_ok :: "priority_mempool \<Rightarrow> bool" where
  "mempool_ok mp \<longleftrightarrow>
     length (bucket_keys mp) \<le> pm_ready_transactions_length mp \<and>
     finite (stored mp) \<and> card (stored mp) \<le> pm_length mp \<and>
     (\<forall>k tx. lookup mp k = Some tx \<longrightarrow> (get_from_account tx, get_nonce tx) = k)"

lemma mempool_new_ok: "mempool_ok mempool_new"
  by (simp add: mempool_ok_def mempool_new_def bucket_keys_def stored_def lookup_def queue_of_def)

lemma lookup_updates [simp]:
  "lookup (mp\<lparr>pm_length := l\<rparr>) = lookup mp"
  "lookup (mp\<lparr>pm_ready_transactions_length := l\<rparr>) = lookup mp"
  "lookup (mp\<lparr>pm_buckets := b\<rparr>) = lookup mp"
  "lookup (push_bucket pr k mp) = lookup mp"
  by (simp_all add: lookup_def queue_of_def push_bucket_def fun_eq_iff)

lemma lookup_put:
  "lookup (mp\<lparr>pm_account_queues := (pm_account_queues mp)(pk \<mapsto> (queue_of mp pk)(n := t))\<rparr>) =
   (lookup mp)((pk, n) := t)"
  by (auto simp: lookup_def queue_of_def fun_eq_iff)

lemma lookup_put_queue:
  "pm_account_queues mp pk = Some q \<Longrightarrow>
   lookup (mp\<lparr>pm_account_queues := (pm_account_queues mp)(pk \<mapsto> q(n := t))\<rparr>) = (lookup mp)((pk, n) := t)"
  using lookup_put [of mp pk n t] by (simp add: queue_of_def)

lemma stored_put:
  assumes "lookup mp' = (lookup mp)(k := t)"
  shows "stored mp' = (if t = None then stored mp - {k} else insert k (stored mp))"
  using assms by (auto simp: stored_def)

lemma push_bucket_length [simp]:
  "length (bucket_keys (push_bucket pr k mp)) = Suc (length (bucket_keys mp))"
  by (cases pr) (auto simp: bucket_keys_def push_bucket_def)

lemma push_bucket_set [simp]:
  "set (bucket_keys (push_bucket pr k mp)) = insert k (set (bucket_keys mp))"
  by (cases pr) (auto simp: bucket_keys_def push_bucket_def)

lemma push_bucket_fields [simp]:
  "pm_length (push_bucket pr k mp) = pm_length mp"
  "pm_ready_transactions_length (push_bucket pr k mp) = pm_ready_transactions_length mp"
  "pm_account_queues (push_bucket pr k mp) = pm_account_queues mp"
  by (simp_all add: push_bucket_def)

lemma bucket_keys_updates [simp]:
  "bucket_keys (mp\<lparr>pm_length := l\<rparr>) = bucket_keys mp"
  "bucket_keys (mp\<lparr>pm_ready_transactions_length := l\<rparr>) = bucket_keys mp"
  "bucket_keys (mp\<lparr>pm_account_queues := q\<rparr>) = bucket_keys mp"
  by (simp_all add: bucket_keys_def)

section \<open>Insertion\<close>

abbreviation tx_key :: "signed_transaction \<Rightarrow> priority_index" where
  "tx_key tx \<equiv> (get_from_account tx, get_nonce tx)"

lemma mempool_ok_put:
  assumes ok: "mempool_ok mp" and lk: "lookup mp' = (lookup mp)(tx_key tx \<mapsto> tx)"
    and len: "pm_length mp' = pm_length mp + 1"
    and ready: "length (bucket_keys mp') \<le> pm_ready_transactions_length mp'"
  shows "mempool_ok mp'"
proof -
  have "card (insert (tx_key tx) (stored mp)) \<le> Suc (card (stored mp))"
    by (rule card_insert_le_m1) auto
  then show ?thesis using assms stored_put [OF lk] unfolding mempool_ok_def by (auto simp: lk)
qed

text \<open>Whenever an insertion returns, it keeps the invariant and stores the transaction.\<close>

lemma mempool_insert_Some:
  assumes ok: "mempool_ok mp" and ins: "mempool_insert mp txn e = Some mp'"
  shows "mempool_ok mp' \<and>
    lookup mp' = (if get_nonce txn < e then lookup mp else (lookup mp)(tx_key txn \<mapsto> txn)) \<and>
    set (bucket_keys mp') = set (bucket_keys mp) \<union> (if get_nonce txn = e then {tx_key txn} else {})"
proof (cases "get_nonce txn < e")
  case True
  with ok ins show ?thesis by (auto simp: mempool_insert_def)
next
  case False
  let ?pk = "get_from_account txn" and ?n = "get_nonce txn"
  let ?mp1 = "if ?n = e then (push_bucket (priority_of (st_tx txn)) (?pk, e) mp)
      \<lparr>pm_ready_transactions_length := pm_ready_transactions_length mp + 1\<rparr> else mp"
  let ?mp = "?mp1\<lparr>pm_length := pm_length mp + 1,
      pm_account_queues := (pm_account_queues mp)(?pk \<mapsto> (queue_of mp ?pk)(?n \<mapsto> txn))\<rparr>"
  have mp': "mp' = ?mp"
    using False ins by (auto simp: mempool_insert_def Let_def checked push_bucket_def split: if_splits)
  have lk: "lookup ?mp = (lookup mp)(tx_key txn \<mapsto> txn)"
    by (auto simp: lookup_def queue_of_def push_bucket_def fun_eq_iff)
  have "mempool_ok ?mp"
    using ok by (intro mempool_ok_put [OF ok lk]) (auto simp: mempool_ok_def)
  moreover have "set (bucket_keys ?mp) = set (bucket_keys mp) \<union> (if ?n = e then {tx_key txn} else {})"
    by (cases "priority_of (st_tx txn)") (auto simp: bucket_keys_def push_bucket_def)
  ultimately show ?thesis using lk False by (auto simp: mp')
qed

lemma mempool_insert_spec:
  assumes ok: "mempool_ok mp"
    and room: "pm_length mp + 1 < 2 ^ 64" "pm_ready_transactions_length mp + 1 < 2 ^ 64"
  shows "\<exists>mp'. mempool_insert mp txn e = Some mp' \<and> mempool_ok mp' \<and>
    lookup mp' = (if get_nonce txn < e then lookup mp else (lookup mp)(tx_key txn \<mapsto> txn)) \<and>
    set (bucket_keys mp') = set (bucket_keys mp) \<union> (if get_nonce txn = e then {tx_key txn} else {})"
proof -
  have "mempool_insert mp txn e \<noteq> None"
    using room by (simp add: mempool_insert_def Let_def checked_add_def push_bucket_def)
  then show ?thesis using mempool_insert_Some [OF ok] by blast
qed

section \<open>Taking transactions for a block\<close>

lemma drain_all_spec:
  "drain_all [Liquidation, CancelPriority, Other] mp = (bucket_keys mp, mp\<lparr>pm_buckets := \<lambda>_. []\<rparr>)"
proof -
  have "(pm_buckets mp)(Liquidation := [], CancelPriority := [], Other := []) = (\<lambda>_. [])"
  proof
    fix pr
    show "((pm_buckets mp)(Liquidation := [], CancelPriority := [], Other := [])) pr = []"
      by (cases pr) auto
  qed
  then show ?thesis by (simp add: bucket_keys_def)
qed

lemma drain_n_buckets:
  assumes "drain_n prs n mp = (ks, mp')" "distinct prs"
  shows "ks = take n (concat (map (pm_buckets mp) prs)) \<and>
    concat (map (pm_buckets mp') prs) = drop n (concat (map (pm_buckets mp) prs)) \<and>
    (\<forall>pr. pr \<notin> set prs \<longrightarrow> pm_buckets mp' pr = pm_buckets mp pr) \<and>
    pm_account_queues mp' = pm_account_queues mp \<and> pm_length mp' = pm_length mp \<and>
    pm_ready_transactions_length mp' = pm_ready_transactions_length mp"
  using assms
proof (induction prs arbitrary: n mp ks)
  case (Cons pr prs)
  define t where "t = min n (length (pm_buckets mp pr))"
  define mp1 where "mp1 = mp\<lparr>pm_buckets := (pm_buckets mp)(pr := drop t (pm_buckets mp pr))\<rparr>"
  have same: "concat (map (pm_buckets mp1) prs) = concat (map (pm_buckets mp) prs)"
    using Cons.prems(2) by (intro arg_cong [where f = concat] map_cong) (auto simp: mp1_def)
  have mp1: "pm_buckets mp1 pr = drop t (pm_buckets mp pr)" "\<And>x. x \<noteq> pr \<Longrightarrow> pm_buckets mp1 x = pm_buckets mp x"
      "pm_account_queues mp1 = pm_account_queues mp" "pm_length mp1 = pm_length mp"
      "pm_ready_transactions_length mp1 = pm_ready_transactions_length mp"
    by (simp_all add: mp1_def)
  show ?case
  proof (cases "n \<le> length (pm_buckets mp pr)")
    case True
    then have t: "t = n" by (simp add: t_def)
    then have "ks = take n (pm_buckets mp pr)" "mp' = mp1"
      using Cons.prems(1) True by (auto simp: Let_def mp1_def)
    then show ?thesis using True same t mp1 by simp
  next
    case False
    then obtain ks' where rec: "drain_n prs (n - t) mp1 = (ks', mp')"
      and ks: "ks = pm_buckets mp pr @ ks'"
      using Cons.prems(1) by (auto simp: Let_def t_def mp1_def min_def split: prod.splits)
    have "t = length (pm_buckets mp pr)" using False by (simp add: t_def)
    with Cons.IH [OF rec] Cons.prems(2) False ks same mp1 show ?thesis by auto
  qed
qed simp

lemma drain_n_spec:
  "drain_n [Liquidation, CancelPriority, Other] n mp = (ks, mp') \<Longrightarrow>
   ks = take n (bucket_keys mp) \<and> bucket_keys mp' = drop n (bucket_keys mp) \<and>
   pm_account_queues mp' = pm_account_queues mp \<and> pm_length mp' = pm_length mp \<and>
   pm_ready_transactions_length mp' = pm_ready_transactions_length mp"
  using drain_n_buckets [of "[Liquidation, CancelPriority, Other]" n mp ks mp']
  by (simp add: bucket_keys_def del: drain_n.simps take_append drop_append)

text \<open>
  Looking up a list of keys never underflows a counter that covers them; it returns each
  stored transaction once, in the order of the keys, and forgets it.
\<close>

lemma take_keys_spec:
  assumes "finite (stored mp)" "card (stored mp) \<le> pm_length mp"
    and "length ks + length (bucket_keys mp) \<le> pm_ready_transactions_length mp"
    and "\<forall>k tx. lookup mp k = Some tx \<longrightarrow> tx_key tx = k"
  shows "\<exists>txs mp'. take_keys ks mp = Some (txs, mp') \<and> mempool_ok mp' \<and>
    bucket_keys mp' = bucket_keys mp \<and>
    subseq (map tx_key txs) ks \<and> distinct (map tx_key txs) \<and>
    set txs = {tx. \<exists>k\<in>set ks. lookup mp k = Some tx} \<and>
    lookup mp' = (\<lambda>k. if k \<in> set ks then None else lookup mp k)"
  using assms
proof (induction ks arbitrary: mp)
  case Nil
  then show ?case by (auto simp: mempool_ok_def fun_eq_iff)
next
  case (Cons k ks)
  obtain pk n where k: "k = (pk, n)" by force
  show ?case
  proof (cases "lookup mp k")
    case None
    then have "take_keys (k # ks) mp = take_keys ks mp"
      by (auto simp: k lookup_def queue_of_def split: option.splits)
    with Cons.IH [of mp] Cons.prems None show ?thesis by (auto simp: fun_eq_iff intro: list_emb_Cons)
  next
    case (Some tx)
    then obtain q where q: "pm_account_queues mp pk = Some q" "q n = Some tx"
      by (auto simp: k lookup_def queue_of_def split: option.splits)
    define mp1 where "mp1 = mp\<lparr>pm_length := pm_length mp - 1,
      pm_ready_transactions_length := pm_ready_transactions_length mp - 1,
      pm_account_queues := (pm_account_queues mp)(pk \<mapsto> q(n := None))\<rparr>"
    have mp1: "pm_length mp1 = pm_length mp - 1" "bucket_keys mp1 = bucket_keys mp"
      "pm_ready_transactions_length mp1 = pm_ready_transactions_length mp - 1"
      by (simp_all add: mp1_def)
    have lk: "lookup mp1 = (lookup mp)(k := None)"
      using lookup_put_queue [OF q(1), of n None] by (simp add: k mp1_def lookup_def queue_of_def fun_eq_iff)
    have st: "stored mp1 = stored mp - {k}" using stored_put [OF lk] by simp
    have "k \<in> stored mp" using Some by (simp add: stored_def)
    then have card: "card (stored mp) = Suc (card (stored mp1))"
      using card.remove [OF Cons.prems(1)] st by simp
    have ok: "finite (stored mp1)" "card (stored mp1) \<le> pm_length mp1"
      "length ks + length (bucket_keys mp1) \<le> pm_ready_transactions_length mp1"
      "\<forall>k tx. lookup mp1 k = Some tx \<longrightarrow> tx_key tx = k"
      using Cons.prems card by (auto simp: st lk mp1)
    from Cons.IH [OF ok] obtain txs mp' where
      IH: "take_keys ks mp1 = Some (txs, mp')" "mempool_ok mp'" "bucket_keys mp' = bucket_keys mp"
        "subseq (map tx_key txs) ks" "distinct (map tx_key txs)"
        "set txs = {tx. \<exists>k\<in>set ks. lookup mp1 k = Some tx}"
        "lookup mp' = (\<lambda>k. if k \<in> set ks then None else lookup mp1 k)"
      unfolding mp1(2) by blast
    have "take_keys (k # ks) mp = Some (tx # txs, mp')"
      using IH(1) q card Cons.prems by (simp add: k checked_sub_def mp1_def)
    moreover have key: "tx_key tx = k" using Cons.prems(4) Some by blast
    moreover have "k \<notin> set (map tx_key txs)"
    proof
      assume "k \<in> set (map tx_key txs)"
      then obtain x where x: "x \<in> set txs" "tx_key x = k" by auto
      then obtain k' where "lookup mp1 k' = Some x" unfolding IH(6) by blast
      with ok(4) x(2) lk show False by (metis fun_upd_same option.distinct(1))
    qed
    moreover have "set (tx # txs) = {tx. \<exists>k\<in>set (k # ks). lookup mp k = Some tx}"
    proof -
      have "lookup mp1 k' = Some x \<longleftrightarrow> k' \<noteq> k \<and> lookup mp k' = Some x" for k' x by (simp add: lk)
      then show ?thesis using Some by (auto simp: IH(6)) (metis option.inject)+
    qed
    moreover have "lookup mp' = (\<lambda>k'. if k' \<in> set (k # ks) then None else lookup mp k')"
      by (rule ext) (simp add: IH(7) lk)
    ultimately show ?thesis using IH(2-5) by (intro exI [of _ "tx # txs"] exI [of _ mp']) simp
  qed
qed

text \<open>
  \<open>pop_next_n\<close> is the lookup of the first \<open>n\<close> keys by priority: both branches of the source
  take the same keys, because the ready counter is never smaller than the buckets.
\<close>

lemma pop_next_n_spec:
  assumes "mempool_ok mp"
  shows "\<exists>txs mp'. pop_next_n mp n = Some (txs, mp') \<and> mempool_ok mp' \<and> length txs \<le> n \<and>
    bucket_keys mp' = drop n (bucket_keys mp) \<and>
    subseq (map tx_key txs) (take n (bucket_keys mp)) \<and> distinct (map tx_key txs) \<and>
    set txs = {tx. \<exists>k\<in>set (take n (bucket_keys mp)). lookup mp k = Some tx} \<and>
    lookup mp' = (\<lambda>k. if k \<in> set (take n (bucket_keys mp)) then None else lookup mp k)"
proof -
  obtain ks mp1 where drain: "(if pm_ready_transactions_length mp < n
      then drain_all [Liquidation, CancelPriority, Other] mp
      else drain_n [Liquidation, CancelPriority, Other] n mp) = (ks, mp1)" by fastforce
  have keys: "ks = take n (bucket_keys mp) \<and> bucket_keys mp1 = drop n (bucket_keys mp) \<and>
      pm_account_queues mp1 = pm_account_queues mp \<and> pm_length mp1 = pm_length mp \<and>
      pm_ready_transactions_length mp1 = pm_ready_transactions_length mp"
  proof (cases "pm_ready_transactions_length mp < n")
    case True
    then have "length (bucket_keys mp) \<le> n" using assms by (auto simp: mempool_ok_def)
    with True drain show ?thesis by (auto simp: drain_all_spec) (simp_all add: bucket_keys_def)
  next
    case False
    with drain drain_n_spec [of n mp ks mp1] show ?thesis by simp
  qed
  have lk: "lookup mp1 = lookup mp" using keys by (simp add: lookup_def queue_of_def fun_eq_iff)
  then have st: "stored mp1 = stored mp" by (simp add: stored_def)
  have "length ks + length (bucket_keys mp1) = length (bucket_keys mp)"
    using keys by (simp add: min_def)
  then obtain txs mp' where t: "take_keys ks mp1 = Some (txs, mp')" "mempool_ok mp'"
      "bucket_keys mp' = bucket_keys mp1" "subseq (map tx_key txs) ks" "distinct (map tx_key txs)"
      "set txs = {tx. \<exists>k\<in>set ks. lookup mp1 k = Some tx}"
      "lookup mp' = (\<lambda>k. if k \<in> set ks then None else lookup mp1 k)"
    using take_keys_spec [of mp1 ks] assms keys by (auto simp: mempool_ok_def st lk)
  have "length txs \<le> length ks" using list_emb_length [OF t(4)] by simp
  moreover have "pop_next_n mp n = Some (txs, mp')"
    using drain t(1) by (simp add: pop_next_n_def Let_def)
  ultimately show ?thesis using t keys lk by auto
qed

lemma update_after_execution_Some:
  assumes "mempool_ok mp" "update_after_execution mp rs = Some mp'"
  shows "mempool_ok mp' \<and> lookup mp' = lookup mp \<and>
    set (bucket_keys mp') = set (bucket_keys mp) \<union> {k. Some k \<in> set rs \<and> lookup mp k \<noteq> None}"
  using assms
proof (induction mp rs rule: update_after_execution.induct)
  case (3 mp pk n rs)
  show ?case
  proof (cases "lookup mp (pk, n)")
    case None
    then have "update_after_execution mp (Some (pk, n) # rs) = update_after_execution mp rs"
      by (auto simp: lookup_def queue_of_def split: option.splits)
    moreover have "mempool_ok mp' \<and> lookup mp' = lookup mp \<and>
        set (bucket_keys mp') = set (bucket_keys mp) \<union> {k. Some k \<in> set rs \<and> lookup mp k \<noteq> None}"
    proof (cases "pm_account_queues mp pk")
      case None
      then show ?thesis using 3(1,4,5) by simp
    next
      case (Some q)
      then have "\<not> q n \<noteq> None" using None by (simp add: lookup_def queue_of_def)
      then show ?thesis using 3(3) [OF Some] 3(4,5) Some by simp
    qed
    ultimately show ?thesis using None by auto
  next
    case (Some tx)
    then obtain q where q: "pm_account_queues mp pk = Some q" "q n = Some tx"
      by (auto simp: lookup_def queue_of_def split: option.splits)
    let ?mp = "(push_bucket Other (pk, n) mp)
      \<lparr>pm_ready_transactions_length := pm_ready_transactions_length mp + 1\<rparr>"
    have ok: "mempool_ok ?mp" using 3(4) by (simp add: mempool_ok_def stored_def)
    have rec: "add64 (pm_ready_transactions_length mp) 1 = Some (pm_ready_transactions_length mp + 1)"
      "update_after_execution ?mp rs = Some mp'"
      using 3(5) q by (auto simp: checked)
    have "mempool_ok mp' \<and> lookup mp' = lookup ?mp \<and>
        set (bucket_keys mp') = set (bucket_keys ?mp) \<union> {k. Some k \<in> set rs \<and> lookup ?mp k \<noteq> None}"
      using q by (intro 3(2) [OF q(1) _ rec(1) ok rec(2)]) simp
    moreover have "{k. Some k \<in> set (Some (pk, n) # rs) \<and> lookup mp k \<noteq> None} =
        insert (pk, n) {k. Some k \<in> set rs \<and> lookup mp k \<noteq> None}"
      using Some by auto
    ultimately show ?thesis by simp
  qed
qed auto

text \<open>The keys that become ready: those with a stored transaction, in the order of the results.\<close>

definition promoted :: "priority_mempool \<Rightarrow> priority_index option list \<Rightarrow> priority_index list" where
  "promoted mp rs = filter (\<lambda>k. lookup mp k \<noteq> None) (List.map_filter id rs)"

lemma promoted_simps [simp]:
  "promoted mp [] = []" "promoted mp (None # rs) = promoted mp rs"
  "promoted mp (Some k # rs) = (if lookup mp k = None then promoted mp rs else k # promoted mp rs)"
  by (simp_all add: promoted_def)

lemma promoted_updates [simp]:
  "promoted (mp\<lparr>pm_ready_transactions_length := l\<rparr>) rs = promoted mp rs"
  "promoted (mp\<lparr>pm_buckets := b\<rparr>) rs = promoted mp rs"
  by (simp_all add: promoted_def)

lemma update_after_execution_exact:
  "pm_ready_transactions_length mp + length rs < 2 ^ 64 \<Longrightarrow>
   update_after_execution mp rs = Some (mp\<lparr>
     pm_buckets := (pm_buckets mp)(Other := pm_buckets mp Other @ promoted mp rs),
     pm_ready_transactions_length := pm_ready_transactions_length mp + length (promoted mp rs)\<rparr>)"
proof (induction mp rs rule: update_after_execution.induct)
  case (3 mp pk n rs)
  show ?case
  proof (cases "lookup mp (pk, n)")
    case None
    with 3 show ?thesis by (auto simp: lookup_def queue_of_def split: option.splits)
  next
    case (Some tx)
    then obtain q where q: "pm_account_queues mp pk = Some q" "q n = Some tx"
      by (auto simp: lookup_def queue_of_def split: option.splits)
    have step: "add64 (pm_ready_transactions_length mp) 1 = Some (pm_ready_transactions_length mp + 1)"
      using 3(4) by (simp add: checked_add_def)
    from 3(2) [OF q(1) _ step] 3(4) q Some step show ?thesis by (simp add: push_bucket_def cong: if_cong)
  qed
qed simp_all

lemma update_after_execution_total:
  "pm_ready_transactions_length mp + length rs < 2 ^ 64 \<Longrightarrow> \<exists>mp'. update_after_execution mp rs = Some mp'"
  by (simp add: update_after_execution_exact)

end
