(* ===== verification/Certificates.thy ===== *)
theory Certificates
  imports Transactions
begin

text \<open>
  Quorum certificates (\<^verbatim>\<open>src/src/hotstuff/crypto.rs\<close>) and the quorum threshold of
  \<^verbatim>\<open>src/src/hotstuff/replica.rs\<close>. The counting loop of \<open>verify\<close> is related to the set of distinct
  validators with a valid signature. The safety argument of the protocol needs two quorums to
  share a correct validator: the locale \<open>quorum_system\<close> states what a threshold promises, and
  is interpreted on \<open>quorum_threshold\<close> for validator sets of size \<open>3 f + 1\<close>; for other sizes
  the threshold does not promise it.
\<close>

section \<open>Certificates\<close>

type_synonym view_number = nat
type_synonym block_hash = sha256_hash

record partial_sig =
  ps_signer_id :: bytes
  ps_signature :: bytes

record quorum_certificate =
  qc_view_number :: view_number
  qc_block_hash :: block_hash
  qc_message_hash :: sha256_hash
  qc_partial_sigs :: "partial_sig list"

definition partial_sig_hash :: "crates \<Rightarrow> partial_sig \<Rightarrow> sha256_hash" where
  "partial_sig_hash X s = x_sha256 X (x_serialize_partial_sig X (ps_signer_id s) (ps_signature s))"

definition genesis_block_hash :: block_hash where
  "genesis_block_hash =
     [144, 17, 49, 216, 56, 177, 122, 172, 15, 120, 133, 184, 30, 3, 203, 220, 159, 81, 87, 160,
      3, 67, 211, 10, 178, 32, 131, 104, 94, 209, 65, 106]"

definition zero_hash :: sha256_hash where
  "zero_hash = replicate 32 0"

definition create_genesis_qc :: quorum_certificate where
  "create_genesis_qc = \<lparr>qc_view_number = 0, qc_block_hash = genesis_block_hash,
     qc_message_hash = zero_hash, qc_partial_sigs = []\<rparr>"

text \<open>\<open>from_signatures\<close> asserts that there is a signature.\<close>

definition from_signatures ::
  "view_number \<Rightarrow> block_hash \<Rightarrow> sha256_hash \<Rightarrow> partial_sig list \<Rightarrow> quorum_certificate option" where
  "from_signatures view block message sigs =
     (if sigs = [] then None
      else Some \<lparr>qc_view_number = view, qc_block_hash = block, qc_message_hash = message,
                 qc_partial_sigs = sigs\<rparr>)"

fun count_valid ::
  "crates \<Rightarrow> sha256_hash \<Rightarrow> bytes set \<Rightarrow> partial_sig list \<Rightarrow> bytes set \<Rightarrow> nat \<Rightarrow> nat" where
  "count_valid X message validator_set [] unique_signers valid_sig_count = valid_sig_count"
| "count_valid X message validator_set (sig # sigs) unique_signers valid_sig_count =
     (let pk = ps_signer_id sig in
      if pk \<notin> validator_set then count_valid X message validator_set sigs unique_signers valid_sig_count
      else if pk \<in> unique_signers then count_valid X message validator_set sigs unique_signers valid_sig_count
      else count_valid X message validator_set sigs (insert pk unique_signers)
             (if x_verify_strict X pk message (ps_signature sig) then valid_sig_count + 1
              else valid_sig_count))"

definition qc_verify :: "crates \<Rightarrow> bytes set \<Rightarrow> nat \<Rightarrow> quorum_certificate \<Rightarrow> bool" where
  "qc_verify X validator_set quorum_size qc \<longleftrightarrow>
     (if qc_view_number qc = 0 \<and> qc_block_hash qc = genesis_block_hash then True
      else quorum_size \<le> count_valid X (qc_message_hash qc) validator_set (qc_partial_sigs qc) {} 0)"

definition qc_hash :: "crates \<Rightarrow> quorum_certificate \<Rightarrow> sha256_hash" where
  "qc_hash X qc = x_sha256 X (x_serialize_qc X (qc_view_number qc) (qc_block_hash qc)
     (qc_message_hash qc) (map (partial_sig_hash X) (qc_partial_sigs qc)))"

section \<open>What a verified certificate shows\<close>

text \<open>
  The validators whose first signature in the list is valid; later signatures of a validator
  are not looked at.
\<close>

definition first_sig :: "bytes \<Rightarrow> partial_sig list \<Rightarrow> partial_sig option" where
  "first_sig pk sigs = find (\<lambda>s. ps_signer_id s = pk) sigs"

definition valid_signers :: "crates \<Rightarrow> sha256_hash \<Rightarrow> bytes set \<Rightarrow> partial_sig list \<Rightarrow> bytes set" where
  "valid_signers X message validator_set sigs =
     {pk \<in> validator_set. \<exists>s. first_sig pk sigs = Some s \<and> x_verify_strict X pk message (ps_signature s)}"

lemma valid_signers_finite: "finite (valid_signers X message V sigs)"
proof -
  have "valid_signers X message V sigs \<subseteq> ps_signer_id ` set sigs"
    by (auto simp: valid_signers_def first_sig_def find_Some_iff)
  then show ?thesis by (rule finite_subset) simp
qed

lemma first_sig_Cons:
  "first_sig pk (s # sigs) = (if ps_signer_id s = pk then Some s else first_sig pk sigs)"
  by (simp add: first_sig_def)

lemma count_valid_card:
  "count_valid X message V sigs seen c = c + card (valid_signers X message V sigs - seen)"
proof (induction sigs arbitrary: seen c)
  case Nil
  then show ?case by (simp add: valid_signers_def first_sig_def)
next
  case (Cons s sigs)
  let ?pk = "ps_signer_id s" and ?S = "valid_signers X message V sigs"
  consider (skip) "?pk \<notin> V \<or> ?pk \<in> seen" | (new) "?pk \<in> V" "?pk \<notin> seen" by blast
  then show ?case
  proof cases
    case skip
    then have "valid_signers X message V (s # sigs) - seen = ?S - seen"
      by (auto simp: valid_signers_def first_sig_Cons split: if_splits)
    with skip Cons.IH show ?thesis by (auto simp: Let_def)
  next
    case new
    let ?valid = "x_verify_strict X ?pk message (ps_signature s)"
    have "valid_signers X message V (s # sigs) - seen =
        (?S - insert ?pk seen) \<union> (if ?valid then {?pk} else {})"
      using new by (auto simp: valid_signers_def first_sig_Cons split: if_splits)
    moreover have "card ((?S - insert ?pk seen) \<union> (if ?valid then {?pk} else {})) =
        card (?S - insert ?pk seen) + (if ?valid then 1 else 0)"
      using valid_signers_finite [of X message V sigs] by (simp add: card_insert_if)
    ultimately show ?thesis using new Cons.IH by (simp add: Let_def)
  qed
qed

text \<open>The certificate that is accepted without any signature.\<close>

definition genesis_qc :: "quorum_certificate \<Rightarrow> bool" where
  "genesis_qc qc \<longleftrightarrow> qc_view_number qc = 0 \<and> qc_block_hash qc = genesis_block_hash"

lemma qc_verify_signers:
  "qc_verify X V q qc \<longleftrightarrow>
     genesis_qc qc \<or> q \<le> card (valid_signers X (qc_message_hash qc) V (qc_partial_sigs qc))"
  by (simp add: qc_verify_def genesis_qc_def count_valid_card)

section \<open>Quorums\<close>

text \<open>\<open>HotStuffReplica::quorum_threshold\<close>, of the number of validators; an empty set panics.\<close>

definition quorum_threshold :: "nat \<Rightarrow> nat option" where
  "quorum_threshold n = do {
     m \<leftarrow> checked_sub n 1;
     Some (2 * (m div 3) + 1)
   }"

text \<open>
  What the protocol relies on: among \<open>n\<close> validators of which at most \<open>f\<close> are faulty, the
  correct ones make a quorum, and any two quorums share more than \<open>f\<close> validators.
\<close>

locale quorum_system =
  fixes n f q :: nat
  assumes live_quorum: "q \<le> n - f"
    and overlap: "n + f < 2 * q"
begin

lemma quorum_intersection:
  fixes V :: "'v set"
  assumes "finite V" "card V = n" "A \<subseteq> V" "B \<subseteq> V" "q \<le> card A" "q \<le> card B"
  shows "f < card (A \<inter> B)"
proof -
  have fin: "finite A" "finite B" using assms by (auto dest: finite_subset)
  have "card (A \<union> B) \<le> n" using assms(1-4) card_mono [of V "A \<union> B"] by auto
  moreover have "card (A \<union> B) + card (A \<inter> B) = card A + card B"
    using card_Un_Int [OF fin] by simp
  ultimately show ?thesis using assms(5,6) overlap by linarith
qed

lemma correct_in_common:
  fixes V :: "'v set"
  assumes "finite V" "card V = n" "A \<subseteq> V" "B \<subseteq> V" "q \<le> card A" "q \<le> card B"
    and "card faulty \<le> f" "finite faulty"
  shows "\<exists>v. v \<in> A \<and> v \<in> B \<and> v \<notin> faulty"
proof (rule ccontr)
  assume "\<nexists>v. v \<in> A \<and> v \<in> B \<and> v \<notin> faulty"
  then have "A \<inter> B \<subseteq> faulty" by auto
  then have "card (A \<inter> B) \<le> f" using card_mono [OF assms(8)] assms(7) by (meson order_trans)
  with quorum_intersection [OF assms(1-6)] show False by simp
qed

lemma correct_make_quorum:
  fixes V :: "'v set"
  assumes "finite V" "card V = n" "faulty \<subseteq> V" "card faulty \<le> f"
  shows "q \<le> card (V - faulty)"
  using assms live_quorum card_Diff_subset [of faulty V] finite_subset [of faulty V] by simp

end

text \<open>The repository's threshold is such a system exactly for sizes \<open>3 f + 1\<close>.\<close>

interpretation threshold: quorum_system "3 * f + 1" f "the (quorum_threshold (3 * f + 1))" for f
  by unfold_locales (simp_all add: quorum_threshold_def)

text \<open>Two certificates over one validator set have a correct signer in common.\<close>

lemma qc_common_signer:
  assumes V: "finite V" "card V = 3 * f + 1" "quorum_threshold (card V) = Some q"
    and faulty: "finite faulty" "card faulty \<le> f"
    and qc1: "qc_verify X V q qc1" "\<not> genesis_qc qc1"
    and qc2: "qc_verify X V q qc2" "\<not> genesis_qc qc2"
  shows "\<exists>pk s1 s2. pk \<in> V \<and> pk \<notin> faulty \<and>
    s1 \<in> set (qc_partial_sigs qc1) \<and> ps_signer_id s1 = pk \<and>
    x_verify_strict X pk (qc_message_hash qc1) (ps_signature s1) \<and>
    s2 \<in> set (qc_partial_sigs qc2) \<and> ps_signer_id s2 = pk \<and>
    x_verify_strict X pk (qc_message_hash qc2) (ps_signature s2)"
proof -
  let ?A = "valid_signers X (qc_message_hash qc1) V (qc_partial_sigs qc1)"
  let ?B = "valid_signers X (qc_message_hash qc2) V (qc_partial_sigs qc2)"
  have q: "the (quorum_threshold (3 * f + 1)) = q" using V by simp
  have "?A \<subseteq> V" "?B \<subseteq> V" by (auto simp: valid_signers_def)
  moreover have "q \<le> card ?A" "q \<le> card ?B" using qc1 qc2 by (simp_all add: qc_verify_signers)
  ultimately obtain pk where "pk \<in> ?A" "pk \<in> ?B" "pk \<notin> faulty"
    using threshold.correct_in_common [OF V(1,2), of ?A ?B faulty] faulty q by auto
  then show ?thesis
    by (auto simp: valid_signers_def first_sig_def find_Some_iff)
      (metis nth_mem)
qed

end
