(* ===== verification/Crate_Samples.thy ===== *)
theory Crate_Samples
  imports Certificates
begin

text \<open>
  A concrete instance of the crates for the witnesses: the hexadecimal codec as \<open>hex\<close> defines
  it, a digest that agrees with the genesis hash of the source, a signature scheme and
  serialisers that satisfy the laws the source relies on and can be evaluated. They are not
  the cryptographic functions.
\<close>

definition hex_digit :: "nat \<Rightarrow> char" where
  "hex_digit n = ''0123456789abcdef'' ! n"

definition hex_value :: "char \<Rightarrow> nat option" where
  "hex_value c = position ((=) c) ''0123456789abcdef''"

fun hex_encode :: "bytes \<Rightarrow> string" where
  "hex_encode [] = []"
| "hex_encode (b # bs) = hex_digit (unat b div 16) # hex_digit (unat b mod 16) # hex_encode bs"

fun hex_decode :: "string \<Rightarrow> bytes option" where
  "hex_decode [] = Some []"
| "hex_decode [c] = None"
| "hex_decode (c # d # cs) = do {
     h \<leftarrow> hex_value c;
     l \<leftarrow> hex_value d;
     bs \<leftarrow> hex_decode cs;
     Some (of_nat (16 * h + l) # bs)
   }"

lemma hex_value_digit [simp]:
  assumes "n < 16"
  shows "hex_value (hex_digit n) = Some n"
proof -
  have "\<forall>n\<in>set [0..<16]. hex_value (hex_digit n) = Some n" by code_simp
  with assms show ?thesis by simp
qed

lemma word_unat_eq: "(of_nat (unat b) :: 8 word) = b"
  by simp

lemma hex_roundtrip: "hex_decode (hex_encode bs) = Some bs"
proof (induction bs)
  case (Cons b bs)
  have "unat b < 256" using unsigned_less [of b, where 'a = nat] by simp
  then have "unat b div 16 < 16" by simp
  moreover have "16 * (unat b div 16) + unat b mod 16 = unat b" by simp
  then have "(of_nat (16 * (unat b div 16) + unat b mod 16) :: 8 word) = b" by (metis word_unat_eq)
  ultimately show ?case using Cons by (simp del: of_nat_add of_nat_mult)
qed simp

definition pad :: "nat \<Rightarrow> bytes \<Rightarrow> bytes" where
  "pad n bs = take n (bs @ replicate n 0)"

lemma length_pad [simp]: "length (pad n bs) = n"
  by (simp add: pad_def)

definition sample_crates :: crates where
  "sample_crates =
     \<lparr>x_hex_encode = hex_encode,
      x_from_hex = (\<lambda>n s. case hex_decode s of None \<Rightarrow> None | Some bs \<Rightarrow> if length bs = n then Some bs else None),
      x_hex_decode = hex_decode,
      x_sha256 = (\<lambda>bs. if bs = [71, 69, 78, 69, 83, 73, 83] then genesis_block_hash else pad 32 bs),
      x_key_ok = (\<lambda>bs. length bs = 32),
      x_verify_strict = (\<lambda>pk m sig. sig = pad 64 (pk @ m)),
      x_sign = (\<lambda>sk m. pad 64 (pad 32 sk @ m)),
      x_verifying_key = pad 32,
      x_serialize_transaction = (\<lambda>tx. of_nat (unsigned_nonce tx) # unsigned_from tx),
      x_serialize_block = (\<lambda>parent root view. of_nat view # parent @ root),
      x_serialize_partial_sig = (\<lambda>pk sig. pk @ sig),
      x_serialize_qc = (\<lambda>view b m sigs. of_nat view # b @ m @ concat sigs),
      x_serialize_message = (\<lambda>view b q. of_nat view # b @ q)\<rparr>"

lemma sample_crates_hex: "hex_ok sample_crates"
  by (simp add: hex_ok_def sample_crates_def hex_roundtrip)

lemma sample_crates_signs: "signs sample_crates sk"
  by (simp add: signs_def sample_crates_def)

end
