(* ===== verification/Ledger_Samples.thy ===== *)
theory Ledger_Samples
  imports Ledger_Supply Mempool Crate_Samples Exchange_Samples
begin

text \<open>
  Transfers between the two accounts of the sample clearing house and a ledger around it, for
  the witnesses of the ledger, the mempool and the consensus.
\<close>

definition sample_transfer :: "nonce \<Rightarrow> nat \<Rightarrow> transfer_transaction" where
  "sample_transfer n amt = \<lparr>tt_from = taker_key, tt_to = maker_key, tt_amount = amt, tt_asset_id = 1,
     tt_status = Pending, tt_nonce = n\<rparr>"

definition sample_tx :: "nonce \<Rightarrow> nat \<Rightarrow> signed_transaction" where
  "sample_tx n amt = \<lparr>st_tx = Transfer (sample_transfer n amt), st_signature = SignatureString '''', st_hash = []\<rparr>"

definition sample_ledger :: ledger_state where
  "sample_ledger = \<lparr>ls_accounts = Map.empty, ls_asset_manager = asset_manager_new,
     ls_order_manager = order_manager_new, ls_spot_clearinghouse = sample_house\<rparr>"

lemmas ledger_eval = apply_one_def handle_transfer_transaction_def prepare_transfer_transaction_def
  commit_transfer_transaction_def get_account_info_mut_def get_account_spot_balances_mut_def
  put_account_def put_balance_def debit_position_def credit_asset_def find_asset_id_def
  account_info_new_def sample_tx_def sample_transfer_def sample_ledger_def

lemma sample_tx_simps [simp]:
  "get_nonce (sample_tx n a) = n" "get_from_account (sample_tx n a) = taker_key"
  "st_tx (sample_tx n a) = Transfer (sample_transfer n a)"
  by (simp_all add: sample_tx_def sample_transfer_def get_nonce_def get_from_account_def)

lemma sample_ledger_simps [simp]:
  "nonce_of sample_ledger pk = 0" "ls_spot_clearinghouse sample_ledger = sample_house"
  by (simp_all add: sample_ledger_def nonce_of_def)

end
