(* ===== verification/Ledger_Properties.thy ===== *)
theory Ledger_Properties
  imports Ledger_Samples
begin

text \<open>
  The properties of transactions, of the ledger and of the mempool: signatures, nonces, the
  supply of assets, and the selection of transactions for a block. Each property is followed
  by its witness where it has hypotheses.
\<close>

section \<open>Nonces\<close>

text \<open>
  C7. Whatever list of transactions is applied, the nonces of the executed transactions of an
  account are exactly the consecutive nonces from the account's expected nonce before to its
  expected nonce after: nothing is executed twice, skipped or out of order.
\<close>

theorem executed_nonces_consecutive:
  assumes "apply_all X s stxs = Some (rs, stxs', s')"
  shows "length rs = length stxs \<and> executed_nonces pk stxs rs = [nonce_of s pk..<nonce_of s' pk]"
  by (rule apply_all_executed_nonces [OF assms])

theorem executed_nonces_consecutive_witness:
  "\<exists>rs stxs' s'. apply_all sample_crates sample_ledger [sample_tx 0 10, sample_tx 7 5, sample_tx 1 20] =
     Some (rs, stxs', s') \<and>
     executed_nonces taker_key [sample_tx 0 10, sample_tx 7 5, sample_tx 1 20] rs =
       [0..<nonce_of s' taker_key] \<and> nonce_of s' taker_key = 2"
proof -
  let ?txs = "[sample_tx 0 10, sample_tx 7 5, sample_tx 1 20]"
  have "\<exists>rs stxs' s'. apply_all sample_crates sample_ledger ?txs = Some (rs, stxs', s') \<and>
      nonce_of s' taker_key = 2"
    by (simp add: exchange_eval ledger_eval nonce_of_def)
  then obtain rs stxs' s' where run: "apply_all sample_crates sample_ledger ?txs = Some (rs, stxs', s')"
    and n: "nonce_of s' taker_key = 2"
    by blast
  show ?thesis using run n executed_nonces_consecutive [OF run, of taker_key] by simp
qed

text \<open>
  C25. A transaction whose nonce is not the expected nonce of its sender never panics: it is
  rejected with a reason, and the balances, the books, the order ids and all nonces stay as
  they are.
\<close>

theorem wrong_nonce_rejected:
  assumes "get_nonce stx \<noteq> nonce_of s (get_from_account stx)"
  shows "\<exists>stx' s' why. apply_one X s stx = Some (None, stx', s') \<and> get_status stx' = RejectedTx why \<and>
    nonce_of s' = nonce_of s \<and> ls_spot_clearinghouse s' = ls_spot_clearinghouse s \<and>
    ls_order_manager s' = ls_order_manager s"
  by (rule apply_one_wrong_nonce [OF assms])

theorem wrong_nonce_rejected_witness:
  "\<exists>stx' s' why. apply_one sample_crates sample_ledger (sample_tx 7 5) = Some (None, stx', s') \<and>
     get_status stx' = RejectedTx why \<and> ls_spot_clearinghouse s' = sample_house"
  using wrong_nonce_rejected [of "sample_tx 7 5" sample_ledger sample_crates] by auto

section \<open>Supply\<close>

text \<open>
  C19. An executed transfer raises the total of its asset over all accounts by exactly the
  transferred amount, since the sender's total balance is never reduced, and changes no other total; a
  refused transfer, a cancellation and a rejected order change no total. An order changes no total
  either, provided that no resting order of any market has ever been reduced by a self trade, that
  resting orders stand at their level's price and, for a market order, that the side it takes holds only
  well-formed orders of other accounts; without this proviso the settlement of a self-filled
  maker can create assets.
\<close>

theorem transaction_supply:
  assumes "apply_one X s stx = Some (r, stx', s')" "finite (dom (ledger_balances s))"
    and "clean_tx (st_tx stx) s"
  shows "ledger_supply s' a = ledger_supply s a + (if r = None then 0 else minted (st_tx stx) a)"
  by (rule apply_one_supply [OF assms])

theorem transaction_supply_witness:
  "\<exists>r stx' s'. apply_one sample_crates sample_ledger (sample_tx 0 10) = Some (r, stx', s') \<and> r \<noteq> None \<and>
     ledger_supply s' 1 = ledger_supply sample_ledger 1 + 10"
proof -
  have "\<exists>r stx' s'. apply_one sample_crates sample_ledger (sample_tx 0 10) = Some (r, stx', s') \<and> r \<noteq> None"
    by (simp add: exchange_eval ledger_eval)
  then obtain r stx' s' where run: "apply_one sample_crates sample_ledger (sample_tx 0 10) = Some (r, stx', s')"
    and r: "r \<noteq> None"
    by blast
  have "clean_tx (st_tx (sample_tx 0 10)) sample_ledger" "minted (st_tx (sample_tx 0 10)) 1 = 10"
    by (simp_all add: clean_tx_def minted_def amount_def sample_transfer_def)
  then show ?thesis using run r transaction_supply [OF run, of 1] by auto
qed

section \<open>Signatures\<close>

text \<open>
  A transaction signed with the key of its sender passes the check of the sender, for
  every codec and signature scheme that satisfy their documented laws.
\<close>

lemma signed_transaction_verifies:
  assumes "hex_ok X" "signs X sk" "unsigned_from tx = x_verifying_key X sk"
  shows "verify_sender X (tx_sign X sk tx) = Some True"
  by (rule verify_sender_sign [OF assms])

lemma signed_transaction_verifies_witness:
  "verify_sender sample_crates (tx_sign sample_crates [9]
     (Transfer \<lparr>tt_from = pad 32 [9], tt_to = maker_key, tt_amount = 5, tt_asset_id = 0,
        tt_status = Pending, tt_nonce = 0\<rparr>)) = Some True"
  by (rule signed_transaction_verifies [OF sample_crates_hex sample_crates_signs])
    (simp add: sample_crates_def)

text \<open>
  C36. The check of a transfer does not look at its recipient, amount or asset: it is made
  against the hash stored beside the transfer, so a changed transfer passes exactly when the
  original does.
\<close>

theorem transfer_check_ignores_contents:
  "verify_sender X \<lparr>st_tx = Transfer (t\<lparr>tt_to := to, tt_amount := amt, tt_asset_id := a, tt_nonce := n\<rparr>),
     st_signature = sig, st_hash = h\<rparr> =
   verify_sender X \<lparr>st_tx = Transfer t, st_signature = sig, st_hash = h\<rparr>"
  by (simp add: verify_sender_def)

section \<open>The mempool\<close>

text \<open>
  C26. Inserting into a mempool with room never panics, keeps its invariant (the counters bound
  the stored transactions and the ready keys, and every transaction is stored under its sender
  and nonce), ignores a nonce below the expected one, otherwise stores the transaction, and
  makes it ready exactly when its nonce is the expected one.
\<close>

theorem mempool_insert_correct:
  assumes "mempool_ok mp" "pm_length mp + 1 < 2 ^ 64" "pm_ready_transactions_length mp + 1 < 2 ^ 64"
  shows "\<exists>mp'. mempool_insert mp txn e = Some mp' \<and> mempool_ok mp' \<and>
    lookup mp' = (if get_nonce txn < e then lookup mp else (lookup mp)(tx_key txn \<mapsto> txn)) \<and>
    set (bucket_keys mp') = set (bucket_keys mp) \<union> (if get_nonce txn = e then {tx_key txn} else {})"
  by (rule mempool_insert_spec [OF assms])

theorem mempool_insert_correct_witness:
  "\<exists>mp'. mempool_insert mempool_new (sample_tx 3 5) 3 = Some mp' \<and> mempool_ok mp' \<and>
     lookup mp' (taker_key, 3) = Some (sample_tx 3 5) \<and> (taker_key, 3) \<in> set (bucket_keys mp')"
proof -
  have "pm_length mempool_new = 0" "pm_ready_transactions_length mempool_new = 0"
    by (simp_all add: mempool_new_def)
  then show ?thesis using mempool_insert_correct [OF mempool_new_ok, of "sample_tx 3 5" 3] by auto
qed

text \<open>
  C18. Selecting transactions for a block never panics. The selected transactions are at most
  \<open>n\<close>, of distinct sender and nonce, in the order of the ready keys (liquidations, then
  cancellations, then the rest); they are exactly those stored under the first \<open>n\<close> ready keys,
  and they leave the mempool.
\<close>

theorem pop_next_n_correct:
  assumes "mempool_ok mp"
  shows "\<exists>txs mp'. pop_next_n mp n = Some (txs, mp') \<and> mempool_ok mp' \<and> length txs \<le> n \<and>
    bucket_keys mp' = drop n (bucket_keys mp) \<and>
    subseq (map tx_key txs) (take n (bucket_keys mp)) \<and> distinct (map tx_key txs) \<and>
    set txs = {tx. \<exists>k\<in>set (take n (bucket_keys mp)). lookup mp k = Some tx} \<and>
    lookup mp' = (\<lambda>k. if k \<in> set (take n (bucket_keys mp)) then None else lookup mp k)"
  by (rule pop_next_n_spec [OF assms])

theorem pop_next_n_correct_witness:
  "\<exists>mp txs mp'. mempool_insert mempool_new (sample_tx 0 5) 0 = Some mp \<and>
     pop_next_n mp 16 = Some (txs, mp') \<and> set txs = {sample_tx 0 5} \<and> lookup mp' (taker_key, 0) = None"
proof -
  have room: "pm_length mempool_new + 1 < 2 ^ 64" "pm_ready_transactions_length mempool_new + 1 < 2 ^ 64"
    by (simp_all add: mempool_new_def)
  from mempool_insert_spec [OF mempool_new_ok room, of "sample_tx 0 5" 0]
  obtain mp where mp: "mempool_insert mempool_new (sample_tx 0 5) 0 = Some mp" "mempool_ok mp"
    "lookup mp = (lookup mempool_new)((taker_key, 0) \<mapsto> sample_tx 0 5)"
    by auto
  have keys: "bucket_keys mp = [(taker_key, 0)]"
    using mp(1) by (auto simp: mempool_insert_def mempool_new_def bucket_keys_def push_bucket_def
        checked Let_def)
  show ?thesis using pop_next_n_correct [OF mp(2), of 16] mp(1,3) by (auto simp: keys)
qed



end
