(* ===== verification/Blocks.thy ===== *)
theory Blocks
  imports Certificates Ledger
begin

text \<open>
  Blocks (\<^verbatim>\<open>src/src/hotstuff/block.rs\<close>): creation, the hash of a block and the Merkle root of its
  transactions, and the bounded search of a chain for an ancestor. The Merkle root is
  computed in place in one vector, written as in the source, and shown equal to the
  recursive construction of the tree. The block store maps a hash to a block.
\<close>

section \<open>Data\<close>

datatype block =
    Genesis (blk_transactions: "signed_transaction list") (blk_view_number: view_number)
      (blk_justify: quorum_certificate) (blk_merkle_root: sha256_hash)
  | Normal (blk_parent_id: block_hash) (blk_transactions: "signed_transaction list")
      (blk_view_number: view_number) (blk_justify: quorum_certificate) (blk_merkle_root: sha256_hash)

type_synonym block_store = "block_hash \<rightharpoonup> block"

section \<open>The Merkle root\<close>

text \<open>
  One pass of the inner loop: \<open>for i in (0..len).step_by(2)\<close>, overwriting the first half.
\<close>

function merkle_pass :: "crates \<Rightarrow> nat \<Rightarrow> nat \<Rightarrow> sha256_hash list \<Rightarrow> sha256_hash list option" where
  "merkle_pass X len i hashes =
     (if i < len then do {
        l \<leftarrow> index hashes i;
        r \<leftarrow> index hashes (i + 1);
        merkle_pass X len (i + 2) (hashes[i div 2 := x_sha256 X (l @ r)])
      }
      else Some hashes)"
  by pat_completeness auto
termination by (relation "measure (\<lambda>(X, len, i, hashes). len - i)") auto

text \<open>The outer loop, with the last hash doubled at an odd length above one.\<close>

function merkle_loop :: "crates \<Rightarrow> nat \<Rightarrow> sha256_hash list \<Rightarrow> sha256_hash list option" where
  "merkle_loop X len hashes =
     (if 1 < len then do {
        hashes1 \<leftarrow> merkle_pass X len 0 hashes;
        let len1 = (len + 1) div 2;
        if len1 mod 2 = 1 \<and> 1 < len1 then do {
          lst \<leftarrow> index hashes1 (len1 - 1);
          _ \<leftarrow> index hashes1 len1;
          merkle_loop X (len1 + 1) (hashes1[len1 := lst])
        }
        else merkle_loop X len1 hashes1
      }
      else Some hashes)"
  by pat_completeness auto
termination
proof (relation "measure (\<lambda>(X, len, hashes). len)", goal_cases)
  case (2 X len hashes a x l y)
  then have "3 \<le> x" by presburger
  with 2 show ?case by simp
qed auto

declare merkle_pass.simps [simp del] merkle_loop.simps [simp del]

definition compute_merkle_root :: "crates \<Rightarrow> sha256_hash list \<Rightarrow> sha256_hash option" where
  "compute_merkle_root X hashes =
     (if hashes = [] then Some zero_hash
      else if length hashes = 1 then index hashes 0
      else do {
        let hashes1 = (if length hashes mod 2 = 1 then hashes @ [last hashes] else hashes);
        hashes2 \<leftarrow> merkle_loop X (length hashes1) hashes1;
        index hashes2 0
      })"

definition hash_transactions :: "crates \<Rightarrow> signed_transaction list \<Rightarrow> sha256_hash option" where
  "hash_transactions X txs =
     (if length txs = 0 then Some zero_hash
      else compute_merkle_root X (map (\<lambda>tx. tx_hash X (st_tx tx)) txs))"

definition hash_block_transaction :: "crates \<Rightarrow> block \<Rightarrow> sha256_hash option" where
  "hash_block_transaction X b = hash_transactions X (blk_transactions b)"

section \<open>Blocks\<close>

text \<open>The digest of the text \<open>GENESIS\<close>, byte by byte.\<close>

fun block_hash :: "crates \<Rightarrow> block \<Rightarrow> block_hash" where
  "block_hash X (Genesis _ _ _ _) = x_sha256 X [71, 69, 78, 69, 83, 73, 83]"
| "block_hash X (Normal parent_id _ view_number _ merkle_root) =
     x_sha256 X (x_serialize_block X parent_id merkle_root view_number)"

definition create_leaf ::
  "crates \<Rightarrow> block \<Rightarrow> signed_transaction list \<Rightarrow> view_number \<Rightarrow> quorum_certificate \<Rightarrow> block option" where
  "create_leaf X parent transactions view_number justify = do {
     root \<leftarrow> hash_transactions X transactions;
     Some (Normal (block_hash X parent) transactions view_number justify root)
   }"

definition create_genesis_block :: "block \<times> quorum_certificate" where
  "create_genesis_block =
     (let qc = create_genesis_qc in (Genesis [] 0 qc zero_hash, qc))"

text \<open>The search stops after three steps.\<close>

fun extends_loop :: "nat \<Rightarrow> block_hash \<Rightarrow> block_store \<Rightarrow> block \<Rightarrow> bool" where
  "extends_loop 0 locked_block_hash store current = False"
| "extends_loop (Suc n) locked_block_hash store current =
     (case current of
        Genesis _ _ _ _ \<Rightarrow> False
      | Normal parent_id _ _ _ _ \<Rightarrow>
          if parent_id = locked_block_hash then True
          else (case store parent_id of
                  Some b \<Rightarrow> extends_loop n locked_block_hash store b
                | None \<Rightarrow> False))"

definition extends_from :: "block \<Rightarrow> block_hash \<Rightarrow> block_store \<Rightarrow> bool" where
  "extends_from b locked_block_hash store = extends_loop 3 locked_block_hash store b"

text \<open>The application of a block by the ledger: the statuses are written into the block.\<close>

definition set_transactions :: "signed_transaction list \<Rightarrow> block \<Rightarrow> block" where
  "set_transactions txs b =
     (case b of
        Genesis _ v j m \<Rightarrow> Genesis txs v j m
      | Normal p _ v j m \<Rightarrow> Normal p txs v j m)"

definition apply_block ::
  "crates \<Rightarrow> ledger_state \<Rightarrow> block \<Rightarrow>
   ((public_key_hash \<times> nonce) option list \<times> block \<times> ledger_state) option" where
  "apply_block X s b = do {
     (rs, txs, s') \<leftarrow> apply_all X s (blk_transactions b);
     Some (rs, set_transactions txs b, s')
   }"

lemma set_transactions_hash [simp]: "block_hash X (set_transactions txs b) = block_hash X b"
  by (cases b) (auto simp: set_transactions_def)

section \<open>The tree that the root stands for\<close>

text \<open>One level of the tree: neighbours are hashed together, an odd last one with itself.\<close>

fun pair_up :: "crates \<Rightarrow> sha256_hash list \<Rightarrow> sha256_hash list" where
  "pair_up X [] = []"
| "pair_up X [x] = [x_sha256 X (x @ x)]"
| "pair_up X (x # y # xs) = x_sha256 X (x @ y) # pair_up X xs"

lemma length_pair_up [simp]: "length (pair_up X xs) = (length xs + 1) div 2"
  by (induction X xs rule: pair_up.induct) auto

function merkle_tree :: "crates \<Rightarrow> sha256_hash list \<Rightarrow> sha256_hash" where
  "merkle_tree X xs =
     (case xs of [] \<Rightarrow> zero_hash | [x] \<Rightarrow> x | _ \<Rightarrow> merkle_tree X (pair_up X xs))"
  by pat_completeness auto
termination by (relation "measure (\<lambda>(X, xs). length xs)") auto

declare merkle_tree.simps [simp del]

lemma merkle_tree_simps [simp]:
  "merkle_tree X [] = zero_hash" "merkle_tree X [x] = x"
  by (subst merkle_tree.simps, simp)+

lemma merkle_tree_step: "2 \<le> length xs \<Longrightarrow> merkle_tree X xs = merkle_tree X (pair_up X xs)"
  by (subst merkle_tree.simps) (auto split: list.splits)

text \<open>Doubling an odd last hash does not change the next level.\<close>

definition even_out :: "sha256_hash list \<Rightarrow> sha256_hash list" where
  "even_out xs = (if odd (length xs) then xs @ [last xs] else xs)"

lemma pair_up_even_out: "pair_up X (even_out xs) = pair_up X xs"
proof (induction X xs rule: pair_up.induct)
  case (3 X x y xs)
  then show ?case by (cases xs) (auto simp: even_out_def)
qed (auto simp: even_out_def)

text \<open>The pass from \<open>i = 2 k\<close>: the first \<open>k\<close> entries are done, the rest are still to be paired.\<close>

lemma merkle_pass_pair_up:
  assumes "even (length ys)" "length done = k" "2 * k \<le> length (done @ rest)"
    "drop (2 * k) (done @ rest) = ys @ tail"
  shows "\<exists>junk. merkle_pass X (2 * k + length ys) (2 * k) (done @ rest) =
    Some (done @ pair_up X ys @ junk) \<and> length (done @ pair_up X ys @ junk) = length (done @ rest)"
  using assms
proof (induction X ys arbitrary: "done" rest k rule: pair_up.induct)
  case (1 X)
  then show ?case by (auto simp: merkle_pass.simps)
next
  case (2 X x)
  then show ?case by simp
next
  case (3 X x y ys)
  let ?hs = "done @ rest"
  have len: "2 * k + 2 \<le> length ?hs"
  proof -
    have "length (drop (2 * k) ?hs) = Suc (Suc (length ys + length tail))" unfolding 3(5) by simp
    then show ?thesis unfolding length_drop by linarith
  qed
  have x: "?hs ! (2 * k) = x" "?hs ! (2 * k + 1) = y"
    using 3(5) len nth_drop [of "2 * k" ?hs 0] nth_drop [of "2 * k" ?hs 1] by simp_all
  have rest: "rest \<noteq> []" using len 3(3) by (cases rest) auto
  let ?d = "done @ [x_sha256 X (x @ y)]" and ?r = "tl rest"
  have upd: "?hs[k := x_sha256 X (x @ y)] = ?d @ ?r"
    using rest 3(3) by (cases rest) (auto simp: list_update_append)
  have "drop (2 * Suc k) (?d @ ?r) = drop (2 * Suc k) ?hs"
    by (subst upd [symmetric]) (simp add: drop_update_cancel)
  also have "\<dots> = drop 2 (drop (2 * k) ?hs)" by (simp only: drop_drop) simp
  also have "\<dots> = ys @ tail" using 3(5) by simp
  finally have dr: "drop (2 * Suc k) (?d @ ?r) = ys @ tail" .
  have "\<exists>junk. merkle_pass X (2 * Suc k + length ys) (2 * Suc k) (?d @ ?r) =
      Some (?d @ pair_up X ys @ junk) \<and> length (?d @ pair_up X ys @ junk) = length (?d @ ?r)"
    using 3(2,3) len dr rest by (intro 3(1)) auto
  moreover have "merkle_pass X (2 * k + length (x # y # ys)) (2 * k) ?hs =
      merkle_pass X (2 * Suc k + length ys) (2 * Suc k) (?d @ ?r)"
    using len x upd by (subst merkle_pass.simps) (simp add: index_def)
  ultimately show ?case using rest by auto
qed

declare length_pair_up [simp del]

text \<open>The outer loop keeps the current level, made even, at the front of the vector.\<close>

lemma merkle_loop_tree:
  assumes "level \<noteq> []" "length level = 1 \<or> even (length level)"
  shows "\<exists>hs. merkle_loop X (length level) (level @ junk) = Some hs \<and> hs \<noteq> [] \<and>
    hd hs = merkle_tree X level"
  using assms
proof (induction "length level" arbitrary: level junk rule: less_induct)
  case less
  show ?case
  proof (cases "length level = 1")
    case True
    then obtain x where "level = [x]" by (cases level) auto
    then show ?thesis by (simp add: merkle_loop.simps)
  next
    case False
    with less.prems(2) have ev: "even (length level)" by blast
    with less.prems(1) have two: "2 \<le> length level" by (cases level) (auto simp: Suc_le_eq elim: oddE)
    let ?p = "pair_up X level"
    have lp: "length ?p = length level div 2" using ev by (simp add: length_pair_up)
    obtain junk1 where pass: "merkle_pass X (length level) 0 (level @ junk) = Some (?p @ junk1)"
      and lj: "length ?p + length junk1 = length level + length junk"
      using merkle_pass_pair_up [of level "[]" 0 "level @ junk" junk X] ev by auto
    have tree: "merkle_tree X level = merkle_tree X ?p" by (rule merkle_tree_step [OF two])
    show ?thesis
    proof (cases "odd (length ?p) \<and> 1 < length ?p")
      case True
      then have junk1: "junk1 \<noteq> []" using lj lp two by (cases junk1) auto
      have ne: "?p \<noteq> []" using True by auto
      let ?e = "?p @ [last ?p]"
      have "(?p @ junk1)[length ?p := last ?p] = ?e @ tl junk1"
        using junk1 by (cases junk1) auto
      moreover have "index (?p @ junk1) (length ?p - 1) = Some (last ?p)"
        using ne True by (auto simp: index_def nth_append last_conv_nth)
      ultimately have step: "merkle_loop X (length level) (level @ junk) =
          merkle_loop X (length ?e) (?e @ tl junk1)"
        using two pass True junk1 ev lp
        by (subst merkle_loop.simps) (simp add: index_def odd_iff_mod_2_eq_one)
      have "length ?e < length level" using True lp ev by (auto elim!: evenE oddE)
      then obtain hs where "merkle_loop X (length ?e) (?e @ tl junk1) = Some hs" "hs \<noteq> []"
        "hd hs = merkle_tree X ?e"
        using less.hyps [of ?e "tl junk1"] True by auto
      moreover have "merkle_tree X ?e = merkle_tree X ?p"
      proof -
        have "merkle_tree X ?e = merkle_tree X (pair_up X ?e)"
          using True by (intro merkle_tree_step) simp
        also have "pair_up X ?e = pair_up X ?p"
          using pair_up_even_out [of X ?p] True by (simp add: even_out_def)
        also have "merkle_tree X (pair_up X ?p) = merkle_tree X ?p"
          using True by (intro merkle_tree_step [symmetric]) simp
        finally show ?thesis .
      qed
      ultimately show ?thesis using step tree by auto
    next
      case False
      then have step: "merkle_loop X (length level) (level @ junk) = merkle_loop X (length ?p) (?p @ junk1)"
        using two pass ev lp by (subst merkle_loop.simps) (auto simp: odd_iff_mod_2_eq_one)
      have "?p \<noteq> []" "length ?p < length level" using two lp by auto
      moreover have "length ?p = 1 \<or> even (length ?p)" using False two lp by auto
      ultimately show ?thesis using less.hyps [of ?p junk1] step tree by auto
    qed
  qed
qed

lemma compute_merkle_root_tree: "compute_merkle_root X hs = Some (merkle_tree X hs)"
proof -
  consider (empty) "hs = []" | (one) x where "hs = [x]" | (many) "2 \<le> length hs"
    by (cases hs rule: list.exhaust; cases "tl hs") auto
  then show ?thesis
  proof cases
    case many
    let ?e = "even_out hs"
    have "?e \<noteq> []" "even (length ?e)" "2 \<le> length ?e" using many by (auto simp: even_out_def)
    then obtain rs where "merkle_loop X (length ?e) ?e = Some rs" "rs \<noteq> []" "hd rs = merkle_tree X ?e"
      using merkle_loop_tree [of ?e X "[]"] by auto
    moreover have "merkle_tree X ?e = merkle_tree X hs"
      using \<open>2 \<le> length ?e\<close> many by (simp add: merkle_tree_step [of ?e] merkle_tree_step [of hs] pair_up_even_out)
    ultimately show ?thesis using many
      by (auto simp: compute_merkle_root_def even_out_def index_def hd_conv_nth odd_iff_mod_2_eq_one
          split: if_splits)
  qed (auto simp: compute_merkle_root_def index_def)
qed

section \<open>Ancestors\<close>

text \<open>\<open>h\<close> is the hash of the ancestor \<open>k\<close> parent links above the block, along stored blocks.\<close>

inductive ancestor :: "block_store \<Rightarrow> nat \<Rightarrow> block \<Rightarrow> block_hash \<Rightarrow> bool" for store where
  parent: "ancestor store 1 (Normal h txs v j m) h"
| above: "\<lbrakk>store p = Some b; ancestor store k b h\<rbrakk> \<Longrightarrow> ancestor store (Suc k) (Normal p txs v j m) h"

inductive_cases ancestor_Genesis [elim!]: "ancestor store k (Genesis txs v j m) h"

inductive_simps ancestor_Normal: "ancestor store k (Normal p txs v j m) h"

inductive_simps ancestor_0 [simp]: "ancestor store 0 b h"

lemma extends_loop_ancestor: "extends_loop n h store b \<longleftrightarrow> (\<exists>k\<le>n. ancestor store k b h)"
proof (induction n arbitrary: b)
  case 0
  then show ?case by simp
next
  case (Suc n)
  show ?case
  proof (cases b)
    case (Normal p txs v j m)
    show ?thesis
    proof (cases "p = h")
      case True
      then show ?thesis using Normal by (auto intro!: exI [of _ 1] ancestor.parent)
    next
      case False
      then have "(\<exists>k\<le>Suc n. ancestor store k b h) \<longleftrightarrow>
          (\<exists>b'. store p = Some b' \<and> (\<exists>k\<le>n. ancestor store k b' h))"
        using Normal by (auto simp: ancestor_Normal)
      with False Normal Suc.IH show ?thesis by (auto split: option.splits)
    qed
  qed auto
qed

end
