(* ===== verification/Messages.thy ===== *)
theory Messages
  imports Blocks
begin

text \<open>
  Consensus messages (\<^verbatim>\<open>src/src/hotstuff/message.rs\<close>), the sliding window that stores them by view
  (\<^verbatim>\<open>message_window.rs\<close>) and the counting helpers of \<^verbatim>\<open>src/src/hotstuff/utils.rs\<close>. The window is
  refined to a function from views to the messages received for them.
\<close>

section \<open>Messages\<close>

type_synonym peer_id = nat

datatype hotstuff_message =
    Proposal (msg_node: block) (msg_view: view_number) (msg_sender: peer_id) (msg_sender_view: view_number)
  | Vote (msg_node: block) (msg_partial_sig: partial_sig) (msg_view: view_number) (msg_sender: peer_id)
      (msg_sender_view: view_number)
  | NewView (msg_justify: quorum_certificate) (msg_view: view_number) (msg_sender: peer_id)
      (msg_sender_view: view_number)

definition unsigned_vote_hash :: "crates \<Rightarrow> block \<Rightarrow> view_number \<Rightarrow> sha256_hash" where
  "unsigned_vote_hash X node view = x_sha256 X (x_serialize_message X view (block_hash X node) zero_hash)"

fun message_hash :: "crates \<Rightarrow> hotstuff_message \<Rightarrow> sha256_hash" where
  "message_hash X (Proposal node view _ _) = x_sha256 X (x_serialize_message X view (block_hash X node) zero_hash)"
| "message_hash X (Vote node _ view _ _) = x_sha256 X (x_serialize_message X view (block_hash X node) zero_hash)"
| "message_hash X (NewView justify view _ _) = x_sha256 X (x_serialize_message X view zero_hash (qc_hash X justify))"

definition create_new_view_message ::
  "quorum_certificate \<Rightarrow> view_number \<Rightarrow> peer_id \<Rightarrow> view_number \<Rightarrow> hotstuff_message" where
  "create_new_view_message justify view sender sender_view = NewView justify view sender sender_view"

definition create_proposal :: "block \<Rightarrow> view_number \<Rightarrow> peer_id \<Rightarrow> view_number \<Rightarrow> hotstuff_message" where
  "create_proposal node view sender sender_view = Proposal node view sender sender_view"

definition create_vote ::
  "crates \<Rightarrow> block \<Rightarrow> view_number \<Rightarrow> peer_id \<Rightarrow> view_number \<Rightarrow> bytes \<Rightarrow> hotstuff_message" where
  "create_vote X node view sender sender_view signing_key =
     (let message_hash = unsigned_vote_hash X node view;
          signature = x_sign X signing_key message_hash
      in Vote node \<lparr>ps_signer_id = x_verifying_key X signing_key, ps_signature = signature\<rparr>
           view sender sender_view)"

definition get_view_number :: "hotstuff_message \<Rightarrow> view_number" where
  "get_view_number msg = msg_view msg"

definition get_sender :: "hotstuff_message \<Rightarrow> peer_id" where
  "get_sender msg = msg_sender msg"

definition get_sender_view :: "hotstuff_message \<Rightarrow> view_number" where
  "get_sender_view msg = msg_sender_view msg"

text \<open>A vote carries a signature of its own hash.\<close>

lemma create_vote_hash:
  "message_hash X (create_vote X node view sender sv sk) = unsigned_vote_hash X node view"
  by (simp add: create_vote_def unsigned_vote_hash_def Let_def)

section \<open>The message window\<close>

record message_window =
  mw_messages :: "hotstuff_message list list"
  mw_lowest_view :: view_number

definition window_new :: "view_number \<Rightarrow> message_window" where
  "window_new view_number = \<lparr>mw_messages = [], mw_lowest_view = view_number\<rparr>"

definition prune_before_view :: "message_window \<Rightarrow> view_number \<Rightarrow> message_window option" where
  "prune_before_view w view =
     (if view < mw_lowest_view w then Some w
      else do {
        top \<leftarrow> add64 (mw_lowest_view w) (length (mw_messages w));
        if top < view then Some (w\<lparr>mw_messages := [], mw_lowest_view := view\<rparr>)
        else do {
          to_remove \<leftarrow> checked_sub view (mw_lowest_view w);
          Some (w\<lparr>mw_messages := drop to_remove (mw_messages w), mw_lowest_view := view\<rparr>)
        }
      })"

text \<open>The vector is padded with empty views up to the message's index.\<close>

definition window_push :: "message_window \<Rightarrow> hotstuff_message \<Rightarrow> bool \<times> message_window" where
  "window_push w msg =
     (if get_view_number msg < mw_lowest_view w then (False, w)
      else
        (let i = get_view_number msg - mw_lowest_view w; ms = mw_messages w in
         (True, w\<lparr>mw_messages :=
           (if i < length ms then ms[i := ms ! i @ [msg]]
            else ms @ replicate (i - length ms) [] @ [[msg]])\<rparr>)))"

definition get_messages_for_view :: "message_window \<Rightarrow> view_number \<Rightarrow> hotstuff_message list option option" where
  "get_messages_for_view w view =
     (if view < mw_lowest_view w then Some None
      else do {
        highest_view \<leftarrow> add64 (mw_lowest_view w) (length (mw_messages w));
        if highest_view < view then Some None
        else Some (index (mw_messages w) (view - mw_lowest_view w))
      })"

text \<open>
  The iterator: the inner slice that is being read, if any, and the slices still to come.
  \<open>next\<close> moves on to the next slice that has a message.
\<close>

record message_window_iter =
  it_outer :: "hotstuff_message list list"
  it_inner :: "hotstuff_message list option"

definition window_iter :: "message_window \<Rightarrow> message_window_iter" where
  "window_iter w =
     (case mw_messages w of
        [] \<Rightarrow> \<lparr>it_outer = [], it_inner = None\<rparr>
      | v # vs \<Rightarrow> \<lparr>it_outer = vs, it_inner = Some v\<rparr>)"

function iter_next :: "message_window_iter \<Rightarrow> hotstuff_message option \<times> message_window_iter" where
  "iter_next it =
     (case it_inner it of
        Some (m # ms) \<Rightarrow> (Some m, it\<lparr>it_inner := Some ms\<rparr>)
      | _ \<Rightarrow>
          (case it_outer it of
             [] \<Rightarrow> (None, it\<lparr>it_inner := None\<rparr>)
           | v # vs \<Rightarrow> iter_next (it\<lparr>it_outer := vs, it_inner := Some v\<rparr>)))"
  by pat_completeness auto
termination by (relation "measure (\<lambda>it. length (it_outer it))") auto

declare iter_next.simps [simp del]

text \<open>What is still to come, and that \<open>next\<close> yields its first message.\<close>

definition it_rest :: "message_window_iter \<Rightarrow> hotstuff_message list" where
  "it_rest it = (case it_inner it of None \<Rightarrow> [] | Some ms \<Rightarrow> ms) @ concat (it_outer it)"

lemma iter_next_rest:
  "(case it_rest it of
      [] \<Rightarrow> fst (iter_next it) = None
    | m # ms \<Rightarrow> fst (iter_next it) = Some m \<and> it_rest (snd (iter_next it)) = ms)"
proof (induction it rule: iter_next.induct)
  case (1 it)
  show ?case
  proof (cases "it_inner it = None \<or> it_inner it = Some []")
    case False
    then obtain m ms where "it_inner it = Some (m # ms)" by (metis list.exhaust option.exhaust)
    then show ?thesis by (simp add: it_rest_def iter_next.simps [of it])
  next
    case empty: True
    show ?thesis
    proof (cases "it_outer it")
      case Nil
      with empty show ?thesis by (auto simp: it_rest_def iter_next.simps [of it])
    next
      case (Cons v vs)
      let ?it = "it\<lparr>it_outer := vs, it_inner := Some v\<rparr>"
      have eqs: "iter_next it = iter_next ?it" "it_rest it = it_rest ?it"
        using empty Cons by (auto simp: iter_next.simps [of it] it_rest_def)
      show ?thesis unfolding eqs using 1(1) [OF _ Cons] 1(2) [OF _ _ Cons] empty by auto
    qed
  qed
qed

text \<open>Reading the iterator to its end.\<close>

function iter_collect :: "message_window_iter \<Rightarrow> hotstuff_message list" where
  "iter_collect it =
     (case iter_next it of (None, _) \<Rightarrow> [] | (Some m, it') \<Rightarrow> m # iter_collect it')"
  by pat_completeness auto
termination
proof (relation "measure (\<lambda>it. length (it_rest it))", goal_cases)
  case (2 it r it' m)
  then have "iter_next it = (Some m, it')" by simp
  with iter_next_rest [of it] show ?case by (auto split: list.splits)
qed simp

declare iter_collect.simps [simp del]

lemma iter_collect_rest: "iter_collect it = it_rest it"
proof (induction "it_rest it" arbitrary: it)
  case Nil
  then show ?case using iter_next_rest [of it] by (subst iter_collect.simps) (auto split: prod.splits)
next
  case (Cons m ms)
  have "iter_next it = (Some m, snd (iter_next it))" "it_rest (snd (iter_next it)) = ms"
    using iter_next_rest [of it] Cons.hyps(2) by (auto split: list.splits simp: prod_eq_iff)
  with Cons.hyps show ?case by (subst iter_collect.simps) (auto split: prod.splits)
qed

section \<open>Counting\<close>

definition is_vote_at :: "view_number \<Rightarrow> hotstuff_message \<Rightarrow> bool" where
  "is_vote_at v m = (case m of Vote _ _ view _ _ \<Rightarrow> view = v | _ \<Rightarrow> False)"

definition is_new_view_at :: "view_number \<Rightarrow> hotstuff_message \<Rightarrow> bool" where
  "is_new_view_at v m = (case m of NewView _ view _ _ \<Rightarrow> view = v | _ \<Rightarrow> False)"

definition has_quorum_votes_for_view :: "hotstuff_message list option \<Rightarrow> view_number \<Rightarrow> nat \<Rightarrow> bool" where
  "has_quorum_votes_for_view messages curr_view quorum_threhold =
     (case messages of
        None \<Rightarrow> False
      | Some msgs \<Rightarrow> quorum_threhold \<le> length (filter (is_vote_at curr_view) msgs))"

definition has_quorum_for_new_view :: "hotstuff_message list option \<Rightarrow> view_number \<Rightarrow> nat \<Rightarrow> bool" where
  "has_quorum_for_new_view messages curr_view quorum_threhold =
     (case messages of
        None \<Rightarrow> False
      | Some msgs \<Rightarrow> quorum_threhold \<le> length (filter (is_new_view_at curr_view) msgs))"

text \<open>\<open>max_by_key\<close> keeps the last of several maximal elements.\<close>

fun max_by_key :: "('a \<Rightarrow> nat) \<Rightarrow> 'a list \<Rightarrow> 'a option" where
  "max_by_key key [] = None"
| "max_by_key key (x # xs) =
     (case max_by_key key xs of
        None \<Rightarrow> Some x
      | Some y \<Rightarrow> if key y < key x then Some x else Some y)"

definition justify_of :: "hotstuff_message \<Rightarrow> quorum_certificate option" where
  "justify_of m = (case m of NewView justify _ _ _ \<Rightarrow> Some justify | _ \<Rightarrow> None)"

definition get_highest_qc_from_votes :: "message_window \<Rightarrow> quorum_certificate option" where
  "get_highest_qc_from_votes w =
     max_by_key qc_view_number (List.map_filter justify_of (iter_collect (window_iter w)))"

section \<open>Refinement of the window\<close>

text \<open>The messages of a view, and the invariant that each message is filed under its view.\<close>

definition view_messages :: "message_window \<Rightarrow> view_number \<Rightarrow> hotstuff_message list" where
  "view_messages w v =
     (if v < mw_lowest_view w then []
      else if v - mw_lowest_view w < length (mw_messages w)
      then mw_messages w ! (v - mw_lowest_view w) else [])"

definition window_ok :: "message_window \<Rightarrow> bool" where
  "window_ok w \<longleftrightarrow> mw_lowest_view w + length (mw_messages w) < 2 ^ 64 \<and>
     (\<forall>v. \<forall>m\<in>set (view_messages w v). get_view_number m = v)"

lemma window_push_messages:
  assumes "mw_lowest_view w \<le> get_view_number msg"
  shows "view_messages (snd (window_push w msg)) v =
    (if v = get_view_number msg then view_messages w v @ [msg] else view_messages w v)"
  using assms
  by (auto simp: window_push_def view_messages_def Let_def nth_append nth_list_update not_less
      less_diff_conv2 split: if_splits)

lemma prune_before_view_messages:
  assumes "prune_before_view w v = Some w'"
  shows "view_messages w' u = (if u < v then (if v < mw_lowest_view w then view_messages w u else [])
    else view_messages w u)"
  using assms
  by (auto simp: prune_before_view_def view_messages_def checked split: if_splits)

end
