(* ===== verification/Pacemaker.thy ===== *)
theory Pacemaker
  imports Certificates
begin

text \<open>
  The pacemaker (\<^verbatim>\<open>src/src/hotstuff/pacemaker.rs\<close>): the current view, the leader of a view and the
  timeout of the current view. Durations and instants are natural numbers (nanoseconds); an
  operation that reads the clock takes the instant as an argument. The factor
  \<open>powf(failed_views).round() as u32\<close> is a computation in \<open>f32\<close>: it is the field \<open>pa_backoff\<close>, a
  function of the number of failed views.
\<close>

section \<open>State and operations\<close>

record pacemaker =
  pa_curr_view :: view_number
  pa_last_commited_view :: view_number
  pa_timeout :: nat
  pa_base_timeout :: nat
  pa_backoff :: "nat \<Rightarrow> nat"
  pa_last_view_change :: nat
  pa_replica_ids :: "nat list"

text \<open>\<open>Pacemaker::new\<close>; the number of validators, the tick and the factor come from the configuration.\<close>

definition pacemaker_new :: "nat \<Rightarrow> nat \<Rightarrow> (nat \<Rightarrow> nat) \<Rightarrow> nat \<Rightarrow> pacemaker" where
  "pacemaker_new replica_len tick backoff now =
     \<lparr>pa_curr_view = 0, pa_last_commited_view = 0, pa_timeout = tick, pa_base_timeout = tick,
      pa_backoff = backoff, pa_last_view_change = now, pa_replica_ids = [0..<replica_len]\<rparr>"

text \<open>A product that does not fit \<open>Duration\<close> panics.\<close>

definition duration_limit :: nat where
  "duration_limit = 2 ^ 64 * 10 ^ 9"

definition get_current_timeout :: "pacemaker \<Rightarrow> nat option" where
  "get_current_timeout p = do {
     failed_views \<leftarrow> checked_sub (pa_curr_view p) (pa_last_commited_view p);
     let d = pa_base_timeout p * pa_backoff p failed_views;
     if d < duration_limit then Some d else None
   }"

definition should_advance_view :: "nat \<Rightarrow> pacemaker \<Rightarrow> bool option" where
  "should_advance_view now p = do {
     t \<leftarrow> get_current_timeout p;
     Some (t < now - pa_last_view_change p)
   }"

definition set_last_committed_view :: "quorum_certificate \<Rightarrow> pacemaker \<Rightarrow> pacemaker" where
  "set_last_committed_view qc p = p\<lparr>pa_last_commited_view := qc_view_number qc\<rparr>"

definition pacemaker_advance_view :: "nat \<Rightarrow> pacemaker \<Rightarrow> pacemaker option" where
  "pacemaker_advance_view now p = do {
     v \<leftarrow> add64 (pa_curr_view p) 1;
     Some (p\<lparr>pa_curr_view := v, pa_last_view_change := now\<rparr>)
   }"

definition fast_forward_view :: "nat \<Rightarrow> view_number \<Rightarrow> pacemaker \<Rightarrow> bool \<times> pacemaker" where
  "fast_forward_view now incoming_view p =
     (if incoming_view \<le> pa_curr_view p then (False, p)
      else (True, p\<lparr>pa_curr_view := incoming_view, pa_last_view_change := now\<rparr>))"

definition get_leader_for_view :: "pacemaker \<Rightarrow> view_number \<Rightarrow> nat option" where
  "get_leader_for_view p incoming_view =
     (if pa_replica_ids p = [] then None
      else index (pa_replica_ids p) (incoming_view mod length (pa_replica_ids p)))"

definition current_leader :: "pacemaker \<Rightarrow> nat option" where
  "current_leader p =
     (if pa_replica_ids p = [] then None
      else index (pa_replica_ids p) (pa_curr_view p mod length (pa_replica_ids p)))"

definition reset_timer :: "nat \<Rightarrow> pacemaker \<Rightarrow> pacemaker" where
  "reset_timer now p = p\<lparr>pa_last_view_change := now\<rparr>"

definition time_remaining :: "nat \<Rightarrow> pacemaker \<Rightarrow> nat option" where
  "time_remaining now p = do {
     t \<leftarrow> get_current_timeout p;
     Some (pa_last_view_change p + t - now)
   }"

section \<open>Leaders\<close>

lemma leader_round_robin:
  assumes "pa_replica_ids p = [0..<n]" "0 < n"
  shows "get_leader_for_view p v = Some (v mod n)" "current_leader p = Some (pa_curr_view p mod n)"
  using assms by (auto simp: get_leader_for_view_def current_leader_def index_def)

text \<open>The timer wakes up only when the view may be advanced.\<close>

lemma time_remaining_0:
  "time_remaining now p = Some 0 \<Longrightarrow> should_advance_view (Suc now) p = Some True"
  by (auto simp: time_remaining_def should_advance_view_def bind_eq_Some_conv)

end
