(* ===== verification/Replica.thy ===== *)
theory Replica
  imports Mempool Messages Pacemaker
begin

text \<open>
  The HotStuff replica (\<^verbatim>\<open>src/src/hotstuff/replica.rs\<close>): its state, the proposals of a leader, the
  reaction to a proposal or a vote, the formation of certificates, and the event loop. A
  handler returns the messages it hands to the channels with the new state; \<open>None\<close> is a panic.
  A channel always accepts a message. The blocks live in the block store, and the application
  of a committed block writes the statuses of its transactions into the store, as the shared
  \<open>Arc<RwLock<Block>>\<close> does. A hash map that is iterated is a list in the order of insertion.
\<close>

section \<open>State\<close>

record view_progress =
  vp_leader_has_proposed :: bool
  vp_replica_has_voted :: bool

record replica =
  hr_node_id :: nat
  hr_validator_set :: "bytes set"
  hr_signing_key :: bytes
  hr_generic_qc :: quorum_certificate
  hr_locked_qc :: quorum_certificate
  hr_current_proposal :: "block option"
  hr_mempool :: priority_mempool
  hr_pending_transactions :: "sha256_hash \<rightharpoonup> signed_transaction"
  hr_committed_transactions :: "sha256_hash \<rightharpoonup> signed_transaction"
  hr_messages :: message_window
  hr_pacemaker :: pacemaker
  hr_blockstore :: block_store
  hr_ledger_state :: ledger_state
  hr_view_progress :: view_progress

abbreviation curr_view_of :: "replica \<Rightarrow> view_number" where
  "curr_view_of r \<equiv> pa_curr_view (hr_pacemaker r)"

definition no_progress :: view_progress where
  "no_progress = \<lparr>vp_leader_has_proposed = False, vp_replica_has_voted = False\<rparr>"

definition block_transaction_length :: nat where
  "block_transaction_length = 16"

text \<open>
  \<open>HotStuffReplica::new\<close>; the keys, the validator set and the pacemaker's settings come from
  the configuration.
\<close>

definition replica_new ::
  "crates \<Rightarrow> nat \<Rightarrow> bytes \<Rightarrow> bytes set \<Rightarrow> pacemaker \<Rightarrow> public_key_hash \<Rightarrow> replica option" where
  "replica_new X node_id signing_key validators pacemaker faucet_pk = do {
     let (genesis_block, genesis_qc) = create_genesis_block;
     ledger \<leftarrow> ledger_new faucet_pk;
     Some \<lparr>hr_node_id = node_id, hr_validator_set = validators, hr_signing_key = signing_key,
           hr_generic_qc = genesis_qc, hr_locked_qc = genesis_qc, hr_current_proposal = None,
           hr_mempool = mempool_new, hr_pending_transactions = Map.empty,
           hr_committed_transactions = Map.empty, hr_messages = window_new 0,
           hr_pacemaker = pacemaker,
           hr_blockstore = [block_hash X genesis_block \<mapsto> genesis_block],
           hr_ledger_state = ledger, hr_view_progress = no_progress\<rparr>
   }"

section \<open>Votes and certificates\<close>

definition vote_message :: "crates \<Rightarrow> replica \<Rightarrow> block \<Rightarrow> hotstuff_message" where
  "vote_message X r node =
     create_vote X node (curr_view_of r) (hr_node_id r) (curr_view_of r) (hr_signing_key r)"

definition matching_message :: "hotstuff_message \<Rightarrow> view_number \<Rightarrow> bool" where
  "matching_message message view_number \<longleftrightarrow> view_number = get_view_number message"

definition replica_quorum_threshold :: "replica \<Rightarrow> nat option" where
  "replica_quorum_threshold r = quorum_threshold (card (hr_validator_set r))"

fun all_verified :: "crates \<Rightarrow> signed_transaction list \<Rightarrow> bool option" where
  "all_verified X [] = Some True"
| "all_verified X (tx # txs) = do {
     ok \<leftarrow> verify_sender X tx;
     if ok then all_verified X txs else Some False
   }"

definition validate_block_transactions :: "crates \<Rightarrow> block \<Rightarrow> bool option" where
  "validate_block_transactions X node = all_verified X (blk_transactions node)"

text \<open>The tally: signatures by block hash and message hash.\<close>

type_synonym tally = "((block_hash \<times> sha256_hash) \<times> partial_sig list) list"

fun tally_add :: "block_hash \<times> sha256_hash \<Rightarrow> partial_sig \<Rightarrow> tally \<Rightarrow> tally" where
  "tally_add k sig [] = [(k, [sig])]"
| "tally_add k sig ((k', sigs) # t) =
     (if k = k' then (k', sigs @ [sig]) # t else (k', sigs) # tally_add k sig t)"

fun tally_votes ::
  "crates \<Rightarrow> bytes set \<Rightarrow> hotstuff_message list \<Rightarrow> bytes set \<Rightarrow> tally \<Rightarrow> tally" where
  "tally_votes X validator_set [] seen tally = tally"
| "tally_votes X validator_set (message # msgs) seen tally =
     (case message of
        Vote node partial_sig _ _ _ \<Rightarrow>
          (let pk = ps_signer_id partial_sig; msg_hash = message_hash X message in
           if pk \<notin> validator_set then tally_votes X validator_set msgs seen tally
           else if \<not> x_verify_strict X pk msg_hash (ps_signature partial_sig)
           then tally_votes X validator_set msgs seen tally
           else if pk \<in> seen then tally_votes X validator_set msgs seen tally
           else tally_votes X validator_set msgs (insert pk seen)
                  (tally_add (block_hash X node, msg_hash) partial_sig tally))
      | _ \<Rightarrow> tally_votes X validator_set msgs seen tally)"

text \<open>The outer option is a panic, the inner one the absence of a certificate.\<close>

fun first_quorum :: "view_number \<Rightarrow> nat \<Rightarrow> tally \<Rightarrow> quorum_certificate option option" where
  "first_quorum view quorum [] = Some None"
| "first_quorum view quorum (((bh, mh), sigs) # tally) =
     (if quorum \<le> length sigs
      then map_option Some (from_signatures view bh mh sigs)
      else first_quorum view quorum tally)"

definition try_create_qc_for_view ::
  "crates \<Rightarrow> replica \<Rightarrow> view_number \<Rightarrow> quorum_certificate option option" where
  "try_create_qc_for_view X r view = do {
     msgs_opt \<leftarrow> get_messages_for_view (hr_messages r) view;
     (case msgs_opt of
        None \<Rightarrow> Some None
      | Some msgs \<Rightarrow> do {
          let tally = tally_votes X (hr_validator_set r) msgs {} [];
          quorum \<leftarrow> replica_quorum_threshold r;
          first_quorum view quorum tally
        })
   }"

definition safe_node :: "replica \<Rightarrow> block \<Rightarrow> quorum_certificate \<Rightarrow> bool" where
  "safe_node r block qc \<longleftrightarrow>
     extends_from block (qc_block_hash (hr_locked_qc r)) (hr_blockstore r) \<or>
     qc_view_number (hr_locked_qc r) < qc_view_number qc"

definition select_transactions :: "replica \<Rightarrow> (signed_transaction list \<times> replica) option" where
  "select_transactions r = do {
     (txs, mp) \<leftarrow> pop_next_n (hr_mempool r) block_transaction_length;
     Some (txs, r\<lparr>hr_mempool := mp\<rparr>)
   }"

definition leader_create_message :: "replica \<Rightarrow> block \<Rightarrow> hotstuff_message" where
  "leader_create_message r new_block =
     create_proposal new_block (curr_view_of r) (hr_node_id r) (curr_view_of r)"

definition get_justified_block :: "replica \<Rightarrow> block \<Rightarrow> block option" where
  "get_justified_block r b =
     (case b of
        Normal _ _ _ justify _ \<Rightarrow> hr_blockstore r (qc_block_hash justify)
      | Genesis _ _ _ _ \<Rightarrow> None)"

definition get_justifed_block_and_qc ::
  "replica \<Rightarrow> block \<Rightarrow> block option \<times> quorum_certificate option" where
  "get_justifed_block_and_qc r b =
     (case b of
        Normal _ _ _ justify _ \<Rightarrow> (hr_blockstore r (qc_block_hash justify), Some justify)
      | Genesis _ _ _ _ \<Rightarrow> (None, None))"

definition is_parent :: "crates \<Rightarrow> block \<Rightarrow> block \<Rightarrow> bool" where
  "is_parent X block_child block_parent =
     (case block_child of
        Genesis _ _ _ _ \<Rightarrow> False
      | Normal parent_id _ _ _ _ \<Rightarrow> block_hash X block_parent = parent_id)"

fun insert_transactions ::
  "(sha256_hash \<rightharpoonup> signed_transaction) \<Rightarrow> signed_transaction list \<Rightarrow> (sha256_hash \<rightharpoonup> signed_transaction)" where
  "insert_transactions m [] = m"
| "insert_transactions m (tx # txs) = insert_transactions (m(st_hash tx \<mapsto> tx)) txs"

fun remove_transactions ::
  "(sha256_hash \<rightharpoonup> signed_transaction) \<Rightarrow> signed_transaction list \<Rightarrow> (sha256_hash \<rightharpoonup> signed_transaction)" where
  "remove_transactions m [] = m"
| "remove_transactions m (tx # txs) = remove_transactions (m(st_hash tx := None)) txs"

definition add_block_transactions_to_pending :: "replica \<Rightarrow> block \<Rightarrow> replica" where
  "add_block_transactions_to_pending r b = r\<lparr>hr_pending_transactions :=
     insert_transactions (hr_pending_transactions r) (blk_transactions b)\<rparr>"

definition add_block_transactions_to_committed :: "replica \<Rightarrow> block \<Rightarrow> replica" where
  "add_block_transactions_to_committed r b = r\<lparr>hr_committed_transactions :=
     insert_transactions (hr_committed_transactions r) (blk_transactions b)\<rparr>"

definition remove_block_transactions_from_pending :: "replica \<Rightarrow> block \<Rightarrow> replica" where
  "remove_block_transactions_from_pending r b = r\<lparr>hr_pending_transactions :=
     remove_transactions (hr_pending_transactions r) (blk_transactions b)\<rparr>"

definition create_new_view :: "replica \<Rightarrow> hotstuff_message option" where
  "create_new_view r = do {
     v \<leftarrow> checked_sub (curr_view_of r) 1;
     Some (create_new_view_message (hr_generic_qc r) v (hr_node_id r) v)
   }"

section \<open>The leader\<close>

text \<open>Adopt a newer certificate and drop the messages of older views.\<close>

definition adopt_qc :: "replica \<Rightarrow> quorum_certificate \<Rightarrow> replica option" where
  "adopt_qc r qc = do {
     w \<leftarrow> prune_before_view (hr_messages r) (qc_view_number qc);
     Some (r\<lparr>hr_generic_qc := qc, hr_messages := w\<rparr>)
   }"

definition catch_up :: "replica \<Rightarrow> view_number \<Rightarrow> replica option" where
  "catch_up r prev_view =
     (if qc_view_number (hr_generic_qc r) \<noteq> prev_view then
        (case get_highest_qc_from_votes (hr_messages r) of
           Some high_qc \<Rightarrow>
             if qc_view_number (hr_generic_qc r) < qc_view_number high_qc then adopt_qc r high_qc
             else Some r
         | None \<Rightarrow> Some r)
      else Some r)"

definition leader_propose :: "crates \<Rightarrow> replica \<Rightarrow> (hotstuff_message option \<times> replica) option" where
  "leader_propose X r =
     (case hr_blockstore r (qc_block_hash (hr_generic_qc r)) of
        None \<Rightarrow> Some (None, r)
      | Some parent \<Rightarrow> do {
          (selected_transactions, r1) \<leftarrow> select_transactions r;
          new_block \<leftarrow> create_leaf X parent selected_transactions (curr_view_of r1) (hr_generic_qc r1);
          let r2 = r1\<lparr>hr_blockstore := (hr_blockstore r1)(block_hash X new_block \<mapsto> new_block),
                      hr_current_proposal := Some new_block\<rparr>;
          Some (Some (leader_create_message r2 new_block), r2)
        })"

definition leader_handle_message ::
  "crates \<Rightarrow> nat \<Rightarrow> replica \<Rightarrow> (hotstuff_message option \<times> replica) option" where
  "leader_handle_message X now r0 = do {
     let r = r0\<lparr>hr_pacemaker := reset_timer now (hr_pacemaker r0)\<rparr>;
     prev_view \<leftarrow> checked_sub (curr_view_of r) 1;
     msgs \<leftarrow> get_messages_for_view (hr_messages r) prev_view;
     quorum \<leftarrow> replica_quorum_threshold r;
     if has_quorum_for_new_view msgs prev_view quorum then do {
       r1 \<leftarrow> catch_up r prev_view;
       leader_propose X r1
     }
     else if has_quorum_votes_for_view msgs prev_view quorum then do {
       qc_opt \<leftarrow> try_create_qc_for_view X r prev_view;
       (case qc_opt of
          Some qc \<Rightarrow> do { r1 \<leftarrow> adopt_qc r qc; Some (None, r1) }
        | None \<Rightarrow> Some (None, r))
     }
     else Some (None, r)
   }"

section \<open>The reaction to a proposal\<close>

text \<open>The last step of the three-chain: apply \<open>b\<close>, the block justified by \<open>b'\<close>.\<close>

definition commit_block :: "crates \<Rightarrow> replica \<Rightarrow> block_hash \<Rightarrow> block \<Rightarrow> replica option" where
  "commit_block X r key b = do {
     (account_nonces, b', ledger) \<leftarrow> apply_block X (hr_ledger_state r) b;
     let r1 = r\<lparr>hr_ledger_state := ledger, hr_blockstore := (hr_blockstore r)(key \<mapsto> b')\<rparr>;
     let r2 = remove_block_transactions_from_pending r1 b';
     let r3 = add_block_transactions_to_committed r2 b';
     mp \<leftarrow> update_after_execution (hr_mempool r3) account_nonces;
     Some (r3\<lparr>hr_mempool := mp\<rparr>)
   }"

text \<open>\<open>b'\<close> is justified by \<open>b''\<close> and its parent: lock it, then try to commit.\<close>

definition decide :: "crates \<Rightarrow> replica \<Rightarrow> block \<Rightarrow> replica option" where
  "decide X r b_prime =
     (case get_justified_block r b_prime of
        None \<Rightarrow> Some r
      | Some b \<Rightarrow>
          if is_parent X b_prime b
          then commit_block X r (qc_block_hash (blk_justify b_prime)) b
          else Some r)"

definition pre_commit :: "crates \<Rightarrow> replica \<Rightarrow> block \<Rightarrow> replica option" where
  "pre_commit X r b_double_prime =
     (case get_justifed_block_and_qc r b_double_prime of
        (Some b_prime, Some b_double_prime_justify) \<Rightarrow>
          if is_parent X b_double_prime b_prime
          then decide X (r\<lparr>hr_locked_qc := b_double_prime_justify,
                 hr_pacemaker := set_last_committed_view b_double_prime_justify (hr_pacemaker r)\<rparr>) b_prime
          else Some r
      | _ \<Rightarrow> Some r)"

text \<open>Whether the block may be voted for; the checks run in the order of the source.\<close>

definition acceptable :: "crates \<Rightarrow> replica \<Rightarrow> block \<Rightarrow> quorum_certificate \<Rightarrow> bool option" where
  "acceptable X r b_star justify = do {
     quorum \<leftarrow> replica_quorum_threshold r;
     if safe_node r b_star justify \<and> qc_verify X (hr_validator_set r) quorum justify then do {
       valid \<leftarrow> validate_block_transactions X b_star;
       if valid then do {
         root \<leftarrow> hash_block_transaction X b_star;
         Some (root = blk_merkle_root b_star)
       }
       else Some False
     }
     else Some False
   }"

definition replica_handle_proposal ::
  "crates \<Rightarrow> replica \<Rightarrow> block \<Rightarrow> nat \<Rightarrow> (hotstuff_message option \<times> replica) option" where
  "replica_handle_proposal X r node sender = do {
     leader \<leftarrow> get_leader_for_view (hr_pacemaker r) (curr_view_of r);
     if sender \<noteq> leader then Some (None, r)
     else do {
       let r1 = r\<lparr>hr_blockstore := (hr_blockstore r)(block_hash X node \<mapsto> node)\<rparr>;
       (case get_justifed_block_and_qc r1 node of
          (Some b_double_prime, Some b_star_justify) \<Rightarrow> do {
            ok \<leftarrow> acceptable X r1 node b_star_justify;
            if \<not> ok then Some (None, r1)
            else do {
              let outbound_msg = vote_message X r1 node;
              let r2 = add_block_transactions_to_pending r1 node;
              if \<not> is_parent X node b_double_prime then Some (Some outbound_msg, r2)
              else do {
                r3 \<leftarrow> adopt_qc r2 b_star_justify;
                r4 \<leftarrow> pre_commit X r3 b_double_prime;
                Some (Some outbound_msg, r4)
              }
            }
          }
        | _ \<Rightarrow> Some (None, r1))
     }
   }"

section \<open>The reaction to other messages\<close>

definition replica_handle_vote ::
  "nat \<Rightarrow> replica \<Rightarrow> (hotstuff_message option \<times> replica) option" where
  "replica_handle_vote now r = do {
     next_view \<leftarrow> add64 (curr_view_of r) 1;
     leader \<leftarrow> get_leader_for_view (hr_pacemaker r) next_view;
     if hr_node_id r \<noteq> leader then Some (None, r)
     else if \<not> vp_replica_has_voted (hr_view_progress r) then Some (None, r)
     else do {
       msgs \<leftarrow> get_messages_for_view (hr_messages r) (curr_view_of r);
       quorum \<leftarrow> replica_quorum_threshold r;
       if \<not> has_quorum_votes_for_view msgs (curr_view_of r) quorum then Some (None, r)
       else do {
         p \<leftarrow> pacemaker_advance_view now (hr_pacemaker r);
         let r1 = r\<lparr>hr_pacemaker := p\<rparr>;
         m \<leftarrow> create_new_view r1;
         Some (Some m, r1)
       }
     }
   }"

definition replica_handle_message ::
  "crates \<Rightarrow> nat \<Rightarrow> replica \<Rightarrow> hotstuff_message \<Rightarrow> (hotstuff_message option \<times> replica) option" where
  "replica_handle_message X now r msg =
     (case msg of
        NewView _ _ _ _ \<Rightarrow> Some (None, r)
      | Proposal node _ sender _ \<Rightarrow> replica_handle_proposal X r node sender
      | Vote _ _ _ _ _ \<Rightarrow> replica_handle_vote now r)"

text \<open>\<open>ReplicaOutbound\<close> to the node, and the channel back to the replica itself.\<close>

datatype outbound = Broadcast hotstuff_message | SendTo peer_id hotstuff_message | SendToSelf hotstuff_message

definition sync_view :: "nat \<Rightarrow> replica \<Rightarrow> hotstuff_message \<Rightarrow> bool \<times> replica" where
  "sync_view now r msg =
     (let (ff, p) = fast_forward_view now (get_view_number msg) (hr_pacemaker r)
      in (ff, r\<lparr>hr_pacemaker := p\<rparr>))"

definition catch_up_view ::
  "nat \<Rightarrow> replica \<Rightarrow> hotstuff_message \<Rightarrow> (outbound list \<times> replica) option" where
  "catch_up_view now r msg =
     (case sync_view now r msg of
        (True, r1) \<Rightarrow> do {
          let r2 = r1\<lparr>hr_view_progress := no_progress\<rparr>;
          leader \<leftarrow> current_leader (hr_pacemaker r2);
          if leader = hr_node_id r2 then do {
            m \<leftarrow> create_new_view r2;
            Some ([SendToSelf m], r2)
          }
          else Some ([], r2)
        }
      | (False, r1) \<Rightarrow> Some ([], r1))"

definition mark_voted :: "replica \<Rightarrow> replica" where
  "mark_voted r = r\<lparr>hr_view_progress := (hr_view_progress r)\<lparr>vp_replica_has_voted := True\<rparr>\<rparr>"

definition mark_proposed :: "replica \<Rightarrow> replica" where
  "mark_proposed r = r\<lparr>hr_view_progress := (hr_view_progress r)\<lparr>vp_leader_has_proposed := True\<rparr>\<rparr>"

definition push_message :: "replica \<Rightarrow> hotstuff_message \<Rightarrow> replica" where
  "push_message r msg = r\<lparr>hr_messages := snd (window_push (hr_messages r) msg)\<rparr>"

text \<open>The leader proposes, then handles its own proposal as a replica.\<close>

definition handle_as_leader ::
  "crates \<Rightarrow> nat \<Rightarrow> replica \<Rightarrow> (outbound list \<times> replica) option" where
  "handle_as_leader X now r = do {
     (leader_msg, r1) \<leftarrow> leader_handle_message X now r;
     (case leader_msg of
        None \<Rightarrow> Some ([], r1)
      | Some proposal \<Rightarrow> do {
          let r2 = push_message (mark_proposed r1) proposal;
          (replica_msg, r3) \<leftarrow> replica_handle_message X now r2 proposal;
          (case replica_msg of
             None \<Rightarrow> Some ([Broadcast proposal], r3)
           | Some vote \<Rightarrow> do {
               next_view \<leftarrow> add64 (curr_view_of r3) 1;
               next_leader \<leftarrow> get_leader_for_view (hr_pacemaker r3) next_view;
               Some ([Broadcast proposal, SendTo next_leader vote], mark_voted r3)
             })
        })
   }"

definition handle_as_replica ::
  "crates \<Rightarrow> nat \<Rightarrow> replica \<Rightarrow> hotstuff_message \<Rightarrow> (outbound list \<times> replica) option" where
  "handle_as_replica X now r msg = do {
     let curr_view = curr_view_of r;
     (outbound_msg, r1) \<leftarrow> replica_handle_message X now r msg;
     (case outbound_msg of
        None \<Rightarrow> Some ([], r1)
      | Some m \<Rightarrow> do {
          next_view \<leftarrow> add64 curr_view 1;
          next_leader \<leftarrow> get_leader_for_view (hr_pacemaker r1) next_view;
          Some ([if hr_node_id r1 = next_leader then SendToSelf m else SendTo next_leader m],
                mark_voted r1)
        })
   }"

definition handle_message ::
  "crates \<Rightarrow> nat \<Rightarrow> replica \<Rightarrow> hotstuff_message \<Rightarrow> (outbound list \<times> replica) option" where
  "handle_message X now r msg = do {
     (out, r1) \<leftarrow> catch_up_view now r msg;
     _ \<leftarrow> add64 (get_view_number msg) 1;
     let r2 = push_message r1 msg;
     leader \<leftarrow> current_leader (hr_pacemaker r2);
     (out', r3) \<leftarrow> (if hr_node_id r2 = leader \<and> \<not> vp_leader_has_proposed (hr_view_progress r2)
       then handle_as_leader X now r2 else handle_as_replica X now r2 msg);
     Some (out @ out', r3)
   }"

section \<open>The event loop\<close>

definition replica_handle_query :: "replica \<Rightarrow> client_query \<Rightarrow> client_response" where
  "replica_handle_query r query = handle_query (hr_ledger_state r) query"

definition replica_handle_transaction :: "replica \<Rightarrow> signed_transaction \<Rightarrow> replica option" where
  "replica_handle_transaction r txn = do {
     let account_info = get_account_info_or_default (hr_ledger_state r) (get_from_account txn);
     mp \<leftarrow> mempool_insert (hr_mempool r) txn (ai_expected_nonce account_info);
     Some (r\<lparr>hr_mempool := mp\<rparr>)
   }"

definition send_new_view_to_leader :: "replica \<Rightarrow> (outbound list \<times> replica) option" where
  "send_new_view_to_leader r = do {
     leader \<leftarrow> current_leader (hr_pacemaker r);
     m \<leftarrow> create_new_view r;
     Some ([if hr_node_id r = leader then SendToSelf m else SendTo leader m], r)
   }"

definition advance_view :: "nat \<Rightarrow> replica \<Rightarrow> (outbound list \<times> replica) option" where
  "advance_view now r = do {
     p \<leftarrow> pacemaker_advance_view now (hr_pacemaker r);
     send_new_view_to_leader (r\<lparr>hr_pacemaker := p, hr_view_progress := no_progress\<rparr>)
   }"

text \<open>The events \<open>run_replica\<close> waits for, and one turn of its loop at instant \<open>now\<close>.\<close>

datatype replica_event =
    HotStuffEvent hotstuff_message
  | TransactionEvent signed_transaction
  | QueryEvent client_query
  | TimerEvent

fun handle_event :: "crates \<Rightarrow> nat \<Rightarrow> replica \<Rightarrow> replica_event \<Rightarrow> (outbound list \<times> replica) option" where
  "handle_event X now r (HotStuffEvent msg) = handle_message X now r msg"
| "handle_event X now r (TransactionEvent tx) = do {
     r' \<leftarrow> replica_handle_transaction r tx;
     Some ([], r')
   }"
| "handle_event X now r (QueryEvent query) = Some ([], r)"
| "handle_event X now r TimerEvent = do {
     expired \<leftarrow> should_advance_view now (hr_pacemaker r);
     if expired then advance_view now r else Some ([], r)
   }"

text \<open>
  The loop computes the time left in the view before it waits, which panics where the last
  committed view is ahead of the current one or the timeout does not fit.
\<close>

definition replica_turn ::
  "crates \<Rightarrow> nat \<Rightarrow> replica \<Rightarrow> replica_event \<Rightarrow> (outbound list \<times> replica) option" where
  "replica_turn X now r e = do {
     _ \<leftarrow> time_remaining now (hr_pacemaker r);
     handle_event X now r e
   }"

lemma replica_turn_event: "replica_turn X now r e = Some x \<Longrightarrow> handle_event X now r e = Some x"
  by (auto simp: replica_turn_def bind_eq_Some_conv)

end
