(* ===== verification/Ledger_Sanity.thy ===== *)
theory Ledger_Sanity
  imports Ledger_Supply Book_Sanity
begin

text \<open>
  The books of a ledger stay sorted and uncrossed: every transaction that executes keeps the
  structural invariant of every market, with order ids below the id counter, whatever it contains and
  whatever its outcome.
\<close>

section \<open>Clearing house\<close>

definition house_sane :: "spot_clearing_house \<Rightarrow> order_id \<Rightarrow> bool" where
  "house_sane ch n \<longleftrightarrow> (\<forall>m\<in>set (ch_markets ch). market_sane m \<and> market_ids_below m n)"

definition ledger_sane :: "ledger_state \<Rightarrow> bool" where
  "ledger_sane s \<longleftrightarrow> house_sane (ls_spot_clearinghouse s) (om_next_id (ls_order_manager s))"

text \<open>At most one market changes, in the way \<open>P\<close> says.\<close>

definition market_change ::
  "(spot_market \<Rightarrow> spot_market \<Rightarrow> bool) \<Rightarrow> spot_clearing_house \<Rightarrow> spot_clearing_house \<Rightarrow> bool" where
  "market_change P ch ch' \<longleftrightarrow>
     ch_markets ch' = ch_markets ch \<or>
     (\<exists>i m m'. m \<in> set (ch_markets ch) \<and> P m m' \<and> ch_markets ch' = (ch_markets ch)[i := m'])"

lemma market_change_sane:
  assumes "market_change P ch ch'" "house_sane ch n" "n \<le> k"
    and "\<And>m m'. \<lbrakk>P m m'; market_sane m; market_ids_below m n\<rbrakk> \<Longrightarrow> market_sane m' \<and> market_ids_below m' k"
  shows "house_sane ch' k"
proof -
  have old: "\<forall>m\<in>set (ch_markets ch). market_sane m \<and> market_ids_below m k"
    using assms(2,3) by (auto simp: house_sane_def intro: market_ids_below_mono)
  from assms(1) consider "ch_markets ch' = ch_markets ch"
    | i m m' where "m \<in> set (ch_markets ch)" "P m m'" "ch_markets ch' = (ch_markets ch)[i := m']"
    by (auto simp: market_change_def)
  then show ?thesis
  proof cases
    case (2 i m m')
    then have "market_sane m' \<and> market_ids_below m' k"
      using assms(2,4) by (auto simp: house_sane_def)
    moreover have "set (ch_markets ch') \<subseteq> insert m' (set (ch_markets ch))"
      unfolding 2(3) by (rule set_update_subset_insert)
    ultimately show ?thesis using old by (auto simp: house_sane_def)
  qed (use old in \<open>simp add: house_sane_def\<close>)
qed

lemma market_lookup:
  "get_market_and_account_balance ch i pk = (mo, ab, ch1) \<Longrightarrow>
   ch_markets ch1 = ch_markets ch \<and> (\<forall>m. mo = Some m \<longrightarrow> m \<in> set (ch_markets ch))"
  by (auto simp: get_market_and_account_balance_def index_def split: prod.splits if_splits)

lemma handle_limit_order_markets:
  assumes "handle_limit_order ch order prec = Some (r, ch')"
  shows "market_change (\<lambda>m m'. \<exists>res. add_limit_order m order (sm_base_asset m) (sm_quote_asset m) prec =
    Some (res, m')) ch ch'"
proof -
  define i where "i = co_market_id (lo_common order)"
  obtain mo ab ch1 where g: "get_market_and_account_balance ch i (lo_account order) = (mo, ab, ch1)"
    by (metis prod_cases3)
  note lookup = market_lookup [OF g]
  show ?thesis
  proof (cases mo)
    case None
    with assms g lookup show ?thesis by (simp add: handle_limit_order_def market_change_def i_def)
  next
    case (Some m)
    with assms g obtain lock_opt ab1 where lock: "lock_limit m ab order prec = Some (lock_opt, ab1)"
      by (auto simp: handle_limit_order_def i_def bind_eq_Some_conv)
    show ?thesis
    proof (cases lock_opt)
      case None
      with assms g lookup Some lock show ?thesis
        by (auto simp: handle_limit_order_def market_change_def i_def)
    next
      case (Some l)
      with assms g \<open>mo = Some m\<close> lock obtain res m' where
        add: "add_limit_order m order (sm_base_asset m) (sm_quote_asset m) prec = Some (res, m')"
        by (auto simp: handle_limit_order_def i_def bind_eq_Some_conv Let_def)
      with assms g \<open>mo = Some m\<close> lock Some lookup have "ch_markets ch' = (ch_markets ch)[i := m']"
        by (cases res) (auto simp: handle_limit_order_def i_def bind_eq_Some_conv Let_def split: prod.splits)
      with add lookup \<open>mo = Some m\<close> show ?thesis by (auto simp: market_change_def)
    qed
  qed
qed

lemma handle_market_markets:
  assumes "handle_market ch order prec = Some (r, ch')"
  shows "market_change (\<lambda>m m'. \<exists>res. handle_market_order m order prec = Some (res, m')) ch ch'"
proof -
  define i where "i = co_market_id (market_common order)"
  obtain mo ab ch1 where g: "get_market_and_account_balance ch i (market_get_account order) = (mo, ab, ch1)"
    by (metis prod_cases3)
  show ?thesis
    using assms g market_lookup [OF g]
    by (fastforce simp: handle_market_def market_change_def i_def Let_def bind_eq_Some_conv
        split: option.splits)
qed

lemma cancel_order_markets:
  assumes "cancel_order ch order prec = Some (b, ch')"
  shows "market_change (\<lambda>m m'. \<exists>u. market_cancel_order m order = Some (u, m')) ch ch'"
proof -
  define i where "i = co_market_id (lo_common order)"
  obtain mo ab ch1 where g: "get_market_and_account_balance ch i (lo_account order) = (mo, ab, ch1)"
    by (metis prod_cases3)
  show ?thesis
    using assms g market_lookup [OF g]
    by (fastforce simp: cancel_order_def market_change_def i_def Let_def bind_eq_Some_conv
        split: option.splits)
qed

lemma handle_order_sane:
  assumes "handle_order ch order prec = Some (r, ch')" "house_sane ch (get_id order)"
  shows "house_sane ch' (Suc (get_id order))"
proof (cases order)
  case (Limit lo)
  with assms have sane: "house_sane ch (lo_id lo)" and h: "handle_limit_order ch lo prec = Some (r, ch')"
    by (simp_all add: handle_order_def)
  have "house_sane ch' (Suc (lo_id lo))"
    by (rule market_change_sane [OF handle_limit_order_markets [OF h] sane]) (auto dest: add_limit_order_sane)
  with Limit show ?thesis by simp
next
  case (Market mo)
  with assms have h: "handle_market ch mo prec = Some (r, ch')" by (simp add: handle_order_def)
  show ?thesis
    by (rule market_change_sane [OF handle_market_markets [OF h] assms(2)])
      (auto dest: handle_market_order_sane intro: market_ids_below_mono)
qed

lemma cancel_order_sane:
  assumes "cancel_order ch order prec = Some (b, ch')" "house_sane ch n"
  shows "house_sane ch' n"
  by (rule market_change_sane [OF cancel_order_markets [OF assms(1)] assms(2)])
    (auto dest: market_cancel_order_sane)

section \<open>Ledger\<close>

lemma put_account_manager [simp]: "ls_order_manager (put_account s pk ai) = ls_order_manager s"
  by (simp add: put_account_def)

lemma apply_execution_results_manager:
  assumes "apply_execution_results s order pk r = Some s'"
  shows "ls_order_manager s' = ls_order_manager s"
proof -
  have "ls_order_manager s1 = ls_order_manager s0" if "complete_filled_orders s0 los = Some s1" for s0 s1 los
    using that
  proof (induction los arbitrary: s0)
    case (Cons lo los)
    then obtain s2 where 1: "complete_filled_order s0 lo = Some s2" and "complete_filled_orders s2 los = Some s1"
      by (auto simp: bind_eq_Some_conv)
    from 1 have "ls_order_manager s2 = ls_order_manager s0"
      by (auto simp: complete_filled_order_def checked Let_def case_prod_beta split: option.splits)
    with Cons.IH [OF \<open>complete_filled_orders s2 los = Some s1\<close>] show ?case by simp
  qed simp
  moreover have "ls_order_manager s1 = ls_order_manager s0"
    if "apply_user_change s0 order pk c = Some s1" for s0 s1 c
    using that by (auto simp: apply_user_change_def checked Let_def case_prod_beta
        split: option.splits order_change.splits order.splits)
  moreover have "ls_order_manager s1 = ls_order_manager s0" if "update_residual_order s0 res = Some s1" for s0 s1 res
    using that by (auto simp: update_residual_order_def checked Let_def case_prod_beta split: option.splits)
  ultimately show ?thesis
    using assms by (force simp: apply_execution_results_def bind_eq_Some_conv split: option.splits)
qed

lemma create_order_manager:
  assumes "create_order s t = Some (order, s')"
  shows "get_id order = om_next_id (ls_order_manager s) \<and>
    om_next_id (ls_order_manager s') = Suc (om_next_id (ls_order_manager s))"
  using assms
  by (auto simp: create_order_def new_limit_order_def new_market_order_def bind_eq_Some_conv Let_def
      case_prod_beta checked split: order_type.splits order_direction.splits)

lemma handle_order_transaction_sane:
  assumes "handle_order_transaction s t = Some (r, t', s')" "ledger_sane s"
  shows "ledger_sane s'"
proof -
  obtain ai s1 where g: "get_account_info_mut s (ot_from t) = (ai, s1)" by force
  have s1: "ls_spot_clearinghouse s1 = ls_spot_clearinghouse s" "ls_order_manager s1 = ls_order_manager s"
    using get_account_info_mut_house [of s "ot_from t"] g by simp_all
  with assms(2) have sane1: "ledger_sane s1" by (simp add: ledger_sane_def)
  show ?thesis
  proof (cases "ot_nonce t \<noteq> ai_expected_nonce ai \<or> self_crosses ai t")
    case True
    with assms(1) g sane1 show ?thesis
      by (auto simp: handle_order_transaction_def neq_iff split: if_splits)
  next
    case False
    with assms(1) g obtain order s2 where c: "create_order s1 t = Some (order, s2)"
      by (auto simp: handle_order_transaction_def bind_eq_Some_conv)
    note id = create_order_manager [OF c] and house = create_order_house [OF c]
    have grown: "house_sane (ls_spot_clearinghouse s2) (om_next_id (ls_order_manager s2))"
      using sane1 id house market_change_sane [of "\<lambda>_ _. False" "ls_spot_clearinghouse s1" "ls_spot_clearinghouse s2"
          "get_id order" "Suc (get_id order)"] by (simp add: ledger_sane_def market_change_def)
    show ?thesis
    proof (cases "precision_of s2 (ot_market_id t)")
      case (Inl missing)
      with assms(1) g c False grown show ?thesis
        by (auto simp: handle_order_transaction_def ledger_sane_def)
    next
      case (Inr prec)
      with assms(1) g c False obtain res ch s3 n where
        h: "handle_order (ls_spot_clearinghouse s2) order prec = Some (res, ch)"
        and e: "apply_execution_results (s2\<lparr>ls_spot_clearinghouse := ch\<rparr>) order (ot_from t) res = Some s3"
        and i: "increment_nonce s3 (ot_from t) = Some (n, s')"
        by (auto simp: handle_order_transaction_def bind_eq_Some_conv)
      have "house_sane ch (Suc (get_id order))"
        using handle_order_sane [OF h] sane1 id house by (simp add: ledger_sane_def)
      moreover have "ls_order_manager s' = ls_order_manager s2"
        using i apply_execution_results_manager [OF e]
        by (auto simp: increment_nonce_def checked Let_def case_prod_beta)
      ultimately show ?thesis
        using id apply_execution_results_house [OF e] increment_nonce_house [OF i] by (simp add: ledger_sane_def)
    qed
  qed
qed

lemma handle_cancel_order_transaction_manager:
  assumes "handle_cancel_order_transaction s t = Some (r, t', s')"
  shows "ls_order_manager s' = ls_order_manager s"
  using assms
  by (auto simp: handle_cancel_order_transaction_def complete_cancelled_order_def increment_nonce_def
      bind_eq_Some_conv checked Let_def case_prod_beta split: if_splits option.splits sum.splits bool.splits)

lemma handle_cancel_order_transaction_sane:
  assumes "handle_cancel_order_transaction s t = Some (r, t', s')" "ledger_sane s"
  shows "ledger_sane s'"
  using handle_cancel_order_transaction_house [OF assms(1)] handle_cancel_order_transaction_manager [OF assms(1)]
    assms(2) cancel_order_sane by (auto simp: ledger_sane_def)

text \<open>Transfers touch neither the books nor the counter.\<close>

definition books :: "ledger_state \<Rightarrow> spot_market list \<times> order_state_manager" where
  "books s = (ch_markets (ls_spot_clearinghouse s), ls_order_manager s)"

lemma books_frame [simp]:
  "books (snd (get_account_info_mut s pk)) = books s"
  "books (put_account s pk ai) = books s"
  "books (put_balance s pk ab) = books s"
  "books (snd (get_account_spot_balances_mut s pk)) = books s"
  by (simp_all add: books_def put_balance_def get_account_spot_balances_mut_def Let_def case_prod_beta)

lemma handle_transfer_transaction_books:
  assumes "handle_transfer_transaction X s t = Some (r, t', s')"
  shows "books s' = books s"
proof -
  have prep: "books (snd (prepare_transfer_transaction X s0 t)) = books s0" for s0
    by (simp add: prepare_transfer_transaction_def Let_def case_prod_beta split: option.splits)
  have commit: "books s2 = books s1" if "commit_transfer_transaction s1 d = Some (n, s2)" for s1 d n s2
    using that by (auto simp: commit_transfer_transaction_def Let_def case_prod_beta bind_eq_Some_conv)
  obtain p s1 where "prepare_transfer_transaction X (snd (get_account_info_mut s (tt_from t))) t = (p, s1)" by force
  moreover from this prep [of "snd (get_account_info_mut s (tt_from t))"] have "books s1 = books s" by simp
  ultimately show ?thesis
    using assms commit
    by (auto simp: handle_transfer_transaction_def Let_def case_prod_beta bind_eq_Some_conv
        split: if_splits sum.splits)
qed

lemma books_sane: "\<lbrakk>books s' = books s; ledger_sane s\<rbrakk> \<Longrightarrow> ledger_sane s'"
  by (simp add: books_def ledger_sane_def house_sane_def)

lemma apply_one_sane: "\<lbrakk>apply_one X s stx = Some (r, stx', s'); ledger_sane s\<rbrakk> \<Longrightarrow> ledger_sane s'"
  by (auto simp: apply_one_def bind_eq_Some_conv split: unsigned_transaction.splits
      intro: books_sane handle_transfer_transaction_books handle_order_transaction_sane
        handle_cancel_order_transaction_sane)

lemma apply_all_sane: "\<lbrakk>apply_all X s stxs = Some (rs, stxs', s'); ledger_sane s\<rbrakk> \<Longrightarrow> ledger_sane s'"
  by (induction stxs arbitrary: s rs stxs') (auto simp: bind_eq_Some_conv dest!: apply_one_sane)

lemma ledger_new_sane: "ledger_new pk = Some s \<Longrightarrow> ledger_sane s"
  by (auto simp: ledger_new_def asset_manager_new_def index_def add_market_def add_faucet_account_def
      clearing_house_new_def get_market_id_from_pair_def create_new_market_def spot_market_new_def
      ledger_sane_def house_sane_def market_sane_def market_ids_below_def ids_below_def side_sane_def
      levels_sorted_def market_orders_def uncrossed_def Let_def)

end
