(* ===== verification/Replica_Safety.thy ===== *)
theory Replica_Safety
  imports Replica Ledger_Sanity
begin

text \<open>
  What the replica guarantees: the certificates it forms verify and are unique for a view,
  it votes only for acceptable blocks, its ledger changes only by the three-chain rule, and an
  invariant of its state (store, mempool, message window) holds after any sequence of events.
\<close>

section \<open>Forming a certificate\<close>

text \<open>Each entry of a tally holds valid signatures of distinct validators on its message hash.\<close>

definition tally_signers :: "tally \<Rightarrow> bytes list" where
  "tally_signers t = concat (map (\<lambda>e. map ps_signer_id (snd e)) t)"

definition tally_ok :: "crates \<Rightarrow> bytes set \<Rightarrow> bytes set \<Rightarrow> tally \<Rightarrow> bool" where
  "tally_ok X V seen t \<longleftrightarrow> distinct (tally_signers t) \<and> set (tally_signers t) \<subseteq> seen \<inter> V \<and>
     (\<forall>e\<in>set t. snd e \<noteq> [] \<and>
       (\<forall>s\<in>set (snd e). x_verify_strict X (ps_signer_id s) (snd (fst e)) (ps_signature s)))"

lemma tally_ok_Nil: "tally_ok X V seen []"
  by (simp add: tally_ok_def tally_signers_def)

lemma tally_add_signers:
  "mset (tally_signers (tally_add k sig t)) = mset (ps_signer_id sig # tally_signers t)"
  by (induction k sig t rule: tally_add.induct) (auto simp: tally_signers_def)

lemma tally_add_ok:
  assumes "tally_ok X V seen t" "ps_signer_id sig \<in> V" "ps_signer_id sig \<notin> seen"
    and "x_verify_strict X (ps_signer_id sig) (snd k) (ps_signature sig)"
  shows "tally_ok X V (insert (ps_signer_id sig) seen) (tally_add k sig t)"
proof -
  have "set (tally_signers (tally_add k sig t)) = insert (ps_signer_id sig) (set (tally_signers t))"
    using mset_eq_setD [OF tally_add_signers] by simp
  moreover have "distinct (tally_signers (tally_add k sig t)) \<longleftrightarrow> distinct (ps_signer_id sig # tally_signers t)"
    by (rule mset_eq_imp_distinct_iff [OF tally_add_signers])
  moreover have "\<forall>e\<in>set (tally_add k sig t). snd e \<noteq> [] \<and>
      (\<forall>s\<in>set (snd e). x_verify_strict X (ps_signer_id s) (snd (fst e)) (ps_signature s))"
  proof -
    have "\<forall>e\<in>set t. snd e \<noteq> [] \<and>
      (\<forall>s\<in>set (snd e). x_verify_strict X (ps_signer_id s) (snd (fst e)) (ps_signature s))"
      using assms(1) by (simp add: tally_ok_def)
    then show ?thesis using assms(4) by (induction k sig t rule: tally_add.induct) auto
  qed
  ultimately show ?thesis using assms(1-3) unfolding tally_ok_def by auto
qed

lemma tally_votes_ok:
  "tally_ok X V seen t \<Longrightarrow> \<exists>seen'. tally_ok X V seen' (tally_votes X V msgs seen t)"
proof (induction msgs arbitrary: seen t)
  case (Cons m msgs)
  show ?case
  proof (cases m)
    case (Vote node sig v s sv)
    with Cons show ?thesis
      using tally_add_ok [OF Cons.prems, of sig "(block_hash X node, message_hash X m)"]
      by (auto simp: Let_def)
  qed (use Cons in auto)
qed auto

lemma tally_entry_signers:
  assumes "tally_ok X V seen t" "(k, sigs) \<in> set t"
  shows "distinct (map ps_signer_id sigs)" "ps_signer_id ` set sigs \<subseteq> V"
    "\<forall>s\<in>set sigs. x_verify_strict X (ps_signer_id s) (snd k) (ps_signature s)" "sigs \<noteq> []"
proof -
  obtain t1 t2 where t: "t = t1 @ (k, sigs) # t2" using assms(2) by (meson split_list)
  with assms(1) show "distinct (map ps_signer_id sigs)" "ps_signer_id ` set sigs \<subseteq> V"
    by (auto simp: tally_ok_def tally_signers_def)
  show "\<forall>s\<in>set sigs. x_verify_strict X (ps_signer_id s) (snd k) (ps_signature s)" "sigs \<noteq> []"
    using assms by (auto simp: tally_ok_def)
qed

lemma entry_valid_signers:
  assumes "distinct (map ps_signer_id sigs)" "ps_signer_id ` set sigs \<subseteq> V"
    "\<forall>s\<in>set sigs. x_verify_strict X (ps_signer_id s) mh (ps_signature s)"
  shows "valid_signers X mh V sigs = ps_signer_id ` set sigs"
    "card (valid_signers X mh V sigs) = length sigs"
proof -
  have "first_sig (ps_signer_id s) sigs = Some s" if "s \<in> set sigs" for s
    using that assms(1) by (induction sigs) (auto simp: first_sig_Cons)
  then have "ps_signer_id ` set sigs \<subseteq> valid_signers X mh V sigs"
    using assms(2,3) by (auto simp: valid_signers_def)
  moreover have "valid_signers X mh V sigs \<subseteq> ps_signer_id ` set sigs"
    by (auto simp: valid_signers_def first_sig_def find_Some_iff)
  ultimately show eq: "valid_signers X mh V sigs = ps_signer_id ` set sigs" by blast
  show "card (valid_signers X mh V sigs) = length sigs"
    unfolding eq using distinct_card [OF assms(1)] by simp
qed

lemma first_quorum_Some:
  "first_quorum v q t = Some (Some qc) \<Longrightarrow> \<exists>bh mh sigs. ((bh, mh), sigs) \<in> set t \<and> q \<le> length sigs \<and>
    qc = \<lparr>qc_view_number = v, qc_block_hash = bh, qc_message_hash = mh, qc_partial_sigs = sigs\<rparr>"
  by (induction v q t rule: first_quorum.induct)
    (auto simp: from_signatures_def split: if_splits)

lemma try_create_qc_verifies:
  assumes "try_create_qc_for_view X r v = Some (Some qc)"
    and "replica_quorum_threshold r = Some q"
  shows "qc_view_number qc = v \<and> qc_verify X (hr_validator_set r) q qc"
proof -
  let ?V = "hr_validator_set r"
  obtain msgs where fq: "first_quorum v q (tally_votes X ?V msgs {} []) = Some (Some qc)"
    using assms by (auto simp: try_create_qc_for_view_def bind_eq_Some_conv split: option.splits)
  obtain seen where "tally_ok X ?V seen (tally_votes X ?V msgs {} [])"
    using tally_votes_ok [OF tally_ok_Nil [of X ?V "{}"], of msgs] by blast
  then show ?thesis
    using first_quorum_Some [OF fq] tally_entry_signers entry_valid_signers(2)
    by (fastforce simp: qc_verify_def count_valid_card)
qed

text \<open>
  The order in which the hash map is read does not matter: with a majority threshold at most
  one entry reaches it.
\<close>

lemma tally_unique_quorum:
  assumes "tally_ok X V seen (t1 @ (k1, s1) # t2 @ (k2, s2) # t3)" "finite V" "card V < 2 * q"
  shows "length s1 < q \<or> length s2 < q"
proof -
  let ?A = "map ps_signer_id s1" and ?B = "map ps_signer_id s2"
  have d: "distinct (?A @ ?B)" "set (?A @ ?B) \<subseteq> V"
    using assms(1) by (auto simp: tally_ok_def tally_signers_def)
  have "length s1 + length s2 = card (set (?A @ ?B))" using distinct_card [OF d(1)] by simp
  also have "\<dots> \<le> card V" by (rule card_mono [OF assms(2) d(2)])
  finally show ?thesis using assms(3) by linarith
qed

section \<open>Voting\<close>

text \<open>What \<open>acceptable\<close> has checked of a block.\<close>

definition good_block :: "crates \<Rightarrow> replica \<Rightarrow> block \<Rightarrow> bool" where
  "good_block X r b \<longleftrightarrow>
     safe_node r b (blk_justify b) \<and>
     (\<exists>q. replica_quorum_threshold r = Some q \<and> qc_verify X (hr_validator_set r) q (blk_justify b)) \<and>
     (\<forall>tx\<in>set (blk_transactions b). verify_sender X tx = Some True) \<and>
     blk_merkle_root b = merkle_tree X (map (\<lambda>tx. tx_hash X (st_tx tx)) (blk_transactions b))"

lemma all_verified_True:
  "all_verified X txs = Some True \<longleftrightarrow> (\<forall>tx\<in>set txs. verify_sender X tx = Some True)"
  by (induction txs) (auto simp: bind_eq_Some_conv split: if_splits)

lemma hash_transactions_tree:
  "hash_transactions X txs = Some (merkle_tree X (map (\<lambda>tx. tx_hash X (st_tx tx)) txs))"
  by (simp add: hash_transactions_def compute_merkle_root_tree)

lemma acceptable_good:
  "acceptable X r b (blk_justify b) = Some True \<longleftrightarrow> good_block X r b"
proof (cases "replica_quorum_threshold r")
  case None
  then show ?thesis by (simp add: acceptable_def good_block_def)
next
  case (Some q)
  let ?txs = "blk_transactions b"
  have "acceptable X r b (blk_justify b) =
      (if safe_node r b (blk_justify b) \<and> qc_verify X (hr_validator_set r) q (blk_justify b)
       then all_verified X ?txs \<bind> (\<lambda>valid. if valid
         then Some (merkle_tree X (map (\<lambda>tx. tx_hash X (st_tx tx)) ?txs) = blk_merkle_root b) else Some False)
       else Some False)"
    by (simp add: acceptable_def Some validate_block_transactions_def hash_block_transaction_def
        hash_transactions_tree cong: if_cong)
  moreover have "good_block X r b \<longleftrightarrow> safe_node r b (blk_justify b) \<and>
      qc_verify X (hr_validator_set r) q (blk_justify b) \<and> all_verified X ?txs = Some True \<and>
      blk_merkle_root b = merkle_tree X (map (\<lambda>tx. tx_hash X (st_tx tx)) ?txs)"
    by (simp add: good_block_def Some all_verified_True)
  ultimately show ?thesis by (cases "all_verified X ?txs") (simp_all, metis)
qed

lemma get_justifed_block_and_qc_Some:
  "get_justifed_block_and_qc r b = (Some b', Some qc) \<longleftrightarrow>
   (\<exists>p txs v m. b = Normal p txs v qc m) \<and> hr_blockstore r (qc_block_hash qc) = Some b'"
  by (cases b) (auto simp: get_justifed_block_and_qc_def)

text \<open>
  The outcomes of handling a proposal: it is ignored or stored without a vote, or the replica
  votes; only then can the certificate be adopted and the chain be advanced.
\<close>

lemma replica_handle_proposal_cases:
  assumes "replica_handle_proposal X r node sender = Some (m, r')"
  obtains (ignored) leader where "get_leader_for_view (hr_pacemaker r) (curr_view_of r) = Some leader"
      "sender \<noteq> leader" "m = None" "r' = r"
  | (stored) "get_leader_for_view (hr_pacemaker r) (curr_view_of r) = Some sender" "m = None"
      "r' = r\<lparr>hr_blockstore := (hr_blockstore r)(block_hash X node \<mapsto> node)\<rparr>"
  | (voted) r1 r2 b_double_prime where
      "get_leader_for_view (hr_pacemaker r) (curr_view_of r) = Some sender"
      "r1 = r\<lparr>hr_blockstore := (hr_blockstore r)(block_hash X node \<mapsto> node)\<rparr>"
      "hr_blockstore r1 (qc_block_hash (blk_justify node)) = Some b_double_prime"
      "good_block X r1 node" "m = Some (vote_message X r1 node)"
      "r2 = add_block_transactions_to_pending r1 node"
      "(if is_parent X node b_double_prime
        then adopt_qc r2 (blk_justify node) \<bind> (\<lambda>r3. pre_commit X r3 b_double_prime)
        else Some r2) = Some r'"
proof -
  let ?r1 = "r\<lparr>hr_blockstore := (hr_blockstore r)(block_hash X node \<mapsto> node)\<rparr>"
  from assms obtain leader where leader: "get_leader_for_view (hr_pacemaker r) (curr_view_of r) = Some leader"
    by (auto simp: replica_handle_proposal_def bind_eq_Some_conv)
  note defs = replica_handle_proposal_def leader Let_def bind_eq_Some_conv
  show thesis
  proof (cases "sender = leader")
    case False
    with assms have "m = None" "r' = r" by (simp_all add: replica_handle_proposal_def leader)
    then show thesis by (rule ignored [OF leader False])
  next
    case True
    note leader' = leader [folded True]
    show thesis
    proof (cases "\<exists>b qc. get_justifed_block_and_qc ?r1 node = (Some b, Some qc)")
      case False
      obtain x y where "get_justifed_block_and_qc ?r1 node = (x, y)" by force
      then have "m = None \<and> r' = ?r1"
        using False assms True by (cases x; cases y) (simp_all add: replica_handle_proposal_def leader)
      then show thesis by (intro stored [OF leader']) simp_all
    next
      case found: True
      then obtain b qc where b: "get_justifed_block_and_qc ?r1 node = (Some b, Some qc)" by blast
      then have qc: "qc = blk_justify node" "hr_blockstore ?r1 (qc_block_hash qc) = Some b"
        by (auto simp: get_justifed_block_and_qc_Some)
      from assms True b obtain ok where ok: "acceptable X ?r1 node qc = Some ok" 
        by (simp add: defs) blast
      show thesis
      proof (cases ok)
        case False
        with assms True b ok have "m = None" "r' = ?r1" by (simp_all add: replica_handle_proposal_def leader)
        then show thesis by (rule stored [OF leader'])
      next
        case okT: True
        then have "good_block X ?r1 node" using ok acceptable_good [of X ?r1 node] qc by simp
        moreover have "m = Some (vote_message X ?r1 node)"
          using assms True b ok okT by (cases "is_parent X node b") (auto simp: defs)
        moreover have "(if is_parent X node b
            then adopt_qc (add_block_transactions_to_pending ?r1 node) (blk_justify node) \<bind>
              (\<lambda>r3. pre_commit X r3 b)
            else Some (add_block_transactions_to_pending ?r1 node)) = Some r'"
          using assms True b ok okT qc(1) by (cases "is_parent X node b") (auto simp: defs)
        ultimately show thesis
          using qc by (intro voted [OF leader' refl _ _ _ refl]) simp_all
      qed
    qed
  qed
qed

section \<open>Committing\<close>

text \<open>A block that is justified by a certificate of its own parent.\<close>

definition direct_link :: "crates \<Rightarrow> block_store \<Rightarrow> block \<Rightarrow> block \<Rightarrow> bool" where
  "direct_link X store child parent \<longleftrightarrow> is_parent X child parent \<and>
     store (qc_block_hash (blk_justify child)) = Some parent"

definition three_chain :: "crates \<Rightarrow> block_store \<Rightarrow> block \<Rightarrow> block \<Rightarrow> block \<Rightarrow> block \<Rightarrow> bool" where
  "three_chain X store b_star b2 b1 b0 \<longleftrightarrow>
     direct_link X store b_star b2 \<and> direct_link X store b2 b1 \<and> direct_link X store b1 b0"

lemma adopt_qc_Some:
  "adopt_qc r qc = Some r' \<longleftrightarrow>
   (\<exists>w. prune_before_view (hr_messages r) (qc_view_number qc) = Some w \<and>
     r' = r\<lparr>hr_generic_qc := qc, hr_messages := w\<rparr>)"
  by (auto simp: adopt_qc_def bind_eq_Some_conv)

text \<open>A commit changes the ledger, the committed block in the store and the transaction pools.\<close>

lemma commit_block_Some:
  assumes "commit_block X r key b = Some r'"
  obtains rs b' ledger mp pend com where "apply_block X (hr_ledger_state r) b = Some (rs, b', ledger)"
    "update_after_execution (hr_mempool r) rs = Some mp"
    "r' = r\<lparr>hr_ledger_state := ledger, hr_blockstore := (hr_blockstore r)(key \<mapsto> b'),
            hr_pending_transactions := pend, hr_committed_transactions := com, hr_mempool := mp\<rparr>"
  using assms
  by (auto simp: commit_block_def bind_eq_Some_conv Let_def remove_block_transactions_from_pending_def
      add_block_transactions_to_committed_def)

lemma decide_cases:
  assumes "decide X r b1 = Some r'"
  obtains (skip) "r' = r"
  | (commit) b0 where "direct_link X (hr_blockstore r) b1 b0"
      "commit_block X r (qc_block_hash (blk_justify b1)) b0 = Some r'"
  using assms
  by (cases b1) (auto simp: decide_def get_justified_block_def direct_link_def is_parent_def
      split: option.splits if_splits)

lemma pre_commit_cases:
  assumes "pre_commit X r b2 = Some r'"
  obtains (skip) "r' = r"
  | (lock) b1 where "direct_link X (hr_blockstore r) b2 b1"
      "decide X (r\<lparr>hr_locked_qc := blk_justify b2,
         hr_pacemaker := set_last_committed_view (blk_justify b2) (hr_pacemaker r)\<rparr>) b1 = Some r'"
proof -
  obtain x y where xy: "get_justifed_block_and_qc r b2 = (x, y)" by force
  show thesis
  proof (cases "\<exists>b1 qc. x = Some b1 \<and> y = Some qc \<and> is_parent X b2 b1")
    case False
    with assms xy have "r' = r" by (cases x; cases y) (auto simp: pre_commit_def split: if_splits)
    then show thesis by (rule skip)
  next
    case True
    then obtain b1 qc where b1: "x = Some b1" "y = Some qc" "is_parent X b2 b1" by blast
    with xy have "qc = blk_justify b2" "hr_blockstore r (qc_block_hash qc) = Some b1"
      by (auto simp: get_justifed_block_and_qc_Some)
    with assms xy b1 show thesis by (intro lock [of b1]) (auto simp: pre_commit_def direct_link_def)
  qed
qed

text \<open>The ledger of a replica only moves by the application of the oldest block of a three-chain.\<close>

lemma pre_commit_ledger:
  assumes "pre_commit X r b2 = Some r'"
  shows "hr_ledger_state r' = hr_ledger_state r \<or>
    (\<exists>b1 b0 rs b0'. direct_link X (hr_blockstore r) b2 b1 \<and> direct_link X (hr_blockstore r) b1 b0 \<and>
      apply_block X (hr_ledger_state r) b0 = Some (rs, b0', hr_ledger_state r') \<and>
      hr_locked_qc r' = blk_justify b2)"
  using assms
proof (cases rule: pre_commit_cases)
  case (lock b1)
  let ?r = "r\<lparr>hr_locked_qc := blk_justify b2,
         hr_pacemaker := set_last_committed_view (blk_justify b2) (hr_pacemaker r)\<rparr>"
  from lock(2) show ?thesis
  proof (cases rule: decide_cases)
    case (commit b0)
    from commit(2) obtain rs b' ledger mp pend com where "apply_block X (hr_ledger_state r) b0 = Some (rs, b', ledger)"
      "r' = ?r\<lparr>hr_ledger_state := ledger, hr_blockstore := (hr_blockstore ?r)(qc_block_hash (blk_justify b1) \<mapsto> b'),
            hr_pending_transactions := pend, hr_committed_transactions := com, hr_mempool := mp\<rparr>"
      by (rule commit_block_Some) simp
    with lock(1) commit(1) show ?thesis by simp blast
  qed simp
qed simp

lemma replica_handle_proposal_ledger:
  assumes "replica_handle_proposal X r node sender = Some (m, r')"
  shows "hr_ledger_state r' = hr_ledger_state r \<or>
    (\<exists>b2 b1 b0 rs b0'. three_chain X ((hr_blockstore r)(block_hash X node \<mapsto> node)) node b2 b1 b0 \<and>
      apply_block X (hr_ledger_state r) b0 = Some (rs, b0', hr_ledger_state r') \<and>
      m \<noteq> None \<and> hr_locked_qc r' = blk_justify b2)"
  using assms
proof (cases rule: replica_handle_proposal_cases)
  case (voted r1 r2 b2)
  show ?thesis
  proof (cases "is_parent X node b2")
    case True
    with voted(7) obtain r3 where r3: "adopt_qc r2 (blk_justify node) = Some r3" "pre_commit X r3 b2 = Some r'"
      by (auto simp: bind_eq_Some_conv)
    have "hr_ledger_state r3 = hr_ledger_state r"
      "hr_blockstore r3 = (hr_blockstore r)(block_hash X node \<mapsto> node)"
      using r3(1) voted(2,6) by (auto simp: adopt_qc_Some add_block_transactions_to_pending_def)
    moreover have "direct_link X ((hr_blockstore r)(block_hash X node \<mapsto> node)) node b2"
      using True voted(2,3) by (simp add: direct_link_def)
    ultimately show ?thesis using pre_commit_ledger [OF r3(2)] voted(5) unfolding three_chain_def
      by (metis option.distinct(1))
  next
    case False
    with voted(2,6,7) show ?thesis by (auto simp: add_block_transactions_to_pending_def)
  qed
qed auto

section \<open>The invariant\<close>

text \<open>
  Every block of the store is filed under its hash, every message of the window under its
  view, and the mempool's counters cover its contents.
\<close>

definition replica_inv :: "crates \<Rightarrow> replica \<Rightarrow> bool" where
  "replica_inv X r \<longleftrightarrow>
     (\<forall>h b. hr_blockstore r h = Some b \<longrightarrow> block_hash X b = h) \<and>
     mempool_ok (hr_mempool r) \<and>
     (\<forall>v. \<forall>m\<in>set (view_messages (hr_messages r) v). get_view_number m = v)"

lemma replica_new_inv: "replica_new X i sk V p pk = Some r \<Longrightarrow> replica_inv X r"
  by (auto simp: replica_new_def replica_inv_def bind_eq_Some_conv create_genesis_block_def Let_def
      mempool_new_ok window_new_def view_messages_def split: if_splits)

lemma replica_inv_updates [simp]:
  "replica_inv X (r\<lparr>hr_pacemaker := p\<rparr>) = replica_inv X r"
  "replica_inv X (r\<lparr>hr_view_progress := vp\<rparr>) = replica_inv X r"
  "replica_inv X (r\<lparr>hr_locked_qc := qc\<rparr>) = replica_inv X r"
  "replica_inv X (r\<lparr>hr_current_proposal := cp\<rparr>) = replica_inv X r"
  "replica_inv X (mark_voted r) = replica_inv X r" "replica_inv X (mark_proposed r) = replica_inv X r"
  "replica_inv X (add_block_transactions_to_pending r b) = replica_inv X r"
  by (simp_all add: replica_inv_def mark_voted_def mark_proposed_def add_block_transactions_to_pending_def)

lemma store_block_inv [simp]:
  "replica_inv X r \<Longrightarrow> replica_inv X (r\<lparr>hr_blockstore := (hr_blockstore r)(block_hash X b \<mapsto> b)\<rparr>)"
  by (simp add: replica_inv_def)

lemma push_message_inv [simp]: "replica_inv X r \<Longrightarrow> replica_inv X (push_message r m)"
proof (cases "mw_lowest_view (hr_messages r) \<le> get_view_number m")
  case True
  then show "replica_inv X r \<Longrightarrow> replica_inv X (push_message r m)"
    by (auto simp: replica_inv_def push_message_def window_push_messages split: if_splits)
qed (simp add: replica_inv_def push_message_def window_push_def)

lemma adopt_qc_inv: "\<lbrakk>adopt_qc r qc = Some r'; replica_inv X r\<rbrakk> \<Longrightarrow> replica_inv X r'"
  by (auto simp: adopt_qc_Some replica_inv_def prune_before_view_messages split: if_splits)

lemma commit_block_inv:
  assumes "commit_block X r key b = Some r'" "replica_inv X r" "hr_blockstore r key = Some b"
  shows "replica_inv X r'"
proof -
  obtain rs b' ledger mp pend com where 1: "apply_block X (hr_ledger_state r) b = Some (rs, b', ledger)"
    "update_after_execution (hr_mempool r) rs = Some mp"
    "r' = r\<lparr>hr_ledger_state := ledger, hr_blockstore := (hr_blockstore r)(key \<mapsto> b'),
            hr_pending_transactions := pend, hr_committed_transactions := com, hr_mempool := mp\<rparr>"
    by (rule commit_block_Some [OF assms(1)])
  have "block_hash X b' = key"
    using 1(1) assms(2,3) by (auto simp: apply_block_def bind_eq_Some_conv replica_inv_def)
  then show ?thesis
    using assms(2) update_after_execution_Some [OF _ 1(2)] by (simp add: 1(3) replica_inv_def)
qed

lemma pre_commit_inv:
  assumes "pre_commit X r b2 = Some r'" "replica_inv X r"
  shows "replica_inv X r'"
  using assms(1)
proof (cases rule: pre_commit_cases)
  case (lock b1)
  from lock(2) show ?thesis
  proof (cases rule: decide_cases)
    case (commit b0)
    then show ?thesis using assms(2) by (auto simp: direct_link_def elim!: commit_block_inv)
  qed (use assms(2) in simp)
qed (use assms(2) in simp)

lemma replica_handle_proposal_inv:
  assumes "replica_handle_proposal X r node sender = Some (m, r')" "replica_inv X r"
  shows "replica_inv X r'"
  using assms(1)
proof (cases rule: replica_handle_proposal_cases)
  case (voted r1 r2 b2)
  then have "replica_inv X r2" using assms(2) by simp
  with voted(7) show ?thesis
    by (auto simp: bind_eq_Some_conv split: if_splits intro: pre_commit_inv adopt_qc_inv)
qed (use assms(2) in simp_all)

lemma replica_handle_vote_inv:
  "\<lbrakk>replica_handle_vote now r = Some (m, r'); replica_inv X r\<rbrakk> \<Longrightarrow> replica_inv X r'"
  by (auto simp: replica_handle_vote_def bind_eq_Some_conv Let_def split: if_splits)

lemma replica_handle_message_inv:
  "\<lbrakk>replica_handle_message X now r msg = Some (m, r'); replica_inv X r\<rbrakk> \<Longrightarrow> replica_inv X r'"
  by (auto simp: replica_handle_message_def split: hotstuff_message.splits
      intro: replica_handle_proposal_inv replica_handle_vote_inv)

lemma leader_propose_inv:
  assumes "leader_propose X r = Some (m, r')" "replica_inv X r"
  shows "replica_inv X r'"
proof (cases "hr_blockstore r (qc_block_hash (hr_generic_qc r))")
  case None
  with assms show ?thesis by (simp add: leader_propose_def)
next
  case (Some parent)
  with assms(1) obtain txs mp b where pop: "pop_next_n (hr_mempool r) block_transaction_length = Some (txs, mp)"
    and r': "r' = r\<lparr>hr_mempool := mp, hr_blockstore := (hr_blockstore r)(block_hash X b \<mapsto> b),
      hr_current_proposal := Some b\<rparr>"
    by (auto simp: leader_propose_def select_transactions_def bind_eq_Some_conv Let_def)
  have "mempool_ok mp"
    using pop_next_n_spec [of "hr_mempool r" block_transaction_length] assms(2) pop
    by (auto simp: replica_inv_def)
  then show ?thesis using assms(2) by (simp add: r' replica_inv_def)
qed

lemma leader_handle_message_inv:
  assumes "leader_handle_message X now r = Some (m, r')" "replica_inv X r"
  shows "replica_inv X r'"
  using assms
  by (auto simp: leader_handle_message_def catch_up_def bind_eq_Some_conv Let_def
      split: if_splits option.splits elim!: leader_propose_inv intro: adopt_qc_inv)

lemma handle_as_replica_cases:
  assumes "handle_as_replica X now r msg = Some (out, r')"
  obtains m r1 where "replica_handle_message X now r msg = Some (m, r1)" "r' = r1 \<or> r' = mark_voted r1"
  using assms by (auto simp: handle_as_replica_def bind_eq_Some_conv Let_def split: option.splits)

lemma handle_as_leader_cases:
  assumes "handle_as_leader X now r = Some (out, r')"
  obtains m r1 where "leader_handle_message X now r = Some (m, r1)" "r' = r1"
  | proposal r1 m r2 where "leader_handle_message X now r = Some (Some proposal, r1)"
      "replica_handle_message X now (push_message (mark_proposed r1) proposal) proposal = Some (m, r2)"
      "r' = r2 \<or> r' = mark_voted r2"
  using assms by (auto simp: handle_as_leader_def bind_eq_Some_conv Let_def split: option.splits)

lemma handle_as_replica_inv:
  "\<lbrakk>handle_as_replica X now r msg = Some (out, r'); replica_inv X r\<rbrakk> \<Longrightarrow> replica_inv X r'"
  by (erule handle_as_replica_cases) (auto dest: replica_handle_message_inv)

lemma handle_as_leader_inv:
  assumes "handle_as_leader X now r = Some (out, r')" "replica_inv X r"
  shows "replica_inv X r'"
  using assms(1)
proof (cases rule: handle_as_leader_cases)
  case (1 m r1)
  then show ?thesis using leader_handle_message_inv assms(2) by blast
next
  case (2 proposal r1 m r2)
  have "replica_inv X r1" using leader_handle_message_inv [OF 2(1) assms(2)] .
  then have "replica_inv X r2" by (intro replica_handle_message_inv [OF 2(2)]) simp
  then show ?thesis using 2(3) by auto
qed

lemma catch_up_view_state:
  assumes "catch_up_view now r msg = Some (out, r')"
  shows "\<exists>p vp. r' = r\<lparr>hr_pacemaker := p, hr_view_progress := vp\<rparr> \<and>
    pa_curr_view p = max (curr_view_of r) (get_view_number msg) \<and>
    pa_replica_ids p = pa_replica_ids (hr_pacemaker r)"
proof (cases "get_view_number msg \<le> curr_view_of r")
  case True
  then have "r' = r\<lparr>hr_pacemaker := hr_pacemaker r\<rparr>"
    using assms by (simp add: catch_up_view_def sync_view_def fast_forward_view_def)
  with True show ?thesis
    by (intro exI [of _ "hr_pacemaker r"] exI [of _ "hr_view_progress r"]) simp
next
  case False
  let ?p = "(hr_pacemaker r)\<lparr>pa_curr_view := get_view_number msg, pa_last_view_change := now\<rparr>"
  from False assms have "r' = r\<lparr>hr_pacemaker := ?p, hr_view_progress := no_progress\<rparr>"
    by (auto simp: catch_up_view_def sync_view_def fast_forward_view_def bind_eq_Some_conv Let_def
        split: if_splits)
  with False show ?thesis by (intro exI [of _ ?p] exI [of _ no_progress]) simp
qed

lemma handle_message_inv:
  assumes "handle_message X now r msg = Some (out, r')" "replica_inv X r"
  shows "replica_inv X r'"
proof -
  obtain out1 out2 r1 where 1: "catch_up_view now r msg = Some (out1, r1)"
    and 2: "handle_as_leader X now (push_message r1 msg) = Some (out2, r') \<or>
      handle_as_replica X now (push_message r1 msg) msg = Some (out2, r')"
    using assms(1) by (auto simp: handle_message_def bind_eq_Some_conv Let_def split: if_splits)
  have "replica_inv X r1"
    using catch_up_view_state [OF 1] assms(2) by auto
  then have "replica_inv X (push_message r1 msg)" by simp
  with 2 show ?thesis using handle_as_leader_inv handle_as_replica_inv by blast
qed

lemma handle_event_inv:
  assumes "handle_event X now r e = Some (out, r')" "replica_inv X r"
  shows "replica_inv X r'"
proof (cases e)
  case (HotStuffEvent msg)
  with assms handle_message_inv show ?thesis by auto
next
  case (TransactionEvent tx)
  with assms(1) obtain mp n where "mempool_insert (hr_mempool r) tx n = Some mp" "r' = r\<lparr>hr_mempool := mp\<rparr>"
    by (auto simp: replica_handle_transaction_def bind_eq_Some_conv Let_def)
  with assms(2) mempool_insert_Some [of "hr_mempool r" tx n mp] show ?thesis by (simp add: replica_inv_def)
next
  case TimerEvent
  with assms show ?thesis
    by (auto simp: advance_view_def send_new_view_to_leader_def bind_eq_Some_conv split: if_splits)
qed (use assms in auto)

lemma replica_turn_inv:
  assumes "replica_turn X now r e = Some (out, r')" "replica_inv X r"
  shows "replica_inv X r'"
  using handle_event_inv replica_turn_event assms by blast

text \<open>The states a replica can reach: any sequence of turns after its creation.\<close>

inductive replica_reachable :: "crates \<Rightarrow> replica \<Rightarrow> bool" for X where
  start: "replica_new X i sk V p pk = Some r \<Longrightarrow> replica_reachable X r"
| turn: "\<lbrakk>replica_reachable X r; replica_turn X now r e = Some (out, r')\<rbrakk> \<Longrightarrow> replica_reachable X r'"

lemma reachable_inv: "replica_reachable X r \<Longrightarrow> replica_inv X r"
  by (induction rule: replica_reachable.induct) (auto intro: replica_new_inv replica_turn_inv)

section \<open>Views\<close>

lemma pre_commit_view: "pre_commit X r b2 = Some r' \<Longrightarrow> curr_view_of r' = curr_view_of r"
  by (erule pre_commit_cases, simp, erule decide_cases)
    (auto simp: set_last_committed_view_def elim!: commit_block_Some)

lemma replica_handle_proposal_view:
  assumes "replica_handle_proposal X r node sender = Some (m, r')"
  shows "curr_view_of r' = curr_view_of r"
  using assms
proof (cases rule: replica_handle_proposal_cases)
  case (voted r1 r2 b2)
  then have "curr_view_of r2 = curr_view_of r" by (simp add: add_block_transactions_to_pending_def)
  with voted(7) show ?thesis
    by (auto simp: bind_eq_Some_conv adopt_qc_Some split: if_splits dest!: pre_commit_view)
qed auto

lemma replica_handle_message_view:
  "replica_handle_message X now r msg = Some (m, r') \<Longrightarrow> curr_view_of r \<le> curr_view_of r'"
  by (auto simp: replica_handle_message_def replica_handle_vote_def pacemaker_advance_view_def checked Let_def
      split: hotstuff_message.splits if_splits dest: replica_handle_proposal_view)

lemma leader_handle_message_view:
  assumes "leader_handle_message X now r = Some (m, r')"
  shows "curr_view_of r' = curr_view_of r"
proof -
  have propose: "curr_view_of r2 = curr_view_of r1" if "leader_propose X r1 = Some (m, r2)" for r1 r2
    using that by (auto simp: leader_propose_def select_transactions_def bind_eq_Some_conv Let_def
        split: option.splits)
  have "curr_view_of r2 = curr_view_of r1" if "catch_up r1 v = Some r2" for r1 r2 v
    using that by (auto simp: catch_up_def adopt_qc_Some split: if_splits option.splits)
  with propose assms show ?thesis
    by (auto simp: leader_handle_message_def bind_eq_Some_conv Let_def reset_timer_def adopt_qc_Some
        split: if_splits option.splits)
qed

lemma handle_message_view:
  assumes "handle_message X now r msg = Some (out, r')"
  shows "max (curr_view_of r) (get_view_number msg) \<le> curr_view_of r'"
proof -
  obtain out1 out2 r1 where 1: "catch_up_view now r msg = Some (out1, r1)"
    and 2: "handle_as_leader X now (push_message r1 msg) = Some (out2, r') \<or>
      handle_as_replica X now (push_message r1 msg) msg = Some (out2, r')"
    using assms(1) by (auto simp: handle_message_def bind_eq_Some_conv Let_def split: if_splits)
  have "curr_view_of (push_message r1 msg) = max (curr_view_of r) (get_view_number msg)"
    using catch_up_view_state [OF 1] by (auto simp: push_message_def)
  moreover have "curr_view_of (push_message r1 msg) \<le> curr_view_of r'"
    using 2 by (auto simp: push_message_def mark_voted_def mark_proposed_def
        elim!: handle_as_leader_cases handle_as_replica_cases
        dest!: leader_handle_message_view replica_handle_message_view)
  ultimately show ?thesis by simp
qed

lemma handle_event_view:
  assumes "handle_event X now r e = Some (out, r')"
  shows "curr_view_of r \<le> curr_view_of r'"
proof (cases e)
  case (HotStuffEvent msg)
  with assms handle_message_view [of X now r msg out r'] show ?thesis by simp
next
  case (TransactionEvent tx)
  with assms show ?thesis by (auto simp: replica_handle_transaction_def bind_eq_Some_conv Let_def)
next
  case TimerEvent
  with assms show ?thesis
    by (auto simp: advance_view_def send_new_view_to_leader_def pacemaker_advance_view_def checked
        split: if_splits)
qed (use assms in auto)

lemma replica_turn_view:
  assumes "replica_turn X now r e = Some (out, r')"
  shows "curr_view_of r \<le> curr_view_of r'"
  using handle_event_view replica_turn_event assms by blast

section \<open>Executions of the ledger by the replica\<close>

text \<open>A message changes the ledger only while a proposal is handled.\<close>

lemma leader_handle_message_ledger:
  "leader_handle_message X now r = Some (m, r') \<Longrightarrow> hr_ledger_state r' = hr_ledger_state r"
  by (auto simp: leader_handle_message_def catch_up_def leader_propose_def select_transactions_def
      bind_eq_Some_conv Let_def adopt_qc_Some split: if_splits option.splits)

text \<open>The ledger stays or executes one block.\<close>

definition executes :: "crates \<Rightarrow> ledger_state \<Rightarrow> ledger_state \<Rightarrow> bool" where
  "executes X s s' \<longleftrightarrow> s' = s \<or> (\<exists>b rs b'. apply_block X s b = Some (rs, b', s'))"

lemma executes_refl [simp]: "executes X s s"
  by (simp add: executes_def)

lemma replica_handle_message_executes:
  assumes "replica_handle_message X now r msg = Some (m, r')"
  shows "executes X (hr_ledger_state r) (hr_ledger_state r')"
proof (cases msg)
  case (Proposal node v sender sv)
  with assms have "replica_handle_proposal X r node sender = Some (m, r')"
    by (simp add: replica_handle_message_def)
  from replica_handle_proposal_ledger [OF this] show ?thesis by (auto simp: executes_def)
qed (use assms in \<open>auto simp: replica_handle_message_def replica_handle_vote_def bind_eq_Some_conv Let_def
    split: if_splits\<close>)

lemma handle_event_executes:
  assumes "handle_event X now r e = Some (out, r')"
  shows "executes X (hr_ledger_state r) (hr_ledger_state r')"
proof (cases e)
  case (HotStuffEvent msg)
  with assms obtain out1 out2 r1 where 1: "catch_up_view now r msg = Some (out1, r1)"
    and 2: "handle_as_leader X now (push_message r1 msg) = Some (out2, r') \<or>
      handle_as_replica X now (push_message r1 msg) msg = Some (out2, r')"
    by (auto simp: handle_message_def bind_eq_Some_conv Let_def split: if_splits)
  have "hr_ledger_state (push_message r1 msg) = hr_ledger_state r"
    using catch_up_view_state [OF 1] by (auto simp: push_message_def)
  moreover have "executes X (hr_ledger_state (push_message r1 msg)) (hr_ledger_state r')"
    using 2 by (auto simp: push_message_def mark_voted_def mark_proposed_def
        elim!: handle_as_leader_cases handle_as_replica_cases
        dest!: leader_handle_message_ledger replica_handle_message_executes)
  ultimately show ?thesis by simp
next
  case (TransactionEvent tx)
  with assms show ?thesis by (auto simp: replica_handle_transaction_def bind_eq_Some_conv Let_def)
next
  case TimerEvent
  with assms show ?thesis
    by (auto simp: advance_view_def send_new_view_to_leader_def bind_eq_Some_conv split: if_splits)
qed (use assms in auto)

lemma replica_turn_executes:
  "replica_turn X now r e = Some (out, r') \<Longrightarrow> executes X (hr_ledger_state r) (hr_ledger_state r')"
  using handle_event_executes replica_turn_event by blast

lemma replica_turn_nonce:
  assumes "replica_turn X now r e = Some (out, r')"
  shows "nonce_of (hr_ledger_state r) pk \<le> nonce_of (hr_ledger_state r') pk"
  using replica_turn_executes [OF assms]
  by (auto simp: executes_def apply_block_def bind_eq_Some_conv dest!: apply_all_mono [of X _ _ _ _ _ pk])

section \<open>What a proposal is not checked for\<close>

text \<open>
  The flags of \<open>view_progress\<close> play no role when a proposal is handled: every function on the
  path commutes with setting them.
\<close>

abbreviation with_progress :: "view_progress \<Rightarrow> replica \<Rightarrow> replica" where
  "with_progress vp r \<equiv> r\<lparr>hr_view_progress := vp\<rparr>"

lemma progress_commute [simp]:
  "(with_progress vp r)\<lparr>hr_locked_qc := x0\<rparr> = with_progress vp (r\<lparr>hr_locked_qc := x0\<rparr>)"
  "(with_progress vp r)\<lparr>hr_generic_qc := x1\<rparr> = with_progress vp (r\<lparr>hr_generic_qc := x1\<rparr>)"
  "(with_progress vp r)\<lparr>hr_pacemaker := x2\<rparr> = with_progress vp (r\<lparr>hr_pacemaker := x2\<rparr>)"
  "(with_progress vp r)\<lparr>hr_messages := x3\<rparr> = with_progress vp (r\<lparr>hr_messages := x3\<rparr>)"
  "(with_progress vp r)\<lparr>hr_blockstore := x4\<rparr> = with_progress vp (r\<lparr>hr_blockstore := x4\<rparr>)"
  "(with_progress vp r)\<lparr>hr_ledger_state := x5\<rparr> = with_progress vp (r\<lparr>hr_ledger_state := x5\<rparr>)"
  "(with_progress vp r)\<lparr>hr_pending_transactions := x6\<rparr> = with_progress vp (r\<lparr>hr_pending_transactions := x6\<rparr>)"
  "(with_progress vp r)\<lparr>hr_committed_transactions := x7\<rparr> = with_progress vp (r\<lparr>hr_committed_transactions := x7\<rparr>)"
  "(with_progress vp r)\<lparr>hr_mempool := x8\<rparr> = with_progress vp (r\<lparr>hr_mempool := x8\<rparr>)"
  by (cases r; simp)+

lemma acceptable_progress: "acceptable X (with_progress vp r) b qc = acceptable X r b qc"
  by (simp add: acceptable_def replica_quorum_threshold_def safe_node_def)

lemma commit_block_progress:
  "commit_block X (with_progress vp r) key b = map_option (with_progress vp) (commit_block X r key b)"
proof (cases "apply_block X (hr_ledger_state r) b")
  case (Some a)
  obtain rs b' l where a: "a = (rs, b', l)" by (cases a)
  show ?thesis using Some a
    by (cases "update_after_execution (hr_mempool r) rs")
      (simp_all add: commit_block_def Let_def remove_block_transactions_from_pending_def
        add_block_transactions_to_committed_def)
qed (simp add: commit_block_def)

lemma decide_progress: "decide X (with_progress vp r) b = map_option (with_progress vp) (decide X r b)"
  by (cases b) (auto simp: decide_def get_justified_block_def commit_block_progress split: option.splits)

lemma pre_commit_progress:
  "pre_commit X (with_progress vp r) b = map_option (with_progress vp) (pre_commit X r b)"
proof (cases b)
  case (Normal p txs v j m)
  let ?r = "r\<lparr>hr_locked_qc := j, hr_pacemaker := set_last_committed_view j (hr_pacemaker r)\<rparr>"
  have "decide X ((with_progress vp r)\<lparr>hr_locked_qc := j,
      hr_pacemaker := set_last_committed_view j (hr_pacemaker r)\<rparr>) b1 =
      map_option (with_progress vp) (decide X ?r b1)" for b1
    using decide_progress [of X vp ?r b1] by simp
  then show ?thesis using Normal
    by (auto simp: pre_commit_def get_justifed_block_and_qc_def split: option.splits)
qed (simp add: pre_commit_def get_justifed_block_and_qc_def)

lemma adopt_qc_progress: "adopt_qc (with_progress vp r) qc = map_option (with_progress vp) (adopt_qc r qc)"
  by (simp add: adopt_qc_def map_option_bind comp_def)

lemma replica_handle_proposal_progress:
  "replica_handle_proposal X (with_progress vp r) node sender =
   map_option (\<lambda>(m, r'). (m, with_progress vp r')) (replica_handle_proposal X r node sender)"
proof (cases "get_leader_for_view (hr_pacemaker r) (curr_view_of r)")
  case (Some leader)
  let ?s = "(hr_blockstore r)(block_hash X node \<mapsto> node)"
  let ?r1 = "r\<lparr>hr_blockstore := ?s\<rparr>"
  let ?r2 = "add_block_transactions_to_pending ?r1 node"
  have acc: "acceptable X (with_progress vp ?r1) node qc = acceptable X ?r1 node qc" for qc
    using acceptable_progress [of X vp ?r1] by simp
  have pend: "add_block_transactions_to_pending (with_progress vp ?r1) node = with_progress vp ?r2"
    by (simp add: add_block_transactions_to_pending_def)
  have just: "get_justifed_block_and_qc (with_progress vp ?r1) node = get_justifed_block_and_qc ?r1 node"
    by (cases node) (simp_all add: get_justifed_block_and_qc_def)
  have vote: "vote_message X (with_progress vp ?r1) node = vote_message X ?r1 node"
    by (simp add: vote_message_def)
  obtain x y where xy: "get_justifed_block_and_qc ?r1 node = (x, y)" by force
  have chain: "adopt_qc (with_progress vp ?r2) qc \<bind> (\<lambda>r3. pre_commit X r3 b) =
      map_option (with_progress vp) (adopt_qc ?r2 qc \<bind> (\<lambda>r3. pre_commit X r3 b))" for qc b
    by (cases "adopt_qc ?r2 qc") (simp_all add: adopt_qc_progress pre_commit_progress)
  show ?thesis
  proof (cases "sender = leader \<and> x \<noteq> None \<and> y \<noteq> None")
    case False
    then show ?thesis using Some xy just
      by (cases x; cases y) (auto simp: replica_handle_proposal_def Let_def)
  next
    case True
    then obtain b qc where "x = Some b" "y = Some qc" by auto
    then show ?thesis using Some xy just True chain [of qc b]
      by (cases "acceptable X ?r1 node qc"; cases "adopt_qc ?r2 qc")
        (auto simp: replica_handle_proposal_def Let_def acc pend vote map_option_bind comp_def adopt_qc_progress
          pre_commit_progress bind_map_option split: option.splits)
  qed
qed (simp add: replica_handle_proposal_def)

section \<open>Panics\<close>

lemma leader_view_0: "curr_view_of r = 0 \<Longrightarrow> leader_handle_message X now r = None"
  by (simp add: leader_handle_message_def checked_sub_def reset_timer_def)

lemma handle_message_view_0:
  assumes "curr_view_of r = 0" "get_view_number msg = 0" "current_leader (hr_pacemaker r) = Some (hr_node_id r)"
    and "\<not> vp_leader_has_proposed (hr_view_progress r)"
  shows "handle_message X now r msg = None"
proof -
  have "catch_up_view now r msg = Some ([], r)"
    using assms(1,2) by (simp add: catch_up_view_def sync_view_def fast_forward_view_def)
  moreover have "leader_handle_message X now (push_message r msg) = None"
    using assms(1) by (intro leader_view_0) (simp add: push_message_def)
  ultimately show ?thesis
    using assms by (simp add: handle_message_def Let_def checked_add_def)
      (simp add: push_message_def handle_as_leader_def)
qed

lemma handle_message_max_view:
  "get_view_number msg = 2 ^ 64 - 1 \<Longrightarrow> handle_message X now r msg = None"
  by (cases "catch_up_view now r msg") (auto simp: handle_message_def checked_add_def)

section \<open>The books of a replica\<close>

text \<open>In every reachable state the books are sorted and uncrossed and ids are below the counter.\<close>

lemma executes_sane: "\<lbrakk>executes X s s'; ledger_sane s\<rbrakk> \<Longrightarrow> ledger_sane s'"
  by (auto simp: executes_def apply_block_def bind_eq_Some_conv dest: apply_all_sane)

lemma replica_new_sane: "replica_new X i sk V p pk = Some r \<Longrightarrow> ledger_sane (hr_ledger_state r)"
  by (auto simp: replica_new_def bind_eq_Some_conv create_genesis_block_def Let_def dest: ledger_new_sane)

lemma reachable_sane: "replica_reachable X r \<Longrightarrow> ledger_sane (hr_ledger_state r)"
  by (induction rule: replica_reachable.induct)
    (auto intro: replica_new_sane executes_sane replica_turn_executes)

end
