(* ===== verification/Consensus_Samples.thy ===== *)
theory Consensus_Samples
  imports Replica_Safety Ledger_Samples
begin

text \<open>
  A replica alone in its validator set, and a chain of blocks after the genesis block, for the
  witnesses of the consensus properties.
\<close>

definition sample_key :: bytes where
  "sample_key = [9]"

definition sample_pacemaker :: "view_number \<Rightarrow> pacemaker" where
  "sample_pacemaker v = (pacemaker_new 1 1000 (\<lambda>_. 1) 0)\<lparr>pa_curr_view := v\<rparr>"

definition genesis :: block where
  "genesis = fst create_genesis_block"

definition sample_vote_hash :: "block \<Rightarrow> view_number \<Rightarrow> sha256_hash" where
  "sample_vote_hash b v = unsigned_vote_hash sample_crates b v"

definition sample_qc :: "block \<Rightarrow> view_number \<Rightarrow> quorum_certificate" where
  "sample_qc b v = \<lparr>qc_view_number = v, qc_block_hash = block_hash sample_crates b,
     qc_message_hash = sample_vote_hash b v,
     qc_partial_sigs = [\<lparr>ps_signer_id = pad 32 sample_key,
       ps_signature = x_sign sample_crates sample_key (sample_vote_hash b v)\<rparr>]\<rparr>"

text \<open>The first block carries a transfer, so that committing it changes the ledger.\<close>

definition block1 :: block where
  "block1 = Normal (block_hash sample_crates genesis) [sample_tx 0 10] 1 create_genesis_qc zero_hash"

definition block2 :: block where
  "block2 = Normal (block_hash sample_crates block1) [] 2 (sample_qc block1 1) zero_hash"

definition block3 :: block where
  "block3 = Normal (block_hash sample_crates block2) [] 3 (sample_qc block2 2) zero_hash"

definition block4 :: block where
  "block4 = Normal (block_hash sample_crates block3) [] 4 (sample_qc block3 3) zero_hash"

definition sample_store :: block_store where
  "sample_store = [block_hash sample_crates genesis \<mapsto> genesis, block_hash sample_crates block1 \<mapsto> block1,
     block_hash sample_crates block2 \<mapsto> block2, block_hash sample_crates block3 \<mapsto> block3]"

definition sample_replica :: "view_number \<Rightarrow> replica" where
  "sample_replica v =
     \<lparr>hr_node_id = 0, hr_validator_set = {pad 32 sample_key}, hr_signing_key = sample_key,
      hr_generic_qc = create_genesis_qc, hr_locked_qc = create_genesis_qc, hr_current_proposal = None,
      hr_mempool = mempool_new, hr_pending_transactions = Map.empty,
      hr_committed_transactions = Map.empty, hr_messages = window_new 0,
      hr_pacemaker = sample_pacemaker v, hr_blockstore = sample_store,
      hr_ledger_state = sample_ledger, hr_view_progress = no_progress\<rparr>"

text \<open>The first byte tells the sample blocks apart.\<close>

lemma hash_head:
  "hd (block_hash sample_crates genesis) = 144"
  "(of_nat v :: 8 word) \<noteq> 71 \<Longrightarrow> hd (block_hash sample_crates (Normal p txs v j m)) = of_nat v"
  by (simp_all add: genesis_def create_genesis_block_def sample_crates_def Let_def pad_def
      genesis_block_hash_def)

lemma sample_heads:
  "hd (block_hash sample_crates block1) = 1" "hd (block_hash sample_crates block2) = 2"
  "hd (block_hash sample_crates block3) = 3" "hd (block_hash sample_crates block4) = 4"
  by (simp_all add: block1_def block2_def block3_def block4_def hash_head del: block_hash.simps)

lemma sample_hashes [simp]:
  "block_hash sample_crates block1 \<noteq> block_hash sample_crates genesis"
  "block_hash sample_crates block2 \<noteq> block_hash sample_crates genesis"
  "block_hash sample_crates block2 \<noteq> block_hash sample_crates block1"
  "block_hash sample_crates block3 \<noteq> block_hash sample_crates genesis"
  "block_hash sample_crates block3 \<noteq> block_hash sample_crates block1"
  "block_hash sample_crates block3 \<noteq> block_hash sample_crates block2"
  "block_hash sample_crates block4 \<noteq> block_hash sample_crates genesis"
  "block_hash sample_crates block4 \<noteq> block_hash sample_crates block1"
  "block_hash sample_crates block4 \<noteq> block_hash sample_crates block2"
  "block_hash sample_crates block4 \<noteq> block_hash sample_crates block3"
  by (rule notI, drule arg_cong [where f = hd], simp add: hash_head(1) sample_heads)+

lemmas sample_hashes_sym [simp] = sample_hashes [symmetric]

lemma sample_crates_simps [simp]:
  "x_verifying_key sample_crates = pad 32" "x_key_ok sample_crates bs \<longleftrightarrow> length bs = 32"
  "x_verify_strict sample_crates pk m sig \<longleftrightarrow> sig = pad 64 (pk @ m)"
  "x_sign sample_crates sk m = pad 64 (pad 32 sk @ m)"
  by (simp_all add: sample_crates_def)

lemma sample_replica_simps [simp]:
  "hr_node_id (sample_replica v) = 0" "hr_validator_set (sample_replica v) = {pad 32 sample_key}"
  "hr_signing_key (sample_replica v) = sample_key" "curr_view_of (sample_replica v) = v"
  "hr_locked_qc (sample_replica v) = create_genesis_qc" "hr_blockstore (sample_replica v) = sample_store"
  "hr_messages (sample_replica v) = window_new 0" "hr_ledger_state (sample_replica v) = sample_ledger"
  "hr_mempool (sample_replica v) = mempool_new" "hr_view_progress (sample_replica v) = no_progress"
  "hr_pacemaker (sample_replica v) = sample_pacemaker v"
  by (simp_all add: sample_replica_def sample_pacemaker_def)

lemma sample_pacemaker_simps [simp]:
  "pa_curr_view (sample_pacemaker v) = v" "pa_replica_ids (sample_pacemaker v) = [0]"
  "get_leader_for_view (sample_pacemaker v) u = Some 0" "current_leader (sample_pacemaker v) = Some 0"
  by (simp_all add: sample_pacemaker_def pacemaker_new_def get_leader_for_view_def current_leader_def index_def)

lemma sample_threshold [simp]:
  "replica_quorum_threshold r = Some 1" if "hr_validator_set r = {pad 32 sample_key}"
  using that by (simp add: replica_quorum_threshold_def quorum_threshold_def)

text \<open>The fourth block of the chain completes a three-chain down to the first one.\<close>

lemma sample_lookup [simp]:
  "sample_store (block_hash sample_crates genesis) = Some genesis"
  "sample_store (block_hash sample_crates block1) = Some block1"
  "sample_store (block_hash sample_crates block2) = Some block2"
  "sample_store (block_hash sample_crates block3) = Some block3"
  by (simp_all add: sample_store_def)

lemma genesis_hash: "block_hash sample_crates genesis = genesis_block_hash"
  by (simp add: genesis_def create_genesis_block_def sample_crates_def Let_def)

lemma sample_links [simp]:
  "is_parent sample_crates block4 block3" "is_parent sample_crates block3 block2"
  "is_parent sample_crates block2 block1"
  by (simp_all add: is_parent_def block4_def block3_def block2_def del: block_hash.simps)

lemma sample_justify [simp]:
  "blk_justify block4 = sample_qc block3 3" "blk_justify block3 = sample_qc block2 2"
  "blk_justify block2 = sample_qc block1 1"
  "qc_block_hash (sample_qc b v) = block_hash sample_crates b" "qc_view_number (sample_qc b v) = v"
  "qc_block_hash create_genesis_qc = genesis_block_hash" "qc_view_number create_genesis_qc = 0"
  by (simp_all add: block4_def block3_def block2_def sample_qc_def create_genesis_qc_def)

lemma sample_transactions [simp]:
  "blk_transactions block4 = []" "blk_transactions block1 = [sample_tx 0 10]"
  "blk_merkle_root block4 = zero_hash"
  by (simp_all add: block4_def block1_def)

lemma sample_justified [simp]:
  "get_justifed_block_and_qc r block4 = (hr_blockstore r (block_hash sample_crates block3), Some (sample_qc block3 3))"
  "get_justifed_block_and_qc r block3 = (hr_blockstore r (block_hash sample_crates block2), Some (sample_qc block2 2))"
  "get_justified_block r block2 = hr_blockstore r (block_hash sample_crates block1)"
  by (simp_all add: get_justifed_block_and_qc_def get_justified_block_def block4_def block3_def block2_def
      del: block_hash.simps)

lemma sample_qc_ok [simp]: "qc_verify sample_crates {pad 32 sample_key} (Suc 0) (sample_qc b v)"
  by (simp add: qc_verify_def sample_qc_def)

lemma sample_acceptable:
  assumes "hr_validator_set r = {pad 32 sample_key}" "qc_view_number (hr_locked_qc r) = 0"
  shows "acceptable sample_crates r block4 (sample_qc block3 3) = Some True"
  using assms
  by (simp add: acceptable_def safe_node_def validate_block_transactions_def hash_block_transaction_def
      hash_transactions_def)

lemma sample_apply:
  "\<exists>tx s'. apply_one sample_crates sample_ledger (sample_tx 0 10) = Some (Some (taker_key, 1), tx, s') \<and>
     nonce_of s' taker_key = 1"
  by (simp add: exchange_eval ledger_eval nonce_of_def)

lemma sample_commit_runs:
  "\<exists>m r'. replica_handle_proposal sample_crates (sample_replica 4) block4 0 = Some (Some m, r') \<and>
     nonce_of (hr_ledger_state r') taker_key = 1"
proof -
  obtain tx s' where tx: "apply_one sample_crates sample_ledger (sample_tx 0 10) = Some (Some (taker_key, 1), tx, s')"
    and n: "nonce_of s' taker_key = 1"
    using sample_apply by blast
  show ?thesis
    by (simp add: replica_handle_proposal_def sample_acceptable adopt_qc_def prune_before_view_def
        window_new_def checked_add_def pre_commit_def decide_def commit_block_def apply_block_def
        add_block_transactions_to_pending_def remove_block_transactions_from_pending_def
        add_block_transactions_to_committed_def set_transactions_def update_after_execution.simps
        mempool_new_def tx n Let_def)
qed

end
