(* ===== verification/Consensus_Properties.thy ===== *)
theory Consensus_Properties
  imports Consensus_Samples
begin

text \<open>
  The properties of the consensus: certificates and quorums, blocks, the message window, the
  pacemaker and the replica. Each property is followed by its witness where it has hypotheses.
\<close>

section \<open>Certificates\<close>

text \<open>
  C27. The certificate check accepts a certificate exactly when it is the genesis certificate, of view
  0 and for the genesis block, which needs no signature at all, or when at least the quorum of distinct
  validators have a valid first signature in it: duplicates and strangers never count.
\<close>

theorem certificate_counts_signers:
  "qc_verify X V q qc \<longleftrightarrow>
     genesis_qc qc \<or> q \<le> card (valid_signers X (qc_message_hash qc) V (qc_partial_sigs qc))"
  by (rule qc_verify_signers)

text \<open>
  C11. With \<open>3 f + 1\<close> validators of which at most \<open>f\<close> are faulty, any two accepted certificates
  other than the genesis certificate, which is accepted without signatures, carry a valid signature
  of a common correct validator.
\<close>

theorem certificates_share_correct_signer:
  assumes "finite V" "card V = 3 * f + 1" "quorum_threshold (card V) = Some q"
    and "finite faulty" "card faulty \<le> f"
    and "qc_verify X V q qc1" "\<not> genesis_qc qc1"
    and "qc_verify X V q qc2" "\<not> genesis_qc qc2"
  shows "\<exists>pk s1 s2. pk \<in> V \<and> pk \<notin> faulty \<and>
    s1 \<in> set (qc_partial_sigs qc1) \<and> ps_signer_id s1 = pk \<and>
    x_verify_strict X pk (qc_message_hash qc1) (ps_signature s1) \<and>
    s2 \<in> set (qc_partial_sigs qc2) \<and> ps_signer_id s2 = pk \<and>
    x_verify_strict X pk (qc_message_hash qc2) (ps_signature s2)"
  by (rule qc_common_signer [OF assms])

theorem certificates_share_correct_signer_witness:
  "\<exists>pk s1 s2. pk = pad 32 sample_key \<and>
    s1 \<in> set (qc_partial_sigs (sample_qc block1 1)) \<and> ps_signer_id s1 = pk \<and>
    s2 \<in> set (qc_partial_sigs (sample_qc block2 2)) \<and> ps_signer_id s2 = pk"
proof -
  have v: "qc_verify sample_crates {pad 32 sample_key} 1 (sample_qc b (Suc n))" for b n
    by (simp add: qc_verify_def sample_qc_def sample_crates_def)
  have "quorum_threshold (card {pad 32 sample_key}) = Some 1" by (simp add: quorum_threshold_def)
  then show ?thesis
    using certificates_share_correct_signer [of "{pad 32 sample_key}" 0 1 "{}" sample_crates
        "sample_qc block1 1" "sample_qc block2 2"] v [of block1 0] v [of block2 1]
    by (auto simp: numeral_2_eq_2 sample_qc_def genesis_qc_def)
qed

text \<open>
  C35. The exact reach of the threshold: two quorums of \<open>n\<close> validators always intersect except
  for 2, 3 and 6 validators, and they intersect in more than \<open>(n - 1) / 3\<close> validators, as the
  protocol needs, exactly when \<open>n\<close> has the form \<open>3 f + 1\<close>.
\<close>

theorem quorum_overlap_exact:
  assumes "quorum_threshold n = Some q"
  shows "(n < 2 * q \<longleftrightarrow> n \<noteq> 2 \<and> n \<noteq> 3 \<and> n \<noteq> 6) \<and>
    (n + (n - 1) div 3 < 2 * q \<longleftrightarrow> n mod 3 = 1)"
proof -
  obtain m where n: "n = Suc m" and q: "q = 2 * (m div 3) + 1"
    using assms by (cases n) (auto simp: quorum_threshold_def checked_sub_def)
  define k where "k = m div 3"
  have "m = 3 * k + m mod 3" by (simp add: k_def)
  moreover have "m mod 3 = 0 \<or> m mod 3 = 1 \<or> m mod 3 = 2" by auto
  ultimately consider "m = 3 * k" | "m = 3 * k + 1" | "m = 3 * k + 2" by force
  then have "(Suc m < 4 * k + 2 \<longleftrightarrow> Suc m \<noteq> 2 \<and> Suc m \<noteq> 3 \<and> Suc m \<noteq> 6) \<and>
      (Suc m + k < 4 * k + 2 \<longleftrightarrow> Suc m mod 3 = 1)"
    by cases presburger+
  then show ?thesis by (simp add: n q k_def)
qed

theorem quorum_overlap_exact_witness:
  "quorum_threshold 6 = Some 3 \<and> \<not> (6::nat) < 2 * 3 \<and> quorum_threshold 4 = Some 3 \<and> (4::nat) + 1 < 2 * 3"
proof -
  have t: "quorum_threshold 6 = Some 3" "quorum_threshold 4 = Some 3"
    by (simp_all add: quorum_threshold_def checked_sub_def)
  show ?thesis using t quorum_overlap_exact [OF t(1)] quorum_overlap_exact [OF t(2)] by simp
qed

section \<open>Blocks\<close>

text \<open>
  C15. The in-place computation of the Merkle root never panics, for any number of leaves, and
  gives the root of the tree that pairs neighbours and duplicates an odd last hash.
\<close>

theorem merkle_root_is_tree: "compute_merkle_root X hs = Some (merkle_tree X hs)"
  by (rule compute_merkle_root_tree)

text \<open>
  C28. A block extends a hash exactly when the hash is that of its first, second or third
  ancestor along the parents found in the block store.
\<close>

theorem extends_from_three_ancestors:
  "extends_from b h store \<longleftrightarrow>
   ancestor store 1 b h \<or> ancestor store 2 b h \<or> ancestor store 3 b h"
proof -
  have "(\<exists>k\<le>3. ancestor store k b h) \<longleftrightarrow>
      ancestor store 1 b h \<or> ancestor store 2 b h \<or> ancestor store 3 b h"
    by (auto simp: le_Suc_eq numeral_3_eq_3 numeral_2_eq_2)
  then show ?thesis by (simp add: extends_from_def extends_loop_ancestor)
qed

section \<open>The message window\<close>

text \<open>
  Pushing a message whose view is not below the window files it last among the messages of
  its view and leaves the other views as they are; a message below the window is dropped.
\<close>

lemma window_push_files_message:
  "view_messages (snd (window_push w msg)) v =
     (if v = get_view_number msg \<and> mw_lowest_view w \<le> v then view_messages w v @ [msg]
      else view_messages w v)"
proof (cases "mw_lowest_view w \<le> get_view_number msg")
  case True
  then show ?thesis by (auto simp: window_push_messages)
next
  case False
  then show ?thesis by (auto simp: window_push_def)
qed

text \<open>
  Pruning keeps exactly the messages from the given view on, unless the view is below the
  window, which then stays as it is.
\<close>

lemma prune_keeps_later_views:
  assumes "prune_before_view w v = Some w'"
  shows "view_messages w' u =
    (if u < v \<and> mw_lowest_view w \<le> v then [] else view_messages w u)"
  using prune_before_view_messages [OF assms] by auto

lemma prune_keeps_later_views_witness:
  "\<exists>w'. prune_before_view
      (snd (window_push (window_new 0) (NewView create_genesis_qc 3 0 3))) 3 = Some w' \<and>
    view_messages w' 3 = [NewView create_genesis_qc 3 0 3] \<and> view_messages w' 2 = []"
proof -
  let ?w = "snd (window_push (window_new 0) (NewView create_genesis_qc 3 0 3))"
  obtain w' where w': "prune_before_view ?w 3 = Some w'"
    by (simp add: prune_before_view_def window_push_def window_new_def get_view_number_def checked_add_def)
  have "view_messages ?w 3 = [NewView create_genesis_qc 3 0 3]" "mw_lowest_view ?w = 0"
    by (simp_all add: view_messages_def window_push_def window_new_def get_view_number_def nth_append)
  then show ?thesis using w' prune_keeps_later_views [OF w', of 3] prune_keeps_later_views [OF w', of 2]
    by simp
qed

text \<open>
  The iterator visits every message of the window once, in the order of the views.
\<close>

lemma window_iterates_all: "iter_collect (window_iter w) = concat (mw_messages w)"
  by (simp add: iter_collect_rest it_rest_def window_iter_def split: list.split)

section \<open>The pacemaker\<close>

text \<open>
  C34. With the ids \<open>0, ..., n - 1\<close> the leaders rotate: from any view on, every replica leads one
  of the next \<open>n\<close> views.
\<close>

theorem every_replica_leads:
  assumes "pa_replica_ids p = [0..<n]" "i < n"
  shows "\<exists>v. start \<le> v \<and> v < start + n \<and> get_leader_for_view p v = Some i"
proof -
  let ?k = "(i + n - start mod n) mod n"
  have n: "0 < n" using assms(2) by simp
  have "(start + ?k) mod n = (start mod n + (i + n - start mod n)) mod n"
    by (simp add: mod_simps)
  also have "\<dots> = (i + n) mod n" using n by (simp add: le_add2 trans_le_add2 less_imp_le)
  finally have "(start + ?k) mod n = i" using assms(2) by simp
  moreover have "?k < n" using n by simp
  ultimately show ?thesis
    using leader_round_robin(1) [OF assms(1) n, of "start + ?k"] by (intro exI [of _ "start + ?k"]) auto
qed

theorem every_replica_leads_witness:
  "\<exists>v. 10 \<le> v \<and> v < 14 \<and> get_leader_for_view (pacemaker_new 4 1000 (\<lambda>_. 1) 0) v = Some 1"
  using every_replica_leads [of "pacemaker_new 4 1000 (\<lambda>_. 1) 0" 4 1 10] by (simp add: pacemaker_new_def)

section \<open>The replica\<close>

text \<open>
  C9. A replica votes only for a block it received from the leader of its current view, that
  is safe with respect to its lock, whose certificate is accepted, whose transactions all carry
  a valid signature of their sender and whose Merkle root is that of its transactions; the vote
  is for that block in the current view.
\<close>

theorem votes_only_for_good_blocks:
  assumes "replica_handle_proposal X r node sender = Some (Some m, r')"
  shows "get_leader_for_view (hr_pacemaker r) (curr_view_of r) = Some sender \<and>
    good_block X (r\<lparr>hr_blockstore := (hr_blockstore r)(block_hash X node \<mapsto> node)\<rparr>) node \<and>
    m = vote_message X r node"
  using assms
proof (cases rule: replica_handle_proposal_cases)
  case (voted r1 r2 b_double_prime)
  then show ?thesis by (simp add: vote_message_def)
qed simp_all

theorem votes_only_for_good_blocks_witness:
  "\<exists>m r'. replica_handle_proposal sample_crates (sample_replica 4) block4 0 = Some (Some m, r') \<and>
    good_block sample_crates
      ((sample_replica 4)\<lparr>hr_blockstore := sample_store(block_hash sample_crates block4 \<mapsto> block4)\<rparr>) block4 \<and>
    m = vote_message sample_crates (sample_replica 4) block4"
proof -
  obtain m r' where run: "replica_handle_proposal sample_crates (sample_replica 4) block4 0 = Some (Some m, r')"
    using sample_commit_runs by blast
  show ?thesis using run votes_only_for_good_blocks [OF run] by auto
qed

text \<open>
  C2. Handling a proposal changes the ledger only by applying the block at the end of a
  three-chain of direct parents, each justified by its child's certificate, whose head is the
  proposal; the replica then also votes and is locked on the certificate of the chain's middle.
\<close>

theorem commits_only_three_chains:
  assumes "replica_handle_proposal X r node sender = Some (m, r')"
    and "hr_ledger_state r' \<noteq> hr_ledger_state r"
  shows "\<exists>b2 b1 b0 rs b0'. three_chain X ((hr_blockstore r)(block_hash X node \<mapsto> node)) node b2 b1 b0 \<and>
      apply_block X (hr_ledger_state r) b0 = Some (rs, b0', hr_ledger_state r') \<and>
      m \<noteq> None \<and> hr_locked_qc r' = blk_justify b2"
  using replica_handle_proposal_ledger [OF assms(1)] assms(2) by simp

theorem commits_only_three_chains_witness:
  "\<exists>m r' b2 b1 b0 rs b0'. replica_handle_proposal sample_crates (sample_replica 4) block4 0 = Some (Some m, r') \<and>
     three_chain sample_crates (sample_store(block_hash sample_crates block4 \<mapsto> block4)) block4 b2 b1 b0 \<and>
     apply_block sample_crates sample_ledger b0 = Some (rs, b0', hr_ledger_state r')"
proof -
  obtain m r' where run: "replica_handle_proposal sample_crates (sample_replica 4) block4 0 = Some (Some m, r')"
    and n: "nonce_of (hr_ledger_state r') taker_key = 1"
    using sample_commit_runs by blast
  have "hr_ledger_state r' \<noteq> hr_ledger_state (sample_replica 4)" using n by auto
  from commits_only_three_chains [OF run this] run show ?thesis
    by (simp only: sample_replica_simps) blast
qed

text \<open>
  C20. In every state a replica can reach from its start by messages, transactions, queries and
  timeouts, each block of the store is under its own hash, the mempool's counters and keys are
  consistent, and each stored message is filed under its view.
\<close>

theorem reachable_states_consistent:
  assumes "replica_reachable X r"
  shows "(\<forall>h b. hr_blockstore r h = Some b \<longrightarrow> block_hash X b = h) \<and> mempool_ok (hr_mempool r) \<and>
    (\<forall>v. \<forall>m\<in>set (view_messages (hr_messages r) v). get_view_number m = v)"
  using reachable_inv [OF assms] by (simp add: replica_inv_def)

theorem reachable_states_consistent_witness:
  "\<exists>r. replica_new sample_crates 0 sample_key {pad 32 sample_key} (sample_pacemaker 0) [7] = Some r \<and>
     hr_blockstore r genesis_block_hash = Some genesis \<and> mempool_ok (hr_mempool r)"
proof -
  obtain r where r: "replica_new sample_crates 0 sample_key {pad 32 sample_key} (sample_pacemaker 0) [7] = Some r"
    and g: "hr_blockstore r genesis_block_hash = Some genesis"
    by (simp add: replica_new_def ledger_new_def asset_manager_new_def index_def Let_def case_prod_beta)
      (simp add: genesis_def create_genesis_block_def Let_def sample_crates_def)
  then have "replica_reachable sample_crates r" by (blast intro: replica_reachable.start)
  from reachable_states_consistent [OF this] r g show ?thesis by blast
qed

text \<open>
  C30. No turn of the event loop lowers the view of a replica or the expected nonce of an
  account, and a message of a higher view moves the replica at least to that view.
\<close>

theorem turn_moves_forward:
  assumes "replica_turn X now r e = Some (out, r')"
  shows "curr_view_of r \<le> curr_view_of r' \<and>
    (\<forall>msg. e = HotStuffEvent msg \<longrightarrow> get_view_number msg \<le> curr_view_of r') \<and>
    nonce_of (hr_ledger_state r) pk \<le> nonce_of (hr_ledger_state r') pk"
proof -
  have "get_view_number msg \<le> curr_view_of r'" if "e = HotStuffEvent msg" for msg
    using handle_message_view [of X now r msg out r'] replica_turn_event [OF assms] that by simp
  then show ?thesis using replica_turn_view [OF assms] replica_turn_nonce [OF assms] by blast
qed

theorem turn_moves_forward_witness:
  "\<exists>out r'. replica_turn sample_crates 5000 (sample_replica 4) TimerEvent = Some (out, r') \<and>
     4 \<le> curr_view_of r' \<and> nonce_of sample_ledger taker_key \<le> nonce_of (hr_ledger_state r') taker_key"
proof -
  have "\<exists>out r'. replica_turn sample_crates 5000 (sample_replica 4) TimerEvent = Some (out, r')"
    by (simp add: replica_turn_def time_remaining_def should_advance_view_def get_current_timeout_def
        sample_pacemaker_def pacemaker_new_def duration_limit_def advance_view_def
        pacemaker_advance_view_def send_new_view_to_leader_def create_new_view_def current_leader_def
        checked_add_def index_def Let_def)
  then obtain out r' where run: "replica_turn sample_crates 5000 (sample_replica 4) TimerEvent = Some (out, r')"
    by blast
  show ?thesis using run turn_moves_forward [OF run, of taker_key] by auto
qed

text \<open>
  C24. Every certificate a leader forms from the votes of a view is a certificate of that view
  that the check of the other replicas accepts at the leader's own threshold.
\<close>

theorem formed_certificate_verifies:
  assumes "try_create_qc_for_view X r v = Some (Some qc)" "replica_quorum_threshold r = Some q"
  shows "qc_view_number qc = v \<and> qc_verify X (hr_validator_set r) q qc"
  by (rule try_create_qc_verifies [OF assms])

theorem formed_certificate_verifies_witness:
  "\<exists>qc. try_create_qc_for_view sample_crates
      (push_message (sample_replica 1) (vote_message sample_crates (sample_replica 1) block1)) 1 = Some (Some qc) \<and>
    qc_verify sample_crates {pad 32 sample_key} 1 qc"
proof -
  let ?r = "push_message (sample_replica 1) (vote_message sample_crates (sample_replica 1) block1)"
  obtain qc where qc: "try_create_qc_for_view sample_crates ?r 1 = Some (Some qc)"
    by (simp add: try_create_qc_for_view_def push_message_def window_push_def window_new_def
        vote_message_def create_vote_def get_view_number_def get_messages_for_view_def checked_add_def
        index_def from_signatures_def unsigned_vote_hash_def Let_def del: block_hash.simps)
  have "replica_quorum_threshold ?r = Some 1" by (simp add: push_message_def)
  from formed_certificate_verifies [OF qc this] qc show ?thesis by (auto simp: push_message_def)
qed

text \<open>
  The vote a replica signs carries a signature that verifies against the hash under which
  votes are counted, so an honest vote is never discarded for its signature.
\<close>

lemma own_vote_verifies:
  assumes "signs X (hr_signing_key r)"
  shows "\<exists>sig. vote_message X r b = Vote b sig (curr_view_of r) (hr_node_id r) (curr_view_of r) \<and>
    ps_signer_id sig = x_verifying_key X (hr_signing_key r) \<and>
    x_verify_strict X (ps_signer_id sig) (message_hash X (vote_message X r b)) (ps_signature sig)"
  using assms by (auto simp: vote_message_def create_vote_def signs_def unsigned_vote_hash_def Let_def)

lemma own_vote_verifies_witness:
  "\<exists>sig. vote_message sample_crates (sample_replica 1) block1 = Vote block1 sig 1 0 1 \<and>
    ps_signer_id sig = pad 32 sample_key"
  using own_vote_verifies [OF sample_crates_signs, of "sample_replica 1" block1] by auto

text \<open>
  C38. Whether the replica has already voted in the view plays no part in its reaction to a
  proposal: it votes again for any further acceptable block of the same view.
\<close>

theorem voted_flag_is_ignored:
  "replica_handle_proposal X (r\<lparr>hr_view_progress := vp\<rparr>) node sender =
   map_option (\<lambda>(m, r'). (m, r'\<lparr>hr_view_progress := vp\<rparr>)) (replica_handle_proposal X r node sender)"
  by (rule replica_handle_proposal_progress)

text \<open>
  C40. A message with the largest view number makes every replica panic, whoever sent it.
\<close>

theorem largest_view_panics:
  assumes "get_view_number msg = 2 ^ 64 - 1"
  shows "handle_message X now r msg = None"
  using handle_message_max_view assms by blast

theorem largest_view_panics_witness:
  "handle_message sample_crates 0 (sample_replica 1) (NewView create_genesis_qc (2 ^ 64 - 1) 0 0) = None"
  by (rule largest_view_panics) (simp add: get_view_number_def)

end
