(* ===== verification/Network.thy ===== *)
theory Network
  imports Transactions
begin

text \<open>
  Framing of messages on a byte stream (\<^verbatim>\<open>network.rs\<close>): a four byte big-endian length
  followed by that many bytes.  A reader is the sequence of bytes that will still arrive together
  with the error the transport reports after the last of them; a writer is the sequence of bytes
  sent so far together with the room left before the transport fails.  The end of a stream that the
  peer closed in an orderly way is the error \<open>UnexpectedEof\<close> of \<^verbatim>\<open>read_exact\<close>.
\<close>

unbundle bit_operations_syntax

section \<open>The transport\<close>

datatype error_kind = UnexpectedEof | InvalidData | BrokenPipe | ConnectionReset | OtherKind

record io_error =
  io_kind :: error_kind
  io_message :: string

record reader =
  rd_bytes :: bytes
  rd_end :: error_kind

record writer =
  wr_bytes :: bytes
  wr_room :: "nat option"

definition io_fail :: "error_kind \<Rightarrow> io_error" where
  "io_fail k = \<lparr>io_kind = k, io_message = []\<rparr>"

text \<open>\<^verbatim>\<open>AsyncReadExt::read_exact\<close> and \<^verbatim>\<open>AsyncWriteExt::write_all\<close>.\<close>

definition read_exact :: "nat \<Rightarrow> reader \<Rightarrow> (io_error + bytes) \<times> reader" where
  "read_exact n r =
     (if n \<le> length (rd_bytes r)
      then (Inr (take n (rd_bytes r)), r\<lparr>rd_bytes := drop n (rd_bytes r)\<rparr>)
      else (Inl (io_fail (rd_end r)), r\<lparr>rd_bytes := []\<rparr>))"

definition write_all :: "writer \<Rightarrow> bytes \<Rightarrow> (io_error + unit) \<times> writer" where
  "write_all w bs =
     (case wr_room w of
        None \<Rightarrow> (Inr (), w\<lparr>wr_bytes := wr_bytes w @ bs\<rparr>)
      | Some k \<Rightarrow>
          if length bs \<le> k
          then (Inr (), w\<lparr>wr_bytes := wr_bytes w @ bs, wr_room := Some (k - length bs)\<rparr>)
          else (Inl (io_fail BrokenPipe), w\<lparr>wr_bytes := wr_bytes w @ take k bs, wr_room := Some 0\<rparr>))"

section \<open>Frames\<close>

text \<open>\<^verbatim>\<open>u32::to_be_bytes\<close> and \<^verbatim>\<open>u32::from_be_bytes\<close>.\<close>

definition to_be_bytes :: "32 word \<Rightarrow> bytes" where
  "to_be_bytes n = [ucast (drop_bit 24 n), ucast (drop_bit 16 n), ucast (drop_bit 8 n), ucast n]"

fun from_be_bytes :: "bytes \<Rightarrow> 32 word" where
  "from_be_bytes [a, b, c, d] =
     push_bit 24 (ucast a) OR push_bit 16 (ucast b) OR push_bit 8 (ucast c) OR ucast d"
| "from_be_bytes _ = 0"

definition len_buf_len :: nat where
  "len_buf_len = 4"

definition send_data :: "writer \<Rightarrow> bytes \<Rightarrow> (io_error + unit) \<times> writer" where
  "send_data w data =
     (let data_len = to_be_bytes (of_nat (length data))
      in case write_all w data_len of
           (Inl e, w1) \<Rightarrow> (Inl e, w1)
         | (Inr _, w1) \<Rightarrow> write_all w1 data)"

definition receive_data :: "reader \<Rightarrow> (io_error + bytes option) \<times> reader" where
  "receive_data r =
     (case read_exact len_buf_len r of
        (Inl e, r1) \<Rightarrow> if io_kind e = UnexpectedEof then (Inr None, r1) else (Inl e, r1)
      | (Inr len_buf, r1) \<Rightarrow>
          (case read_exact (unat (from_be_bytes len_buf)) r1 of
             (Inl e, r2) \<Rightarrow> (Inl e, r2)
           | (Inr resp_buf, r2) \<Rightarrow> (Inr (Some resp_buf), r2)))"

definition receive_json :: "(bytes \<Rightarrow> 'a option) \<Rightarrow> reader \<Rightarrow> (io_error + 'a option) \<times> reader" where
  "receive_json from_slice r =
     (case receive_data r of
        (Inl e, r1) \<Rightarrow> (Inl e, r1)
      | (Inr None, r1) \<Rightarrow> (Inr None, r1)
      | (Inr (Some raw_bytes), r1) \<Rightarrow>
          (case from_slice raw_bytes of
             None \<Rightarrow> (Inl (io_fail InvalidData), r1)
           | Some parsed \<Rightarrow> (Inr (Some parsed), r1)))"

section \<open>The length prefix\<close>

lemma be_bytes_roundtrip [simp]: "from_be_bytes (to_be_bytes n) = n"
proof (rule bit_word_eqI)
  fix i assume i: "i < LENGTH(32)"
  consider "i < 8" | "8 \<le> i" "i < 16" | "16 \<le> i" "i < 24" | "24 \<le> i" by linarith
  then show "bit (from_be_bytes (to_be_bytes n)) i = bit n i"
    by cases (use i in \<open>auto simp: to_be_bytes_def bit_simps\<close>)
qed

lemma length_to_be_bytes [simp]: "length (to_be_bytes n) = 4"
  by (simp add: to_be_bytes_def)

text \<open>The bytes one call of \<open>send_data\<close> puts on an undisturbed stream.\<close>

definition frame :: "bytes \<Rightarrow> bytes" where
  "frame data = to_be_bytes (of_nat (length data)) @ data"

lemma send_data_frame:
  "wr_room w = None \<Longrightarrow> send_data w data = (Inr (), w\<lparr>wr_bytes := wr_bytes w @ frame data\<rparr>)"
  by (simp add: send_data_def write_all_def frame_def)

lemma send_data_prefix:
  "\<exists>sent. prefix sent (frame data) \<and> wr_bytes (snd (send_data w data)) = wr_bytes w @ sent"
proof (cases "wr_room w")
  case None
  then show ?thesis by (auto simp: send_data_frame)
next
  case (Some k)
  define hd where "hd = to_be_bytes (of_nat (length data))"
  have "length hd = 4" by (simp add: hd_def)
  with Some have "wr_bytes (snd (send_data w data)) = wr_bytes w @ take k (hd @ data)"
    by (simp add: send_data_def write_all_def hd_def [symmetric])
  then show ?thesis by (metis frame_def hd_def take_is_prefix)
qed

lemma receive_data_frame:
  assumes "length data < 2 ^ 32" "rd_bytes r = frame data @ rest"
  shows "receive_data r = (Inr (Some data), r\<lparr>rd_bytes := rest\<rparr>)"
  using assms
  by (simp add: receive_data_def read_exact_def frame_def len_buf_len_def unat_of_nat take_bit_nat_def)

lemma receive_data_short:
  assumes "length (rd_bytes r) < 4"
  shows "receive_data r =
    ((if rd_end r = UnexpectedEof then Inr None else Inl (io_fail (rd_end r))), r\<lparr>rd_bytes := []\<rparr>)"
  using assms by (simp add: receive_data_def read_exact_def len_buf_len_def io_fail_def)

lemma receive_data_cut:
  assumes "length data < 2 ^ 32" "strict_prefix got (frame data)" "4 \<le> length got" "rd_bytes r = got"
  shows "receive_data r = (Inl (io_fail (rd_end r)), r\<lparr>rd_bytes := []\<rparr>)"
proof -
  obtain zs where zs: "frame data = got @ zs" "zs \<noteq> []"
    using assms(2) by (auto simp: strict_prefix_def prefix_def)
  have len: "length (frame data) = 4 + length data"
    by (simp add: frame_def)
  have "take 4 got = take 4 (frame data)"
    using assms(3) zs by simp
  then have tk: "take 4 got = to_be_bytes (of_nat (length data))"
    by (simp add: frame_def)
  have "length got < 4 + length data"
    using len zs by (metis add_less_cancel_left length_append length_greater_0_conv less_add_same_cancel1)
  with assms tk show ?thesis
    by (auto simp: receive_data_def read_exact_def len_buf_len_def unat_of_nat take_bit_nat_def)
qed

section \<open>Sequences of frames\<close>

text \<open>Receiving until the stream ends: what a reader hands over, one payload per call.\<close>

fun receive_all :: "nat \<Rightarrow> reader \<Rightarrow> bytes list \<times> (io_error + bytes option)" where
  "receive_all 0 r = ([], fst (receive_data r))"
| "receive_all (Suc n) r =
     (case receive_data r of
        (Inr (Some data), r1) \<Rightarrow> (let (ds, e) = receive_all n r1 in (data # ds, e))
      | (e, _) \<Rightarrow> ([], e))"

fun send_all :: "writer \<Rightarrow> bytes list \<Rightarrow> writer" where
  "send_all w [] = w"
| "send_all w (d # ds) = send_all (snd (send_data w d)) ds"

lemma send_all_frames:
  "wr_room w = None \<Longrightarrow> send_all w ds = w\<lparr>wr_bytes := wr_bytes w @ concat (map frame ds)\<rparr>"
  by (induction ds arbitrary: w) (simp_all add: send_data_frame)

lemma receive_all_frames:
  assumes "\<forall>d\<in>set ds. length d < 2 ^ 32" "rd_bytes r = concat (map frame ds)" "rd_end r = UnexpectedEof"
  shows "receive_all (length ds) r = (ds, Inr None)"
  using assms
proof (induction ds arbitrary: r)
  case Nil
  then show ?case by (simp add: receive_data_short)
next
  case (Cons d ds)
  then have "receive_data r = (Inr (Some d), r\<lparr>rd_bytes := concat (map frame ds)\<rparr>)"
    by (intro receive_data_frame) simp_all
  with Cons show ?case by simp
qed

end
