(* ===== verification/Protocol.thy ===== *)
theory Protocol
  imports Network Replica
begin

text \<open>
  The messages nodes and clients exchange (\<^verbatim>\<open>types/message.rs\<close>, \<^verbatim>\<open>message_protocol.rs\<close>) and the calls a
  client or a connecting node makes.  The JSON codec of \<^verbatim>\<open>serde_json\<close> is a parameter; \<open>json_ok\<close> is what
  the program relies on: whatever was serialised is read back unchanged.  A call that waits for an
  answer reads it from the bytes that will arrive on the connection's reader.
\<close>

section \<open>Messages\<close>

datatype app_message =
    Query
  | SubmitTransaction signed_transaction
  | Response "signed_transaction list"
  | Drip public_key_hash asset_id
  | Ack
  | AccountQueryMsg public_key_hash
  | AccountQueryResponseMsg account_info_with_balances
  | MarketInfoQueryMsg market_id
  | MarketInfoQueryResponseMsg "market_info option"
  | MarketsQueryMsg
  | MarketsQueryResponseMsg "market_info list"
  | AssetQueryMsg
  | AssetQueryResponseMsg "asset list"

datatype control_message = Hello peer_id | End

datatype message =
    Connection control_message
  | Application app_message
  | HotStuff hotstuff_message

datatype replica_outbound = OutBroadcast hotstuff_message | OutSendTo peer_id hotstuff_message

datatype replica_inbound =
    InHotStuff hotstuff_message
  | InTransaction signed_transaction
  | InQuery client_query

definition mpsc_error :: "string \<Rightarrow> io_error" where
  "mpsc_error ctxt = \<lparr>io_kind = OtherKind, io_message = ctxt\<rparr>"

text \<open>The part of \<^verbatim>\<open>serde_json\<close> the protocol calls.\<close>

record json =
  j_message_to_vec :: "message \<Rightarrow> bytes option"
  j_message_from_slice :: "bytes \<Rightarrow> message option"
  j_hotstuff_to_vec :: "hotstuff_message \<Rightarrow> bytes option"

definition json_ok :: "json \<Rightarrow> bool" where
  "json_ok J \<longleftrightarrow> (\<forall>m bs. j_message_to_vec J m = Some bs \<longrightarrow> j_message_from_slice J bs = Some m)"

section \<open>Sending and receiving\<close>

record conn =
  cn_reader :: reader
  cn_writer :: writer

definition receive_message :: "json \<Rightarrow> conn \<Rightarrow> (io_error + message option) \<times> conn" where
  "receive_message J c =
     (let (res, r) = receive_json (j_message_from_slice J) (cn_reader c) in (res, c\<lparr>cn_reader := r\<rparr>))"

definition send_message :: "json \<Rightarrow> conn \<Rightarrow> message \<Rightarrow> (io_error + unit) \<times> conn" where
  "send_message J c message =
     (case j_message_to_vec J message of
        None \<Rightarrow> (Inl (io_fail InvalidData), c)
      | Some bs \<Rightarrow> (Inr (), c\<lparr>cn_writer := snd (send_data (cn_writer c) bs)\<rparr>))"

definition send_hotstuff_message :: "json \<Rightarrow> conn \<Rightarrow> hotstuff_message \<Rightarrow> (io_error + unit) \<times> conn" where
  "send_hotstuff_message J c message =
     (case j_hotstuff_to_vec J message of
        None \<Rightarrow> (Inl (io_fail InvalidData), c)
      | Some bs \<Rightarrow> (Inr (), c\<lparr>cn_writer := snd (send_data (cn_writer c) bs)\<rparr>))"

definition send_transaction :: "json \<Rightarrow> conn \<Rightarrow> signed_transaction \<Rightarrow> (io_error + unit) \<times> conn" where
  "send_transaction J c tx = send_message J c (Application (SubmitTransaction tx))"

definition send_drip :: "json \<Rightarrow> conn \<Rightarrow> public_key_hash \<Rightarrow> asset_id \<Rightarrow> (io_error + unit) \<times> conn" where
  "send_drip J c pk_bytes asset_id = send_message J c (Application (Drip pk_bytes asset_id))"

definition send_end :: "json \<Rightarrow> conn \<Rightarrow> (io_error + unit) \<times> conn" where
  "send_end J c = send_message J c (Connection End)"

definition send_ack :: "json \<Rightarrow> conn \<Rightarrow> (io_error + unit) \<times> conn" where
  "send_ack J c = send_message J c (Application Ack)"

section \<open>Requests that wait for an answer\<close>

text \<open>Sending a message and reading the next one, the part all requests share.\<close>

definition exchange :: "json \<Rightarrow> conn \<Rightarrow> message \<Rightarrow> (io_error + message option) \<times> conn" where
  "exchange J c msg =
     (case send_message J c msg of
        (Inl e, c1) \<Rightarrow> (Inl e, c1)
      | (Inr _, c1) \<Rightarrow> receive_message J c1)"

definition send_hello :: "json \<Rightarrow> conn \<Rightarrow> peer_id \<Rightarrow> (io_error + unit) \<times> conn" where
  "send_hello J c peer_id =
     (case exchange J c (Connection (Hello peer_id)) of
        (Inl e, c1) \<Rightarrow> (Inl e, c1)
      | (Inr None, c1) \<Rightarrow> (Inr (), c1)
      | (Inr (Some (Application Ack)), c1) \<Rightarrow> (Inr (), c1)
      | (Inr (Some _), c1) \<Rightarrow> (Inl (io_fail InvalidData), c1))"

definition send_account_query ::
  "json \<Rightarrow> conn \<Rightarrow> public_key_hash \<Rightarrow> (io_error + account_info_with_balances) \<times> conn" where
  "send_account_query J c pk =
     (case exchange J c (Application (AccountQueryMsg pk)) of
        (Inl e, c1) \<Rightarrow> (Inl e, c1)
      | (Inr (Some (Application (AccountQueryResponseMsg account_info))), c1) \<Rightarrow> (Inr account_info, c1)
      | (Inr _, c1) \<Rightarrow> (Inl (io_fail InvalidData), c1))"

definition send_assets_query :: "json \<Rightarrow> conn \<Rightarrow> (io_error + asset list) \<times> conn" where
  "send_assets_query J c =
     (case exchange J c (Application AssetQueryMsg) of
        (Inl e, c1) \<Rightarrow> (Inl e, c1)
      | (Inr (Some (Application (AssetQueryResponseMsg assets))), c1) \<Rightarrow> (Inr assets, c1)
      | (Inr _, c1) \<Rightarrow> (Inl (io_fail InvalidData), c1))"

definition send_markets_query :: "json \<Rightarrow> conn \<Rightarrow> (io_error + market_info list) \<times> conn" where
  "send_markets_query J c =
     (case exchange J c (Application MarketsQueryMsg) of
        (Inl e, c1) \<Rightarrow> (Inl e, c1)
      | (Inr (Some (Application (MarketsQueryResponseMsg markets_info))), c1) \<Rightarrow> (Inr markets_info, c1)
      | (Inr _, c1) \<Rightarrow> (Inl (io_fail InvalidData), c1))"

definition send_market_info_query ::
  "json \<Rightarrow> conn \<Rightarrow> market_id \<Rightarrow> (io_error + market_info option) \<times> conn" where
  "send_market_info_query J c market_id =
     (case exchange J c (Application (MarketInfoQueryMsg market_id)) of
        (Inl e, c1) \<Rightarrow> (Inl e, c1)
      | (Inr (Some (Application (MarketInfoQueryResponseMsg market_info))), c1) \<Rightarrow> (Inr market_info, c1)
      | (Inr _, c1) \<Rightarrow> (Inl (io_fail InvalidData), c1))"

definition send_query :: "json \<Rightarrow> conn \<Rightarrow> (io_error + signed_transaction list option) \<times> conn" where
  "send_query J c =
     (case exchange J c (Application Query) of
        (Inl e, c1) \<Rightarrow> (Inl e, c1)
      | (Inr (Some (Application (Response txs))), c1) \<Rightarrow> (Inr (Some txs), c1)
      | (Inr _, c1) \<Rightarrow> (Inl (io_fail InvalidData), c1))"

section \<open>The replica's channels\<close>

text \<open>
  The sender a replica holds (\<^verbatim>\<open>replica_sender.rs\<close>): one channel back to its own inbox and one to the
  node.  A channel whose receiver is gone refuses the message.
\<close>

record channels =
  cl_to_replica :: "replica_inbound list"
  cl_to_node :: "replica_outbound list"
  cl_replica_open :: bool
  cl_node_open :: bool

definition send_to_self :: "channels \<Rightarrow> hotstuff_message \<Rightarrow> (io_error + unit) \<times> channels" where
  "send_to_self cl msg =
     (if cl_replica_open cl then (Inr (), cl\<lparr>cl_to_replica := cl_to_replica cl @ [InHotStuff msg]\<rparr>)
      else (Inl (mpsc_error ''Send to replica failed''), cl))"

definition broadcast :: "channels \<Rightarrow> hotstuff_message \<Rightarrow> (io_error + unit) \<times> channels" where
  "broadcast cl msg =
     (if cl_node_open cl then (Inr (), cl\<lparr>cl_to_node := cl_to_node cl @ [OutBroadcast msg]\<rparr>)
      else (Inl (mpsc_error ''failed to send to node''), cl))"

definition send_to_node :: "channels \<Rightarrow> peer_id \<Rightarrow> hotstuff_message \<Rightarrow> (io_error + unit) \<times> channels" where
  "send_to_node cl node_id msg =
     (if cl_node_open cl then (Inr (), cl\<lparr>cl_to_node := cl_to_node cl @ [OutSendTo node_id msg]\<rparr>)
      else (Inl (mpsc_error ''failed to send to node''), cl))"

text \<open>Handing over what a handler of the replica sends, in order; the first failure ends the replica.\<close>

fun deliver :: "channels \<Rightarrow> outbound \<Rightarrow> (io_error + unit) \<times> channels" where
  "deliver cl (Broadcast msg) = broadcast cl msg"
| "deliver cl (SendTo node_id msg) = send_to_node cl node_id msg"
| "deliver cl (SendToSelf msg) = send_to_self cl msg"

fun deliver_all :: "channels \<Rightarrow> outbound list \<Rightarrow> (io_error + unit) \<times> channels" where
  "deliver_all cl [] = (Inr (), cl)"
| "deliver_all cl (m # ms) =
     (case deliver cl m of (Inl e, cl1) \<Rightarrow> (Inl e, cl1) | (Inr _, cl1) \<Rightarrow> deliver_all cl1 ms)"

fun event_of :: "replica_inbound \<Rightarrow> replica_event" where
  "event_of (InHotStuff msg) = HotStuffEvent msg"
| "event_of (InTransaction tx) = TransactionEvent tx"
| "event_of (InQuery query) = QueryEvent query"

text \<open>
  One round of \<^verbatim>\<open>run_replica\<close>: the oldest message of the inbox when there is one, the timer otherwise.
  \<open>None\<close> is a panic; an error value ends the loop.
\<close>

definition run_replica_round ::
  "crates \<Rightarrow> nat \<Rightarrow> replica \<Rightarrow> channels \<Rightarrow> ((io_error + unit) \<times> replica \<times> channels) option" where
  "run_replica_round X now r cl = do {
     let (e, cl1) = (case cl_to_replica cl of
         [] \<Rightarrow> (TimerEvent, cl)
       | m # ms \<Rightarrow> (event_of m, cl\<lparr>cl_to_replica := ms\<rparr>));
     (out, r') \<leftarrow> replica_turn X now r e;
     let (res, cl2) = deliver_all cl1 out;
     Some (res, r', cl2)
   }"

section \<open>What a request sees\<close>

lemma exchange_answer:
  assumes "json_ok J" "j_message_to_vec J msg = Some bs" "wr_room (cn_writer c) = None"
    and "j_message_to_vec J ans = Some abytes" "length abytes < 2 ^ 32"
    and "rd_bytes (cn_reader c) = frame abytes @ rest"
  shows "exchange J c msg =
    (Inr (Some ans),
     c\<lparr>cn_reader := (cn_reader c)\<lparr>rd_bytes := rest\<rparr>,
       cn_writer := (cn_writer c)\<lparr>wr_bytes := wr_bytes (cn_writer c) @ frame bs\<rparr>\<rparr>)"
  using assms
  by (simp add: exchange_def send_message_def send_data_frame receive_message_def receive_json_def
      receive_data_frame json_ok_def)

lemma send_message_ok:
  "j_message_to_vec J msg = Some bs \<Longrightarrow> fst (send_message J c msg) = Inr ()"
  by (simp add: send_message_def)

lemma send_message_undisturbed:
  assumes "j_message_to_vec J msg = Some bs" "wr_room (cn_writer c) = None"
  shows "send_message J c msg =
    (Inr (), c\<lparr>cn_writer := (cn_writer c)\<lparr>wr_bytes := wr_bytes (cn_writer c) @ frame bs\<rparr>\<rparr>)"
  using assms by (simp add: send_message_def send_data_frame)

lemma receive_message_frame:
  assumes "json_ok J" "j_message_to_vec J msg = Some bs" "length bs < 2 ^ 32"
    and "rd_bytes (cn_reader c) = frame bs @ rest"
  shows "receive_message J c = (Inr (Some msg), c\<lparr>cn_reader := (cn_reader c)\<lparr>rd_bytes := rest\<rparr>\<rparr>)"
  using assms by (simp add: receive_message_def receive_json_def receive_data_frame json_ok_def)

lemma receive_message_closed:
  assumes "length (rd_bytes (cn_reader c)) < 4" "rd_end (cn_reader c) = UnexpectedEof"
  shows "receive_message J c = (Inr None, c\<lparr>cn_reader := (cn_reader c)\<lparr>rd_bytes := []\<rparr>\<rparr>)"
  using assms by (simp add: receive_message_def receive_json_def receive_data_short)

end
