(* ===== verification/Node_State.thy ===== *)
theory Node_State
  imports Protocol "HOL-Library.AList"
begin

text \<open>
  The state of a node (\<^verbatim>\<open>node/state.rs\<close>) and what it sends to its peers (\<^verbatim>\<open>node/peer/broadcast.rs\<close>,
  \<^verbatim>\<open>node/replica.rs\<close>).  A \<open>host\<close> is the node together with the store of its open connections, by
  socket, and the channels to its replica; several tables hold the same socket, as the \<^verbatim>\<open>Arc\<close>s of
  the code do.  The table of peers is an association list: its order stands for the unspecified
  iteration order of the hash map.
\<close>

section \<open>State\<close>

type_synonym socket = nat

record node =
  nd_id :: peer_id
  nd_faucet_key :: bytes
  nd_transactions :: "signed_transaction list"
  nd_seen_transactions :: "sha256_hash set"
  nd_socket_peer_map :: "string \<rightharpoonup> peer_id"
  nd_peer_connections :: "(peer_id \<times> socket) list"

record host =
  ho_node :: node
  ho_conns :: "socket \<Rightarrow> conn"
  ho_channels :: channels

record peer_info =
  pi_peer_id :: peer_id
  pi_peer_addr :: string

text \<open>The node \<^verbatim>\<open>run_node\<close> starts with; the faucet key comes from the configuration.\<close>

definition node_new :: "peer_id \<Rightarrow> bytes \<Rightarrow> node" where
  "node_new node_index sk =
     \<lparr>nd_id = node_index, nd_faucet_key = sk, nd_transactions = [], nd_seen_transactions = {},
      nd_socket_peer_map = Map.empty, nd_peer_connections = []\<rparr>"

definition get_peer_connections_as_vec :: "node \<Rightarrow> socket list" where
  "get_peer_connections_as_vec nd = map snd (nd_peer_connections nd)"

definition set_conn :: "host \<Rightarrow> socket \<Rightarrow> conn \<Rightarrow> host" where
  "set_conn h s c = h\<lparr>ho_conns := (ho_conns h)(s := c)\<rparr>"

definition set_node :: "host \<Rightarrow> node \<Rightarrow> host" where
  "set_node h nd = h\<lparr>ho_node := nd\<rparr>"

definition host_send :: "json \<Rightarrow> host \<Rightarrow> socket \<Rightarrow> message \<Rightarrow> (io_error + unit) \<times> host" where
  "host_send J h s msg = (let (res, c) = send_message J (ho_conns h s) msg in (res, set_conn h s c))"

definition host_receive :: "json \<Rightarrow> host \<Rightarrow> socket \<Rightarrow> (io_error + message option) \<times> host" where
  "host_receive J h s = (let (res, c) = receive_message J (ho_conns h s) in (res, set_conn h s c))"

section \<open>Sending to peers\<close>

text \<open>One task per peer, whose result nobody waits for, or whose result is only logged.\<close>

fun send_each :: "json \<Rightarrow> host \<Rightarrow> message \<Rightarrow> socket list \<Rightarrow> host" where
  "send_each J h msg [] = h"
| "send_each J h msg (s # ss) = send_each J (snd (host_send J h s msg)) msg ss"

definition broadcast_hotstuff_message :: "json \<Rightarrow> host \<Rightarrow> hotstuff_message \<Rightarrow> (io_error + unit) \<times> host" where
  "broadcast_hotstuff_message J h msg =
     (Inr (), send_each J h (HotStuff msg) (get_peer_connections_as_vec (ho_node h)))"

definition send_to_peer :: "json \<Rightarrow> host \<Rightarrow> hotstuff_message \<Rightarrow> peer_id \<Rightarrow> (io_error + unit) \<times> host" where
  "send_to_peer J h msg peer_id =
     (case map_of (nd_peer_connections (ho_node h)) peer_id of
        None \<Rightarrow> (Inr (), h)
      | Some peer_connection \<Rightarrow> host_send J h peer_connection (HotStuff msg))"

definition broadcast_transaction :: "json \<Rightarrow> host \<Rightarrow> signed_transaction \<Rightarrow> (io_error + unit) \<times> host" where
  "broadcast_transaction J h tx =
     (Inr (), send_each J h (Application (SubmitTransaction tx))
        (get_peer_connections_as_vec (ho_node h)))"

fun handle_replica_outbound :: "json \<Rightarrow> host \<Rightarrow> replica_outbound list \<Rightarrow> (io_error + unit) \<times> host" where
  "handle_replica_outbound J h [] = (Inr (), h)"
| "handle_replica_outbound J h (OutBroadcast msg # ms) =
     (case broadcast_hotstuff_message J h msg of
        (Inl e, h1) \<Rightarrow> (Inl e, h1)
      | (Inr _, h1) \<Rightarrow> handle_replica_outbound J h1 ms)"
| "handle_replica_outbound J h (OutSendTo peer_id msg # ms) =
     (case send_to_peer J h msg peer_id of
        (Inl e, h1) \<Rightarrow> (Inl e, h1)
      | (Inr _, h1) \<Rightarrow> handle_replica_outbound J h1 ms)"

section \<open>What sending leaves alone\<close>

lemma host_send_frame [simp]:
  "ho_node (snd (host_send J h s msg)) = ho_node h"
  "ho_channels (snd (host_send J h s msg)) = ho_channels h"
  "cn_reader (ho_conns (snd (host_send J h s msg)) t) = cn_reader (ho_conns h t)"
  by (simp_all add: host_send_def send_message_def set_conn_def split: option.splits)

lemma send_each_frame [simp]:
  "ho_node (send_each J h msg ss) = ho_node h"
  "ho_channels (send_each J h msg ss) = ho_channels h"
  "cn_reader (ho_conns (send_each J h msg ss) t) = cn_reader (ho_conns h t)"
  by (induction ss arbitrary: h) simp_all

lemma send_each_undisturbed:
  assumes "j_message_to_vec J msg = Some bs" "\<forall>s\<in>set ss. wr_room (cn_writer (ho_conns h s)) = None"
    and "distinct ss"
  shows "cn_writer (ho_conns (send_each J h msg ss) t) =
    (if t \<in> set ss
     then (cn_writer (ho_conns h t))\<lparr>wr_bytes := wr_bytes (cn_writer (ho_conns h t)) @ frame bs\<rparr>
     else cn_writer (ho_conns h t))"
  using assms
  by (induction ss arbitrary: h)
    (auto simp: host_send_def set_conn_def send_message_undisturbed split: prod.splits)

end
