(* ===== verification/Client_Handler.thy ===== *)
theory Client_Handler
  imports Node_State
begin

text \<open>
  The handlers of client connections (\<^verbatim>\<open>node/client/handler.rs\<close>).  A query travels to the replica and
  back through its channels; the argument \<open>answering\<close> is the state of the replica when it takes the
  query from its inbox, or \<open>None\<close> when the replica ends before it answers.  Handlers return an I/O
  result and the new host; \<open>None\<close> is a panic of the connection's task, which leaves the host as it is.
\<close>

section \<open>Queries to the replica\<close>

definition send_query_to_replica ::
  "replica option \<Rightarrow> client_query \<Rightarrow> channels \<Rightarrow> io_error + client_response" where
  "send_query_to_replica answering query cl =
     (if \<not> cl_replica_open cl then Inl (mpsc_error ''Failed to send query request to replica'')
      else case answering of
             None \<Rightarrow> Inl (mpsc_error ''Failed to recieve response from replica'')
           | Some r \<Rightarrow> Inr (replica_handle_query r query))"

definition handle_account_query ::
  "json \<Rightarrow> replica option \<Rightarrow> host \<Rightarrow> socket \<Rightarrow> public_key_hash \<Rightarrow> (io_error + unit) \<times> host" where
  "handle_account_query J answering h s pk_bytes =
     (case send_query_to_replica answering (AccountQuery pk_bytes) (ho_channels h) of
        Inl e \<Rightarrow> (Inl e, h)
      | Inr (AccountQueryReponse info) \<Rightarrow> host_send J h s (Application (AccountQueryResponseMsg info))
      | Inr _ \<Rightarrow> (Inl (io_fail InvalidData), h))"

definition handle_asset_query ::
  "json \<Rightarrow> replica option \<Rightarrow> host \<Rightarrow> socket \<Rightarrow> (io_error + unit) \<times> host" where
  "handle_asset_query J answering h s =
     (case send_query_to_replica answering AssetQuery (ho_channels h) of
        Inl e \<Rightarrow> (Inl e, h)
      | Inr (AssetQueryResponse info) \<Rightarrow> host_send J h s (Application (AssetQueryResponseMsg info))
      | Inr _ \<Rightarrow> (Inl (io_fail InvalidData), h))"

definition handle_market_query ::
  "json \<Rightarrow> replica option \<Rightarrow> host \<Rightarrow> socket \<Rightarrow> market_id \<Rightarrow> (io_error + unit) \<times> host" where
  "handle_market_query J answering h s market_id =
     (case send_query_to_replica answering (MarketInfoQuery market_id) (ho_channels h) of
        Inl e \<Rightarrow> (Inl e, h)
      | Inr (MarketInfoQueryResponse info) \<Rightarrow>
          host_send J h s (Application (MarketInfoQueryResponseMsg info))
      | Inr _ \<Rightarrow> (Inl (io_fail InvalidData), h))"

definition handle_markets_query ::
  "json \<Rightarrow> replica option \<Rightarrow> host \<Rightarrow> socket \<Rightarrow> (io_error + unit) \<times> host" where
  "handle_markets_query J answering h s =
     (case send_query_to_replica answering MarketsQuery (ho_channels h) of
        Inl e \<Rightarrow> (Inl e, h)
      | Inr (MarketsQueryResponse info) \<Rightarrow> host_send J h s (Application (MarketsQueryResponseMsg info))
      | Inr _ \<Rightarrow> (Inl (io_fail InvalidData), h))"

definition node_handle_query :: "json \<Rightarrow> host \<Rightarrow> socket \<Rightarrow> (io_error + unit) \<times> host" where
  "node_handle_query J h s = host_send J h s (Application (Response (nd_transactions (ho_node h))))"

section \<open>Transactions\<close>

text \<open>The critical section of \<open>handle_transaction\<close>: whether the hash is new, and the node that remembers it.\<close>

definition note_transaction :: "crates \<Rightarrow> node \<Rightarrow> signed_transaction \<Rightarrow> bool \<times> node" where
  "note_transaction X nd signed_tx =
     (let key = tx_hash X (st_tx signed_tx)
      in if key \<in> nd_seen_transactions nd then (False, nd)
         else (True, nd\<lparr>nd_seen_transactions := insert key (nd_seen_transactions nd),
                        nd_transactions := nd_transactions nd @ [signed_tx]\<rparr>))"

definition send_to_replica :: "host \<Rightarrow> replica_inbound \<Rightarrow> (io_error + unit) \<times> host" where
  "send_to_replica h m =
     (let cl = ho_channels h
      in if cl_replica_open cl
         then (Inr (), h\<lparr>ho_channels := cl\<lparr>cl_to_replica := cl_to_replica cl @ [m]\<rparr>\<rparr>)
         else (Inl (mpsc_error ''Send to replica failed''), h))"

definition handle_transaction ::
  "crates \<Rightarrow> json \<Rightarrow> host \<Rightarrow> signed_transaction \<Rightarrow> ((io_error + unit) \<times> host) option" where
  "handle_transaction X J h signed_tx = do {
     _ \<leftarrow> verify_sender X signed_tx;
     let (fresh, nd) = note_transaction X (ho_node h) signed_tx;
     if \<not> fresh then Some (Inr (), h)
     else (case broadcast_transaction J (set_node h nd) signed_tx of
             (Inl e, h1) \<Rightarrow> Some (Inl e, h1)
           | (Inr _, h1) \<Rightarrow> Some (send_to_replica h1 (InTransaction signed_tx)))
   }"

definition drip_amount :: "asset_id \<Rightarrow> nat" where
  "drip_amount asset_id = (if asset_id = 0 then 1000000000 else if asset_id = 1 then 500000000 else 0)"

definition drip_txn :: "public_key_hash \<Rightarrow> public_key_hash \<Rightarrow> asset_id \<Rightarrow> account_info \<Rightarrow> unsigned_transaction" where
  "drip_txn faucet_pk_bytes pk_bytes asset_id account_info =
     Transfer \<lparr>tt_from = faucet_pk_bytes, tt_to = pk_bytes, tt_amount = drip_amount asset_id,
               tt_asset_id = asset_id, tt_status = Pending, tt_nonce = ai_expected_nonce account_info\<rparr>"

definition handle_drip ::
  "crates \<Rightarrow> json \<Rightarrow> replica option \<Rightarrow> host \<Rightarrow> public_key_hash \<Rightarrow> asset_id \<Rightarrow>
   ((io_error + unit) \<times> host) option" where
  "handle_drip X J answering h pk_bytes asset_id =
     (let faucet_key = nd_faucet_key (ho_node h);
          faucet_pk_bytes = x_verifying_key X faucet_key
      in case send_query_to_replica answering (AccountQuery faucet_pk_bytes) (ho_channels h) of
           Inl e \<Rightarrow> Some (Inl e, h)
         | Inr (AccountQueryReponse info) \<Rightarrow>
             handle_transaction X J h
               (tx_sign X faucet_key (drip_txn faucet_pk_bytes pk_bytes asset_id (ab_account_info info)))
         | Inr _ \<Rightarrow> Some (Inl (io_fail InvalidData), h))"

section \<open>The connection loop\<close>

datatype step = Continue host | Return "io_error + unit" host | Panicked host

text \<open>The \<^verbatim>\<open>?\<close> after a handler call inside the loop.\<close>

fun go_on :: "(io_error + unit) \<times> host \<Rightarrow> step" where
  "go_on (Inl e, h) = Return (Inl e) h"
| "go_on (Inr _, h) = Continue h"

definition go_on_opt :: "host \<Rightarrow> ((io_error + unit) \<times> host) option \<Rightarrow> step" where
  "go_on_opt h res = (case res of None \<Rightarrow> Panicked h | Some p \<Rightarrow> go_on p)"

text \<open>The body of the loop after a message has been received.\<close>

fun client_dispatch ::
  "crates \<Rightarrow> json \<Rightarrow> replica option \<Rightarrow> host \<Rightarrow> socket \<Rightarrow> message option \<Rightarrow> step" where
  "client_dispatch X J answering h s (Some (Application (SubmitTransaction tx))) =
     go_on_opt h (handle_transaction X J h tx)"
| "client_dispatch X J answering h s (Some (Application Query)) = go_on (node_handle_query J h s)"
| "client_dispatch X J answering h s (Some (Application (Drip pk asset_id))) =
     go_on_opt h (handle_drip X J answering h pk asset_id)"
| "client_dispatch X J answering h s (Some (Application (AccountQueryMsg pk))) =
     go_on (handle_account_query J answering h s pk)"
| "client_dispatch X J answering h s (Some (Application AssetQueryMsg)) =
     go_on (handle_asset_query J answering h s)"
| "client_dispatch X J answering h s (Some (Application MarketsQueryMsg)) =
     go_on (handle_markets_query J answering h s)"
| "client_dispatch X J answering h s (Some (Application (MarketInfoQueryMsg market_id))) =
     go_on (handle_market_query J answering h s market_id)"
| "client_dispatch X J answering h s (Some (Connection End)) = Return (Inr ()) h"
| "client_dispatch X J answering h s _ = Continue h"

definition client_step ::
  "crates \<Rightarrow> json \<Rightarrow> replica option \<Rightarrow> host \<Rightarrow> socket \<Rightarrow> step" where
  "client_step X J answering h s =
     (case host_receive J h s of
        (Inl e, h1) \<Rightarrow> Return (Inl e) h1
      | (Inr message, h1) \<Rightarrow> client_dispatch X J answering h1 s message)"

text \<open>The loop; \<open>None\<close> when it never ends. The replica answers round \<open>i\<close> in state \<open>answering i\<close>.\<close>

partial_function (option) handle_client_connection ::
  "crates \<Rightarrow> json \<Rightarrow> (nat \<Rightarrow> replica option) \<Rightarrow> nat \<Rightarrow> host \<Rightarrow> socket \<Rightarrow> step option" where
  "handle_client_connection X J answering i h s =
     (case client_step X J (answering i) h s of
        Continue h1 \<Rightarrow> handle_client_connection X J answering (Suc i) h1 s
      | fin \<Rightarrow> Some fin)"

section \<open>Answers have the type of the question\<close>

text \<open>
  A handler never takes its \<open>InvalidData\<close> branch: it fails only when the replica is gone or when the
  answer cannot be serialised.
\<close>

lemma handle_account_query_running:
  "cl_replica_open (ho_channels h) \<Longrightarrow>
   handle_account_query J (Some r) h s pk = host_send J h s (Application (AccountQueryResponseMsg
     (get_account_info_with_balances_or_default (hr_ledger_state r) pk)))"
  by (simp add: handle_account_query_def send_query_to_replica_def replica_handle_query_def)

lemma handle_asset_query_running:
  "cl_replica_open (ho_channels h) \<Longrightarrow>
   handle_asset_query J (Some r) h s =
     host_send J h s (Application (AssetQueryResponseMsg (get_asset_info (hr_ledger_state r))))"
  by (simp add: handle_asset_query_def send_query_to_replica_def replica_handle_query_def)

lemma handle_market_query_running:
  "cl_replica_open (ho_channels h) \<Longrightarrow>
   handle_market_query J (Some r) h s m =
     host_send J h s (Application (MarketInfoQueryResponseMsg (ledger_market_info (hr_ledger_state r) m)))"
  by (simp add: handle_market_query_def send_query_to_replica_def replica_handle_query_def)

lemma handle_markets_query_running:
  "cl_replica_open (ho_channels h) \<Longrightarrow>
   handle_markets_query J (Some r) h s =
     host_send J h s (Application (MarketsQueryResponseMsg (ledger_markets (hr_ledger_state r))))"
  by (simp add: handle_markets_query_def send_query_to_replica_def replica_handle_query_def)

lemmas query_running = handle_account_query_running handle_asset_query_running
  handle_market_query_running handle_markets_query_running

section \<open>What a transaction changes\<close>

definition content_key :: "crates \<Rightarrow> signed_transaction \<Rightarrow> sha256_hash" where
  "content_key X stx = tx_hash X (st_tx stx)"

text \<open>The transactions put into the replica's inbox.\<close>

fun inbox_transactions :: "replica_inbound list \<Rightarrow> signed_transaction list" where
  "inbox_transactions [] = []"
| "inbox_transactions (InTransaction tx # ms) = tx # inbox_transactions ms"
| "inbox_transactions (InHotStuff _ # ms) = inbox_transactions ms"
| "inbox_transactions (InQuery _ # ms) = inbox_transactions ms"

lemma inbox_transactions_append [simp]:
  "inbox_transactions (xs @ ys) = inbox_transactions xs @ inbox_transactions ys"
  by (induction xs rule: inbox_transactions.induct) simp_all

text \<open>The list of transactions and the set of hashes describe each other.\<close>

definition node_ok :: "crates \<Rightarrow> node \<Rightarrow> bool" where
  "node_ok X nd \<longleftrightarrow>
     nd_seen_transactions nd = content_key X ` set (nd_transactions nd) \<and>
     distinct (map (content_key X) (nd_transactions nd)) \<and>
     distinct (map fst (nd_peer_connections nd))"

lemma node_new_ok [simp]: "node_ok X (node_new i sk)"
  by (simp add: node_ok_def node_new_def)

lemma note_transaction_ok:
  "\<lbrakk>note_transaction X nd tx = (fresh, nd'); node_ok X nd\<rbrakk> \<Longrightarrow> node_ok X nd'"
  by (auto simp: note_transaction_def node_ok_def content_key_def Let_def split: if_splits)

text \<open>
  What handling one transaction may do to a host: nothing, or remember it and hand exactly it to the
  replica.  Readers are never touched.
\<close>

definition tx_effect :: "crates \<Rightarrow> signed_transaction option \<Rightarrow> host \<Rightarrow> host \<Rightarrow> bool" where
  "tx_effect X txo h h' \<longleftrightarrow>
     (\<forall>t. cn_reader (ho_conns h' t) = cn_reader (ho_conns h t)) \<and>
     nd_peer_connections (ho_node h') = nd_peer_connections (ho_node h) \<and>
     cl_replica_open (ho_channels h') = cl_replica_open (ho_channels h) \<and>
     (case txo of
        None \<Rightarrow> ho_node h' = ho_node h \<and> ho_channels h' = ho_channels h
      | Some tx \<Rightarrow> content_key X tx \<notin> nd_seen_transactions (ho_node h) \<and>
          ho_node h' = snd (note_transaction X (ho_node h) tx) \<and>
          (cl_to_replica (ho_channels h') = cl_to_replica (ho_channels h) \<or>
           cl_to_replica (ho_channels h') = cl_to_replica (ho_channels h) @ [InTransaction tx]))"

lemma tx_effect_refl [simp]: "tx_effect X None h h"
  by (simp add: tx_effect_def)

lemma send_each_effect [simp]: "tx_effect X None h (send_each J h msg ss)"
  by (simp add: tx_effect_def)

lemma host_send_effect [simp]: "tx_effect X None h (snd (host_send J h s msg))"
  by (simp add: tx_effect_def)

lemma handle_transaction_effect:
  assumes "handle_transaction X J h tx = Some (res, h')"
  shows "\<exists>txo. tx_effect X txo h h' \<and> (txo = None \<or> txo = Some tx)"
proof (cases "content_key X tx \<in> nd_seen_transactions (ho_node h)")
  case True
  with assms have "h' = h"
    by (auto simp: handle_transaction_def note_transaction_def content_key_def Let_def bind_eq_Some_conv)
  then show ?thesis by (intro exI [of _ None]) simp
next
  case False
  with assms have "tx_effect X (Some tx) h h'"
    by (auto simp: handle_transaction_def note_transaction_def content_key_def Let_def bind_eq_Some_conv
        broadcast_transaction_def send_to_replica_def set_node_def tx_effect_def split: if_splits)
  then show ?thesis by blast
qed

lemma handle_drip_effect:
  assumes "handle_drip X J answering h pk a = Some (res, h')"
  shows "\<exists>txo. tx_effect X txo h h'"
  using assms
  by (auto simp: handle_drip_def Let_def split: sum.splits client_response.splits
      dest: handle_transaction_effect intro: exI [of _ None])

lemma query_effect [simp]:
  "tx_effect X None h (snd (handle_account_query J answering h s pk))"
  "tx_effect X None h (snd (handle_asset_query J answering h s))"
  "tx_effect X None h (snd (handle_market_query J answering h s m))"
  "tx_effect X None h (snd (handle_markets_query J answering h s))"
  "tx_effect X None h (snd (node_handle_query J h s))"
  by (simp_all add: handle_account_query_def handle_asset_query_def handle_market_query_def
      handle_markets_query_def node_handle_query_def split: sum.splits client_response.splits)

fun step_host :: "step \<Rightarrow> host" where
  "step_host (Continue h) = h"
| "step_host (Return _ h) = h"
| "step_host (Panicked h) = h"

lemma step_host_go_on [simp]: "step_host (go_on p) = snd p"
  by (cases p rule: go_on.cases) simp_all

lemma go_on_Return: "Return r h = go_on p \<Longrightarrow> \<exists>e. r = Inl e"
  by (cases p rule: go_on.cases) simp_all

lemma step_host_go_on_opt:
  "step_host (go_on_opt h res) = (case res of None \<Rightarrow> h | Some p \<Rightarrow> snd p)"
  by (simp add: go_on_opt_def split: option.splits)

lemma client_dispatch_effect: "\<exists>txo. tx_effect X txo h (step_host (client_dispatch X J answering h s msg))"
  by (cases "(X, J, answering, h, s, msg)" rule: client_dispatch.cases)
    (auto simp: step_host_go_on_opt split: option.splits
      dest: handle_transaction_effect handle_drip_effect intro: exI [of _ None])

end
