(* ===== verification/Peer_Handler.thy ===== *)
theory Peer_Handler
  imports Client_Handler
begin

text \<open>
  Connections between nodes: the handshake and the loop of a peer connection (\<^verbatim>\<open>node/peer/handler.rs\<close>),
  the listener (\<^verbatim>\<open>node/peer/listener.rs\<close>), deduplication and the connecting side with its back-off
  (\<^verbatim>\<open>node/runner.rs\<close>).  The loop of a peer connection ends for every finite stream, so it is a total
  function; each of its rounds takes at least a length prefix from the reader.
\<close>

section \<open>Handshake and table of peers\<close>

definition handle_handshake :: "json \<Rightarrow> host \<Rightarrow> socket \<Rightarrow> (io_error + peer_id) \<times> host" where
  "handle_handshake J h s =
     (case host_receive J h s of
        (Inl e, h1) \<Rightarrow> (Inl e, h1)
      | (Inr (Some (Connection (Hello peer_id))), h1) \<Rightarrow>
          (case host_send J h1 s (Application Ack) of
             (Inl e, h2) \<Rightarrow> (Inl e, h2)
           | (Inr _, h2) \<Rightarrow> (Inr peer_id, h2))
      | (Inr _, h1) \<Rightarrow> (Inl \<lparr>io_kind = InvalidData, io_message = ''Expected Hello Message''\<rparr>, h1))"

definition deduplicate_peer_connection :: "host \<Rightarrow> socket \<Rightarrow> peer_id \<Rightarrow> socket \<times> host" where
  "deduplicate_peer_connection h stream peer_id =
     (let nd = ho_node h
      in case map_of (nd_peer_connections nd) peer_id of
           Some known \<Rightarrow> (known, h)
         | None \<Rightarrow>
             (stream, set_node h (nd\<lparr>nd_peer_connections := (peer_id, stream) # nd_peer_connections nd\<rparr>)))"

definition drop_peer_socket :: "host \<Rightarrow> peer_id \<Rightarrow> host" where
  "drop_peer_socket h peer_id =
     (let nd = ho_node h
      in set_node h (nd\<lparr>nd_peer_connections := AList.delete peer_id (nd_peer_connections nd)\<rparr>))"

section \<open>The loop of a peer connection\<close>

fun peer_dispatch :: "crates \<Rightarrow> json \<Rightarrow> host \<Rightarrow> message option \<Rightarrow> step" where
  "peer_dispatch X J h (Some (HotStuff msg)) = go_on (send_to_replica h (InHotStuff msg))"
| "peer_dispatch X J h (Some (Application (SubmitTransaction tx))) =
     go_on_opt h (handle_transaction X J h tx)"
| "peer_dispatch X J h (Some _) = Continue h"
| "peer_dispatch X J h None =
     Return (Inl \<lparr>io_kind = BrokenPipe, io_message = ''Expected message but got None instead''\<rparr>) h"

definition peer_step :: "crates \<Rightarrow> json \<Rightarrow> host \<Rightarrow> socket \<Rightarrow> step" where
  "peer_step X J h s =
     (case host_receive J h s of
        (Inl e, h1) \<Rightarrow> Return (Inl e) h1
      | (Inr message, h1) \<Rightarrow> peer_dispatch X J h1 message)"

abbreviation incoming :: "host \<Rightarrow> socket \<Rightarrow> bytes" where
  "incoming h s \<equiv> rd_bytes (cn_reader (ho_conns h s))"

lemma receive_data_some_shorter:
  "receive_data r = (Inr (Some d), r') \<Longrightarrow> length (rd_bytes r') < length (rd_bytes r)"
  by (auto simp: receive_data_def read_exact_def len_buf_len_def split: if_splits)

lemma host_receive_shorter:
  "host_receive J h s = (Inr (Some m), h') \<Longrightarrow> length (incoming h' s) < length (incoming h s)"
  by (auto simp: host_receive_def receive_message_def receive_json_def set_conn_def
      split: prod.splits sum.splits option.splits dest: receive_data_some_shorter)

lemma tx_effect_incoming: "tx_effect X txo h h' \<Longrightarrow> incoming h' s = incoming h s"
  by (simp add: tx_effect_def)

lemma peer_dispatch_incoming [simp]:
  "incoming (step_host (peer_dispatch X J h msg)) s = incoming h s"
  by (cases "(X, J, h, msg)" rule: peer_dispatch.cases)
    (auto simp: step_host_go_on_opt send_to_replica_def Let_def split: option.splits
      dest!: handle_transaction_effect dest: tx_effect_incoming)

lemma peer_step_shorter:
  assumes "peer_step X J h s = Continue h'"
  shows "length (incoming h' s) < length (incoming h s)"
proof -
  obtain msg h1 where rec: "host_receive J h s = (Inr msg, h1)" and dis: "peer_dispatch X J h1 msg = Continue h'"
    using assms by (auto simp: peer_step_def split: prod.splits sum.splits)
  then obtain m where "msg = Some m" by (cases msg) auto
  moreover have "incoming h' s = incoming h1 s"
    using peer_dispatch_incoming [of X J h1 msg s] dis by simp
  ultimately show ?thesis using host_receive_shorter [of J h s m h1] rec by simp
qed

function handle_peer_connection :: "crates \<Rightarrow> json \<Rightarrow> host \<Rightarrow> socket \<Rightarrow> step" where
  "handle_peer_connection X J h s =
     (case peer_step X J h s of
        Continue h1 \<Rightarrow> handle_peer_connection X J h1 s
      | fin \<Rightarrow> fin)"
  by pat_completeness auto
termination
  by (relation "measure (\<lambda>(X, J, h, s). length (incoming h s))") (auto dest: peer_step_shorter)

declare handle_peer_connection.simps [simp del]

section \<open>The listener\<close>

text \<open>
  What \<^verbatim>\<open>run_peer_listener\<close> has done after accepting the given sockets in order: the tasks it has
  started, each a peer and the socket its loop reads, and the error that ended it, if one did.
\<close>

fun run_peer_listener ::
  "json \<Rightarrow> host \<Rightarrow> socket list \<Rightarrow> (peer_id \<times> socket) list \<times> io_error option \<times> host" where
  "run_peer_listener J h [] = ([], None, h)"
| "run_peer_listener J h (s # ss) =
     (case handle_handshake J h s of
        (Inl e, h1) \<Rightarrow> ([], Some e, h1)
      | (Inr peer_id, h1) \<Rightarrow>
          (let (peer_socket, h2) = deduplicate_peer_connection h1 s peer_id;
               (tasks, err, h3) = run_peer_listener J h2 ss
           in ((peer_id, peer_socket) # tasks, err, h3)))"

text \<open>The task started for a connection: its loop, then the removal of the peer, which a panic skips.\<close>

definition peer_task :: "crates \<Rightarrow> json \<Rightarrow> host \<Rightarrow> peer_id \<Rightarrow> socket \<Rightarrow> host" where
  "peer_task X J h peer_id s =
     (case handle_peer_connection X J h s of
        Panicked h1 \<Rightarrow> h1
      | Return _ h1 \<Rightarrow> drop_peer_socket h1 peer_id
      | Continue h1 \<Rightarrow> h1)"

section \<open>Connecting to a peer\<close>

datatype connect_outcome = ConnectFailed | ConnectedTo string socket

datatype connect_result = StillTrying host | ConnectPanicked host | ConnectDone host

definition backoff_base :: nat where
  "backoff_base = 100"

definition backoff_max :: nat where
  "backoff_max = 1000 * 60"

text \<open>The time slept after a failed attempt and the next count; \<open>None\<close> is an overflow of \<^verbatim>\<open>u32::pow\<close>.\<close>

definition backoff :: "nat \<Rightarrow> (nat \<times> nat) option" where
  "backoff counts = do {
     exp_duration \<leftarrow> checked_pow 32 backoff_base counts;
     let sleep_duration = min exp_duration backoff_max;
     Some (sleep_duration,
           if sleep_duration \<noteq> backoff_max then min (counts + 1) (2 ^ 32 - 1) else counts)
   }"

definition note_socket :: "host \<Rightarrow> string \<Rightarrow> peer_id \<Rightarrow> host" where
  "note_socket h socket_addr peer_id =
     (let nd = ho_node h
      in if nd_socket_peer_map nd socket_addr = None
         then set_node h (nd\<lparr>nd_socket_peer_map := (nd_socket_peer_map nd)(socket_addr \<mapsto> peer_id)\<rparr>)
         else h)"

definition connection_established :: "json \<Rightarrow> host \<Rightarrow> peer_id \<Rightarrow> string \<Rightarrow> socket \<Rightarrow> connect_result" where
  "connection_established J h peer_id socket_addr s =
     (let h1 = note_socket h socket_addr peer_id;
          (res, c) = send_hello J (ho_conns h1 s) (nd_id (ho_node h1));
          h2 = set_conn h1 s c
      in case res of
           Inl _ \<Rightarrow> ConnectPanicked h2
         | Inr _ \<Rightarrow> ConnectDone (snd (deduplicate_peer_connection h2 s peer_id)))"

fun connect_loop ::
  "json \<Rightarrow> host \<Rightarrow> peer_id \<Rightarrow> nat \<Rightarrow> connect_outcome list \<Rightarrow> nat list \<times> connect_result" where
  "connect_loop J h peer_id counts [] = ([], StillTrying h)"
| "connect_loop J h peer_id counts (ConnectedTo socket_addr s # attempts) =
     ([], connection_established J h peer_id socket_addr s)"
| "connect_loop J h peer_id counts (ConnectFailed # attempts) =
     (case backoff counts of
        None \<Rightarrow> ([], ConnectPanicked h)
      | Some (sleep_duration, counts') \<Rightarrow>
          (let (sleeps, res) = connect_loop J h peer_id counts' attempts
           in (sleep_duration # sleeps, res)))"

definition connect_to_peer ::
  "json \<Rightarrow> host \<Rightarrow> peer_id \<Rightarrow> connect_outcome list \<Rightarrow> nat list \<times> connect_result" where
  "connect_to_peer J h peer_id attempts = connect_loop J h peer_id 1 attempts"

end
