(* ===== verification/Node_System.thy ===== *)
theory Node_System
  imports Peer_Handler Replica_Safety
begin

text \<open>
  A running node: its connections, its tables, the channels and the replica behind them.  Every step
  is one round of one of the tasks \<^verbatim>\<open>run_node\<close> starts (client and peer connections, the listener, the
  connecting side, the task that forwards the replica's messages, the replica itself), in any order;
  between them the network may do anything to the connections.  The field \<open>sy_taken\<close> records what the
  replica has taken from its inbox.
\<close>

section \<open>Steps\<close>

record system =
  sy_host :: host
  sy_replica :: "replica option"
  sy_taken :: "replica_inbound list"

fun connect_host :: "connect_result \<Rightarrow> host" where
  "connect_host (StillTrying h) = h"
| "connect_host (ConnectPanicked h) = h"
| "connect_host (ConnectDone h) = h"

definition channels_new :: channels where
  "channels_new = \<lparr>cl_to_replica = [], cl_to_node = [], cl_replica_open = True, cl_node_open = True\<rparr>"

text \<open>\<^verbatim>\<open>run_node\<close>: a new node and a new replica, joined by two empty channels.\<close>

definition run_node ::
  "crates \<Rightarrow> nat \<Rightarrow> bytes \<Rightarrow> bytes \<Rightarrow> bytes set \<Rightarrow> pacemaker \<Rightarrow> public_key_hash \<Rightarrow> (socket \<Rightarrow> conn) \<Rightarrow>
   system option" where
  "run_node X node_index faucet_sk signing_key validators pm faucet_pk conns = do {
     r \<leftarrow> replica_new X node_index signing_key validators pm faucet_pk;
     Some \<lparr>sy_host = \<lparr>ho_node = node_new node_index faucet_sk, ho_conns = conns,
                      ho_channels = channels_new\<rparr>,
           sy_replica = Some r, sy_taken = []\<rparr>
   }"

definition system_replica :: "crates \<Rightarrow> nat \<Rightarrow> system \<Rightarrow> system" where
  "system_replica X now S =
     (case sy_replica S of
        None \<Rightarrow> S
      | Some r \<Rightarrow>
          (let h = sy_host S; cl = ho_channels h; taken = sy_taken S @ take 1 (cl_to_replica cl)
           in case run_replica_round X now r cl of
                Some (Inr _, r', cl') \<Rightarrow>
                  S\<lparr>sy_host := h\<lparr>ho_channels := cl'\<rparr>, sy_replica := Some r', sy_taken := taken\<rparr>
              | Some (Inl _, r', cl') \<Rightarrow>
                  S\<lparr>sy_host := h\<lparr>ho_channels := cl'\<lparr>cl_replica_open := False\<rparr>\<rparr>,
                    sy_replica := None, sy_taken := taken\<rparr>
              | None \<Rightarrow>
                  S\<lparr>sy_host := h\<lparr>ho_channels := cl\<lparr>cl_to_replica := drop 1 (cl_to_replica cl),
                      cl_replica_open := False\<rparr>\<rparr>, sy_replica := None, sy_taken := taken\<rparr>))"

definition system_forward :: "json \<Rightarrow> system \<Rightarrow> system" where
  "system_forward J S =
     (let h = sy_host S; cl = ho_channels h
      in case cl_to_node cl of
           [] \<Rightarrow> S
         | m # ms \<Rightarrow> S\<lparr>sy_host := snd (handle_replica_outbound J
             (h\<lparr>ho_channels := cl\<lparr>cl_to_node := ms\<rparr>\<rparr>) [m])\<rparr>)"

inductive system_step :: "crates \<Rightarrow> json \<Rightarrow> system \<Rightarrow> system \<Rightarrow> bool" for X J where
  client: "system_step X J S
     (S\<lparr>sy_host := step_host (client_step X J (sy_replica S) (sy_host S) s)\<rparr>)"
| peer: "system_step X J S (S\<lparr>sy_host := step_host (peer_step X J (sy_host S) s)\<rparr>)"
| listen: "run_peer_listener J (sy_host S) ss = (tasks, err, h) \<Longrightarrow> system_step X J S (S\<lparr>sy_host := h\<rparr>)"
| leave: "system_step X J S (S\<lparr>sy_host := drop_peer_socket (sy_host S) pid\<rparr>)"
| connect: "connect_to_peer J (sy_host S) pid attempts = (sleeps, res) \<Longrightarrow>
     system_step X J S (S\<lparr>sy_host := connect_host res\<rparr>)"
| forward: "system_step X J S (system_forward J S)"
| replica: "system_step X J S (system_replica X now S)"
| network: "system_step X J S (S\<lparr>sy_host := (sy_host S)\<lparr>ho_conns := conns\<rparr>\<rparr>)"

inductive system_reachable :: "crates \<Rightarrow> json \<Rightarrow> system \<Rightarrow> bool" for X J where
  start: "run_node X i fk sk V pm pk conns = Some S \<Longrightarrow> system_reachable X J S"
| step: "\<lbrakk>system_reachable X J S; system_step X J S S'\<rbrakk> \<Longrightarrow> system_reachable X J S'"

section \<open>The invariant\<close>

definition system_ok :: "crates \<Rightarrow> system \<Rightarrow> bool" where
  "system_ok X S \<longleftrightarrow>
     node_ok X (ho_node (sy_host S)) \<and>
     subseq (inbox_transactions (sy_taken S @ cl_to_replica (ho_channels (sy_host S))))
       (nd_transactions (ho_node (sy_host S))) \<and>
     (cl_replica_open (ho_channels (sy_host S)) \<longleftrightarrow> sy_replica S \<noteq> None) \<and>
     (\<forall>r. sy_replica S = Some r \<longrightarrow> replica_reachable X r)"

text \<open>
  Steps of the host keep the invariant when each of them is one of three things: a change of the
  connections only, the handling of one transaction, or a consensus message put into the inbox.
\<close>

definition host_same :: "host \<Rightarrow> host \<Rightarrow> bool" where
  "host_same h h' \<longleftrightarrow>
     nd_transactions (ho_node h') = nd_transactions (ho_node h) \<and>
     nd_seen_transactions (ho_node h') = nd_seen_transactions (ho_node h) \<and>
     (distinct (map fst (nd_peer_connections (ho_node h))) \<longrightarrow>
      distinct (map fst (nd_peer_connections (ho_node h')))) \<and>
     cl_replica_open (ho_channels h') = cl_replica_open (ho_channels h) \<and>
     inbox_transactions (cl_to_replica (ho_channels h')) = inbox_transactions (cl_to_replica (ho_channels h))"

lemma host_same_refl [simp]: "host_same h h"
  by (simp add: host_same_def)

lemma host_same_trans: "\<lbrakk>host_same a b; host_same b c\<rbrakk> \<Longrightarrow> host_same a c"
  by (simp add: host_same_def)

lemma system_ok_same:
  "\<lbrakk>system_ok X S; host_same (sy_host S) h\<rbrakk> \<Longrightarrow> system_ok X (S\<lparr>sy_host := h\<rparr>)"
  by (simp add: system_ok_def host_same_def node_ok_def)

lemma system_ok_effect:
  assumes "system_ok X S" "tx_effect X txo (sy_host S) h"
  shows "system_ok X (S\<lparr>sy_host := h\<rparr>)"
proof (cases txo)
  case None
  with assms show ?thesis by (simp add: system_ok_same tx_effect_def host_same_def)
next
  case (Some tx)
  define nd where "nd = ho_node (sy_host S)"
  define ts where "ts = inbox_transactions (sy_taken S @ cl_to_replica (ho_channels (sy_host S)))"
  have sub: "subseq ts (nd_transactions nd)" and ok: "node_ok X nd"
    using assms(1) by (simp_all add: system_ok_def nd_def ts_def)
  have new: "content_key X tx \<notin> nd_seen_transactions nd" "ho_node h = snd (note_transaction X nd tx)"
    using assms(2) Some by (simp_all add: tx_effect_def nd_def)
  then have app: "nd_transactions (ho_node h) = nd_transactions nd @ [tx]"
    by (simp add: note_transaction_def content_key_def)
  have inbox: "inbox_transactions (sy_taken S @ cl_to_replica (ho_channels h)) \<in> {ts, ts @ [tx]}"
    using assms(2) Some by (auto simp: tx_effect_def ts_def)
  have "subseq ts (nd_transactions nd @ [tx])" "subseq (ts @ [tx]) (nd_transactions nd @ [tx])"
    using sub by (blast intro: list_emb_prefix list_emb_append_mono subseq_order.order_refl)+
  with inbox app have "subseq (inbox_transactions (sy_taken S @ cl_to_replica (ho_channels h)))
      (nd_transactions (ho_node h))" by auto
  moreover have "node_ok X (ho_node h)"
    using note_transaction_ok [of X nd tx] ok new(2) by (cases "note_transaction X nd tx") simp
  ultimately show ?thesis
    using assms Some by (simp add: system_ok_def tx_effect_def)
qed

section \<open>Every step keeps it\<close>

lemma host_receive_same [simp]: "host_same h (snd (host_receive J h s))"
  by (simp add: host_receive_def set_conn_def host_same_def split: prod.splits)

lemma host_send_same [simp]: "host_same h (snd (host_send J h s msg))"
  by (simp add: host_same_def)

lemma send_each_same [simp]: "host_same h (send_each J h msg ss)"
  by (simp add: host_same_def)

lemma dispatch_after_receive:
  assumes "system_ok X S" "host_same (sy_host S) h1" "tx_effect X txo h1 h"
  shows "system_ok X (S\<lparr>sy_host := h\<rparr>)"
  using system_ok_effect [of X "S\<lparr>sy_host := h1\<rparr>" txo h] system_ok_same [OF assms(1,2)] assms(3) by simp

text \<open>
  The contract of a connection's task: after a message has been received it either leaves tables and
  inbox alone or handles one transaction.  Client and peer connections both provide it.
\<close>

locale connection_task =
  fixes X :: crates and J :: json and dispatch :: "host \<Rightarrow> socket \<Rightarrow> message option \<Rightarrow> step"
  assumes dispatch_effect: "host_same h (step_host (dispatch h s m)) \<or>
    (\<exists>txo. tx_effect X txo h (step_host (dispatch h s m)))"
begin

lemma round_ok:
  assumes "system_ok X S"
  shows "system_ok X (S\<lparr>sy_host := step_host (case host_receive J (sy_host S) s of
    (Inl e, h1) \<Rightarrow> Return (Inl e) h1 | (Inr message, h1) \<Rightarrow> dispatch h1 s message)\<rparr>)"
proof (cases "host_receive J (sy_host S) s")
  case (Pair res h1)
  have same: "host_same (sy_host S) h1"
    using host_receive_same [of "sy_host S" J s] Pair by simp
  show ?thesis
  proof (cases res)
    case (Inl e)
    with Pair same assms show ?thesis by (simp add: system_ok_same)
  next
    case (Inr msg)
    with Pair same assms show ?thesis
      using dispatch_effect [of h1 s msg]
      by (auto intro: dispatch_after_receive system_ok_same host_same_trans)
  qed
qed

end

lemma peer_dispatch_cases:
  "host_same h (step_host (peer_dispatch X J h msg)) \<or>
   (\<exists>txo. tx_effect X txo h (step_host (peer_dispatch X J h msg)))"
  by (cases "(X, J, h, msg)" rule: peer_dispatch.cases)
    (auto simp: step_host_go_on_opt send_to_replica_def host_same_def Let_def split: option.splits
      dest: handle_transaction_effect)

interpretation client_task: connection_task X J "client_dispatch X J answering" for X J answering
  by unfold_locales (use client_dispatch_effect in blast)

interpretation peer_conn_task: connection_task X J "\<lambda>h s. peer_dispatch X J h" for X J
  by unfold_locales (rule peer_dispatch_cases)

lemmas client_step_ok = client_task.round_ok [folded client_step_def]

lemmas peer_step_ok = peer_conn_task.round_ok [folded peer_step_def]

lemma deduplicate_same [simp]: "host_same h (snd (deduplicate_peer_connection h s pid))"
  by (auto simp: deduplicate_peer_connection_def set_node_def host_same_def Let_def map_of_eq_None_iff
      split: option.splits)

lemma handshake_same [simp]: "host_same h (snd (handle_handshake J h s))"
proof (cases "host_receive J h s")
  case (Pair res h1)
  have r: "host_same h h1" using host_receive_same [of h J s] Pair by simp
  obtain res2 h2 where hs: "host_send J h1 s (Application Ack) = (res2, h2)"
    by (cases "host_send J h1 s (Application Ack)")
  with host_send_same [of h1 J s "Application Ack"] r have "host_same h h2"
    by (auto intro: host_same_trans)
  with Pair r hs show ?thesis
    by (simp add: handle_handshake_def split: sum.splits option.splits message.splits control_message.splits)
qed

lemma run_peer_listener_same: "run_peer_listener J h ss = (tasks, err, h') \<Longrightarrow> host_same h h'"
proof (induction ss arbitrary: h tasks)
  case (Cons s ss)
  obtain res h1 where hs: "handle_handshake J h s = (res, h1)" by (cases "handle_handshake J h s")
  with handshake_same [of h J s] have "host_same h h1" by simp
  moreover have "host_same h1 h'" if "res = Inr pid" for pid
  proof -
    obtain ps h2 where dd: "deduplicate_peer_connection h1 s pid = (ps, h2)"
      by (cases "deduplicate_peer_connection h1 s pid")
    with Cons hs that have "host_same h2 h'" by (auto split: prod.splits)
    with dd deduplicate_same [of h1 s pid] show ?thesis by (auto intro: host_same_trans)
  qed
  ultimately show ?case using Cons.prems hs by (cases res) (auto intro: host_same_trans)
qed simp

lemma connect_same: "host_same h (connect_host (snd (connect_loop J h pid n attempts)))"
proof (induction attempts arbitrary: n rule: list.induct)
  case (Cons a attempts)
  have "host_same h (connect_host (connection_established J h pid addr s))" for addr s
  proof -
    have "host_same h (set_conn (note_socket h addr pid) s c)" for c
      by (simp add: note_socket_def set_node_def set_conn_def host_same_def Let_def)
    then show ?thesis
      by (auto simp: connection_established_def Let_def split: prod.splits sum.splits
          intro: host_same_trans [OF _ deduplicate_same])
  qed
  with Cons show ?case
    by (cases a) (auto split: option.splits prod.splits, metis snd_conv)
qed simp

lemma forward_same: "host_same h (snd (handle_replica_outbound J h ms))"
proof (induction ms arbitrary: h)
  case (Cons m ms)
  have "host_same h (snd (send_to_peer J h msg pid))" for msg pid
    by (simp add: send_to_peer_def split: option.splits)
  with Cons show ?case
    by (cases m) (auto simp: broadcast_hotstuff_message_def split: prod.splits sum.splits,
        (metis host_same_trans send_each_same snd_conv)+)
qed simp

lemma deliver_inbox:
  "inbox_transactions (cl_to_replica (snd (deliver cl m))) = inbox_transactions (cl_to_replica cl)"
  "cl_replica_open (snd (deliver cl m)) = cl_replica_open cl"
  by (cases m; simp add: broadcast_def send_to_node_def send_to_self_def)+

lemma deliver_all_inbox:
  "inbox_transactions (cl_to_replica (snd (deliver_all cl ms))) = inbox_transactions (cl_to_replica cl)
   \<and> cl_replica_open (snd (deliver_all cl ms)) = cl_replica_open cl"
proof (induction ms arbitrary: cl)
  case (Cons m ms)
  obtain res cl1 where d: "deliver cl m = (res, cl1)" by (cases "deliver cl m")
  with Cons [of cl1] deliver_inbox [of cl m] show ?case by (cases res) simp_all
qed simp

text \<open>A round of the replica takes at most the oldest message and adds no transaction.\<close>

lemma run_replica_round_inbox:
  assumes "run_replica_round X now r cl = Some (res, r', cl')"
  shows "inbox_transactions (cl_to_replica cl') = inbox_transactions (drop 1 (cl_to_replica cl)) \<and>
    cl_replica_open cl' = cl_replica_open cl \<and> (\<exists>e out. replica_turn X now r e = Some (out, r'))"
proof -
  obtain e cl1 where c: "(case cl_to_replica cl of [] \<Rightarrow> (TimerEvent, cl)
      | m # ms \<Rightarrow> (event_of m, cl\<lparr>cl_to_replica := ms\<rparr>)) = (e, cl1)" by force
  then have cl1: "cl_to_replica cl1 = drop 1 (cl_to_replica cl)" "cl_replica_open cl1 = cl_replica_open cl"
    by (auto split: list.splits)
  from assms c obtain out where "replica_turn X now r e = Some (out, r')" "(res, cl') = deliver_all cl1 out"
    by (auto simp: run_replica_round_def bind_eq_Some_conv split: prod.splits) (metis surj_pair)
  with cl1 deliver_all_inbox [of cl1 out] show ?thesis by (metis snd_conv)
qed

lemma inbox_take_drop:
  "inbox_transactions (take n ms) @ inbox_transactions (drop n ms) = inbox_transactions ms"
  by (metis append_take_drop_id inbox_transactions_append)

lemma system_replica_ok:
  assumes "system_ok X S"
  shows "system_ok X (system_replica X now S)"
proof (cases "sy_replica S")
  case None
  with assms show ?thesis by (simp add: system_replica_def)
next
  case (Some r)
  then have reach: "replica_reachable X r" using assms by (simp add: system_ok_def)
  show ?thesis
  proof (cases "run_replica_round X now r (ho_channels (sy_host S))")
    case None
    with Some assms show ?thesis
      by (simp add: system_replica_def system_ok_def Let_def inbox_take_drop del: One_nat_def)
  next
    case (Some p)
    obtain res r' cl' where p: "p = (res, r', cl')" by (cases p)
    note inbox = run_replica_round_inbox [OF Some [unfolded p]]
    then have "replica_reachable X r'" using reach replica_reachable.turn by blast
    with Some p inbox assms \<open>sy_replica S = Some r\<close> show ?thesis
      by (cases res) (simp_all add: system_replica_def system_ok_def Let_def inbox_take_drop del: One_nat_def)
  qed
qed

lemma system_forward_ok: "system_ok X S \<Longrightarrow> system_ok X (system_forward J S)"
proof (cases "cl_to_node (ho_channels (sy_host S))")
  case (Cons m ms)
  define h where "h = (sy_host S)\<lparr>ho_channels := (ho_channels (sy_host S))\<lparr>cl_to_node := ms\<rparr>\<rparr>"
  assume "system_ok X S"
  moreover have "host_same (sy_host S) h" by (simp add: h_def host_same_def)
  ultimately show ?thesis
    using Cons forward_same [of h J "[m]"]
    by (auto simp: system_forward_def Let_def h_def [symmetric] simp del: handle_replica_outbound.simps
        intro: system_ok_same host_same_trans)
qed (simp add: system_forward_def)

lemma drop_same: "host_same h (drop_peer_socket h pid)"
  by (simp add: drop_peer_socket_def set_node_def host_same_def Let_def distinct_delete)

lemma system_step_ok: "\<lbrakk>system_step X J S S'; system_ok X S\<rbrakk> \<Longrightarrow> system_ok X S'"
proof (induction rule: system_step.induct)
  case (connect S pid attempts sleeps res)
  with connect_same [of "sy_host S" J pid 1 attempts] show ?case
    by (simp add: connect_to_peer_def system_ok_same)
next
  case (network S conns)
  then show ?case by (simp add: system_ok_same host_same_def)
qed (auto intro: client_step_ok peer_step_ok system_ok_same run_peer_listener_same drop_same
      system_forward_ok system_replica_ok)

lemma run_node_ok: "run_node X i fk sk V pm pk conns = Some S \<Longrightarrow> system_ok X S"
  by (auto simp: run_node_def bind_eq_Some_conv system_ok_def channels_new_def
      intro: replica_reachable.start)

lemma system_reachable_ok: "system_reachable X J S \<Longrightarrow> system_ok X S"
  by (induction rule: system_reachable.induct) (auto intro: run_node_ok system_step_ok)

end
