(* ===== verification/Config.thy ===== *)
theory Config
  imports Node_System
begin

text \<open>
  Configuration from environment variables (\<^verbatim>\<open>config.rs\<close>), the arguments and addresses of the entry
  point (\<^verbatim>\<open>main.rs\<close>) and the replica \<^verbatim>\<open>HotStuffReplica::new\<close> builds from them.  The environment, after
  \<^verbatim>\<open>dotenv\<close> has been read, is a partial map from names to values; \<open>None\<close> is the panic of an \<^verbatim>\<open>expect\<close>.
  The standard library's formatting and parsing of unsigned integers are modelled; the parser of
  \<open>f32\<close> and the back-off computed with it are a parameter.
\<close>

section \<open>Decimal numbers\<close>

type_synonym environment = "string \<rightharpoonup> string"

definition digit_char :: "nat \<Rightarrow> char" where
  "digit_char d = char_of (48 + d)"

text \<open>\<^verbatim>\<open>format!("{}", n)\<close> and \<^verbatim>\<open>str::parse\<close> for an unsigned type of width \<open>w\<close>.\<close>

fun show_nat :: "nat \<Rightarrow> string" where
  "show_nat n = (if n < 10 then [digit_char n] else show_nat (n div 10) @ [digit_char (n mod 10)])"

declare show_nat.simps [simp del]

definition digit_value :: "char \<Rightarrow> nat option" where
  "digit_value c = (let n = of_char c in if 48 \<le> n \<and> n \<le> (57 :: nat) then Some (n - 48) else None)"

fun parse_digits :: "nat \<Rightarrow> nat \<Rightarrow> string \<Rightarrow> nat option" where
  "parse_digits w acc [] = Some acc"
| "parse_digits w acc (c # cs) = do {
     d \<leftarrow> digit_value c;
     m \<leftarrow> checked_mul w acc 10;
     a \<leftarrow> checked_add w m d;
     parse_digits w a cs
   }"

definition parse_uint :: "nat \<Rightarrow> string \<Rightarrow> nat option" where
  "parse_uint w s =
     (case s of
        [] \<Rightarrow> None
      | c # cs \<Rightarrow>
          if c = CHR ''+'' then (if cs = [] then None else parse_digits w 0 cs) else parse_digits w 0 s)"

section \<open>Environment variables\<close>

definition key_bytes :: "crates \<Rightarrow> environment \<Rightarrow> string \<Rightarrow> bytes option" where
  "key_bytes X env env_key = do { key_hex \<leftarrow> env env_key; x_from_hex X 32 key_hex }"

definition public_key :: "crates \<Rightarrow> environment \<Rightarrow> string \<Rightarrow> bytes option" where
  "public_key X env env_key = do {
     pk_bytes \<leftarrow> key_bytes X env env_key;
     if x_key_ok X pk_bytes then Some pk_bytes else None
   }"

definition retrieve_verifying_key :: "crates \<Rightarrow> environment \<Rightarrow> nat \<Rightarrow> bytes option" where
  "retrieve_verifying_key X env node_id = public_key X env (''PUBLIC_KEY_'' @ show_nat node_id)"

definition retrieve_signing_key :: "crates \<Rightarrow> environment \<Rightarrow> nat \<Rightarrow> bytes option" where
  "retrieve_signing_key X env node_id = key_bytes X env (''SECRET_KEY_'' @ show_nat node_id)"

definition retrieve_signing_key_checked :: "crates \<Rightarrow> environment \<Rightarrow> nat \<Rightarrow> bytes option" where
  "retrieve_signing_key_checked X env node_id = do {
     sk \<leftarrow> retrieve_signing_key X env node_id;
     vk \<leftarrow> retrieve_verifying_key X env node_id;
     if x_verifying_key X sk = vk then Some sk else None
   }"

definition retrieve_num_validators :: "environment \<Rightarrow> nat option" where
  "retrieve_num_validators env = do { v \<leftarrow> env ''NUM_VALIDATORS''; parse_uint 64 v }"

fun collect_keys :: "crates \<Rightarrow> environment \<Rightarrow> nat list \<Rightarrow> bytes set \<Rightarrow> bytes set option" where
  "collect_keys X env [] validator_set = Some validator_set"
| "collect_keys X env (i # is) validator_set = do {
     pk \<leftarrow> public_key X env (''PUBLIC_KEY_'' @ show_nat i);
     collect_keys X env is (insert pk validator_set)
   }"

definition retrieve_validator_set :: "crates \<Rightarrow> environment \<Rightarrow> bytes set option" where
  "retrieve_validator_set X env = do {
     num_validators \<leftarrow> retrieve_num_validators env;
     collect_keys X env [0..<num_validators] {}
   }"

definition retrieve_faucet_keys :: "crates \<Rightarrow> environment \<Rightarrow> (bytes \<times> bytes) option" where
  "retrieve_faucet_keys X env = do {
     pk \<leftarrow> public_key X env ''FAUCET_PK'';
     sk \<leftarrow> key_bytes X env ''FAUCET_SK'';
     Some (pk, sk)
   }"

text \<open>Nanoseconds, as in the pacemaker's model.\<close>

definition retrieve_tick_duration :: "environment \<Rightarrow> nat option" where
  "retrieve_tick_duration env = do {
     v \<leftarrow> env ''TICK_DURATION'';
     duration_ms \<leftarrow> parse_uint 64 v;
     Some (duration_ms * 10 ^ 6)
   }"

text \<open>The parameter turns the text of an \<open>f32\<close> into the factor \<^verbatim>\<open>powf(failed_views).round() as u32\<close>.\<close>

definition retrieve_multiplicative_factor ::
  "(string \<Rightarrow> (nat \<Rightarrow> nat) option) \<Rightarrow> environment \<Rightarrow> (nat \<Rightarrow> nat) option" where
  "retrieve_multiplicative_factor parse_f32 env = do { v \<leftarrow> env ''MULTIPLICATIVE_FACTOR''; parse_f32 v }"

section \<open>Starting a node\<close>

definition pacemaker_from_env ::
  "(string \<Rightarrow> (nat \<Rightarrow> nat) option) \<Rightarrow> environment \<Rightarrow> nat \<Rightarrow> pacemaker option" where
  "pacemaker_from_env parse_f32 env now = do {
     replica_len \<leftarrow> retrieve_num_validators env;
     tick \<leftarrow> retrieve_tick_duration env;
     factor \<leftarrow> retrieve_multiplicative_factor parse_f32 env;
     Some (pacemaker_new replica_len tick factor now)
   }"

definition replica_from_env ::
  "crates \<Rightarrow> (string \<Rightarrow> (nat \<Rightarrow> nat) option) \<Rightarrow> environment \<Rightarrow> nat \<Rightarrow> nat \<Rightarrow> replica option" where
  "replica_from_env X parse_f32 env now node_id = do {
     signing_key \<leftarrow> retrieve_signing_key_checked X env node_id;
     validators \<leftarrow> retrieve_validator_set X env;
     pm \<leftarrow> pacemaker_from_env parse_f32 env now;
     (faucet_pk, _) \<leftarrow> retrieve_faucet_keys X env;
     replica_new X node_id signing_key validators pm faucet_pk
   }"

text \<open>
  The start of the program: the node's index from the second argument (0 when it is missing or not a
  number), its port, and the peers.  Ports are \<^verbatim>\<open>u16\<close>: the index is cut to 16 bits and the sum checked.
\<close>

definition node_port :: "nat \<Rightarrow> nat option" where
  "node_port i = checked_add 16 6400 (i mod 2 ^ 16)"

definition node_addr :: "nat \<Rightarrow> string" where
  "node_addr port = ''127.0.0.1:'' @ show_nat port"

definition node_index_of :: "string list \<Rightarrow> nat" where
  "node_index_of args =
     (case index args 2 of
        None \<Rightarrow> 0
      | Some s \<Rightarrow> (case parse_uint 64 s of None \<Rightarrow> 0 | Some n \<Rightarrow> n))"

fun all_ports :: "nat list \<Rightarrow> nat list option" where
  "all_ports [] = Some []"
| "all_ports (i # is) = do { p \<leftarrow> node_port i; ps \<leftarrow> all_ports is; Some (p # ps) }"

definition startup :: "environment \<Rightarrow> string list \<Rightarrow> (nat \<times> string \<times> string \<times> peer_info list) option" where
  "startup env args = do {
     num_nodes \<leftarrow> retrieve_num_validators env;
     let node_index = node_index_of args;
     if num_nodes \<le> node_index then None
     else do {
       ports \<leftarrow> all_ports [0..<num_nodes];
       curr_port \<leftarrow> index ports node_index;
       let peers = map (\<lambda>(i, port). \<lparr>pi_peer_id = i, pi_peer_addr = node_addr port\<rparr>)
         (filter (\<lambda>(i, _). i \<noteq> node_index) (List.enumerate 0 ports));
       Some (node_index, node_addr 8000, node_addr curr_port, peers)
     }
   }"

section \<open>Numbers survive printing and parsing\<close>

lemma digit_value_char: "d < 10 \<Longrightarrow> digit_value (digit_char d) = Some d"
proof -
  have "\<forall>d\<in>set [0..<10]. digit_value (digit_char d) = Some d" by code_simp
  then show "d < 10 \<Longrightarrow> ?thesis" by simp
qed

lemma digit_char_not_plus: "d < 10 \<Longrightarrow> digit_char d \<noteq> CHR ''+''"
proof -
  have "\<forall>d\<in>set [0..<10]. digit_char d \<noteq> CHR ''+''" by code_simp
  then show "d < 10 \<Longrightarrow> ?thesis" by simp
qed

lemma parse_digits_append:
  "parse_digits w acc (xs @ ys) = do { a \<leftarrow> parse_digits w acc xs; parse_digits w a ys }"
  by (induction xs arbitrary: acc) (simp_all add: Option.bind_assoc)

lemma parse_show_digits: "n < 2 ^ w \<Longrightarrow> parse_digits w 0 (show_nat n) = Some n"
proof (induction n rule: show_nat.induct)
  case (1 n)
  show ?case
  proof (cases "n < 10")
    case True
    with 1 show ?thesis
      by (simp add: show_nat.simps digit_value_char checked_mul_def checked_add_def)
  next
    case False
    have lt: "n div 10 * 10 < 2 ^ w" "n div 10 < 2 ^ w"
      using 1(2) by (metis div_mod_decomp le_add1 le_less_trans, metis div_le_dividend le_less_trans)
    have "n div 10 * 10 + n mod 10 = n" by simp
    with False 1 lt show ?thesis
      by (simp add: show_nat.simps [of n] parse_digits_append digit_value_char checked_mul_def
          checked_add_def)
  qed
qed

lemma show_nat_head: "\<exists>d cs. show_nat n = digit_char d # cs \<and> d < 10"
proof (induction n rule: show_nat.induct)
  case (1 n)
  then show ?case by (cases "n < 10") (auto simp: show_nat.simps [of n])
qed

lemma parse_show: "n < 2 ^ w \<Longrightarrow> parse_uint w (show_nat n) = Some n"
proof -
  obtain d cs where "show_nat n = digit_char d # cs" "d < 10" using show_nat_head by blast
  then show "n < 2 ^ w \<Longrightarrow> ?thesis"
    using parse_show_digits [of n w] digit_char_not_plus [of d] by (simp add: parse_uint_def)
qed

lemma parse_digits_bound: "\<lbrakk>parse_digits w acc s = Some n; acc < 2 ^ w\<rbrakk> \<Longrightarrow> n < 2 ^ w"
  by (induction s arbitrary: acc) (auto simp: checked)

section \<open>The validators\<close>

lemma collect_keys_spec:
  "collect_keys X env is V = Some V' \<Longrightarrow>
   V' = V \<union> {pk. \<exists>i\<in>set is. retrieve_verifying_key X env i = Some pk} \<and>
   (\<forall>i\<in>set is. \<exists>pk. retrieve_verifying_key X env i = Some pk)"
  by (induction "is" arbitrary: V) (fastforce simp: bind_eq_Some_conv retrieve_verifying_key_def)+

lemma validator_set_spec:
  assumes "retrieve_validator_set X env = Some V" "retrieve_num_validators env = Some n"
  shows "V = {pk. \<exists>i<n. retrieve_verifying_key X env i = Some pk}"
  using assms collect_keys_spec [of X env "[0..<n]" "{}" V] by (auto simp: retrieve_validator_set_def)

lemma configured_key:
  assumes "replica_from_env X pf env now i = Some r" "retrieve_num_validators env = Some n"
  shows "i < n \<longrightarrow> x_verifying_key X (hr_signing_key r) \<in> hr_validator_set r"
    and "pa_replica_ids (hr_pacemaker r) = [0..<n]" "hr_node_id r = i"
    and "retrieve_validator_set X env = Some (hr_validator_set r)"
proof -
  obtain sk V pm fp where parts: "retrieve_signing_key_checked X env i = Some sk"
    "retrieve_validator_set X env = Some V" "pacemaker_from_env pf env now = Some pm"
    "replica_new X i sk V pm fp = Some r"
    using assms(1) by (auto simp: replica_from_env_def bind_eq_Some_conv)
  have r: "hr_signing_key r = sk" "hr_validator_set r = V" "hr_pacemaker r = pm" "hr_node_id r = i"
    using parts(4) by (auto simp: replica_new_def bind_eq_Some_conv split: prod.splits)
  have "retrieve_verifying_key X env i = Some (x_verifying_key X sk)"
    using parts(1) by (auto simp: retrieve_signing_key_checked_def bind_eq_Some_conv split: if_splits)
  with r validator_set_spec [OF parts(2) assms(2)]
  show "i < n \<longrightarrow> x_verifying_key X (hr_signing_key r) \<in> hr_validator_set r" by auto
  have "pa_replica_ids pm = [0..<n]"
    using parts(3) assms(2) by (auto simp: pacemaker_from_env_def pacemaker_new_def bind_eq_Some_conv)
  with r parts(2) show "pa_replica_ids (hr_pacemaker r) = [0..<n]" "hr_node_id r = i"
    "retrieve_validator_set X env = Some (hr_validator_set r)" by simp_all
qed

section \<open>The peers of a node\<close>

lemma all_ports_spec:
  "all_ports is = Some ps \<Longrightarrow> ps = map (\<lambda>i. 6400 + i mod 2 ^ 16) is \<and> (\<forall>i\<in>set is. i mod 2 ^ 16 < 2 ^ 16 - 6400)"
  by (induction "is" arbitrary: ps)
    (auto simp: node_port_def checked_add_def bind_eq_Some_conv split: if_splits)

lemma enumerate_map: "List.enumerate 0 (map f [0..<n]) = map (\<lambda>j. (j, f j)) [0..<n]"
  by (simp add: enumerate_eq_zip zip_map2 zip_same_conv_map)

lemma startup_peers:
  assumes "startup env args = Some (i, client_addr, consensus_addr, peers)"
    and "retrieve_num_validators env = Some n"
  shows "i < n \<and> consensus_addr = node_addr (6400 + i mod 2 ^ 16) \<and>
    peers = map (\<lambda>j. \<lparr>pi_peer_id = j, pi_peer_addr = node_addr (6400 + j mod 2 ^ 16)\<rparr>)
      (filter (\<lambda>j. j \<noteq> i) [0..<n])"
proof -
  define port where "port j = 6400 + j mod (2 ^ 16 :: nat)" for j
  from assms obtain ports q where p: "all_ports [0..<n] = Some ports" "i < n" "index ports i = Some q"
    "consensus_addr = node_addr q"
    "peers = map (\<lambda>(i, port). \<lparr>pi_peer_id = i, pi_peer_addr = node_addr port\<rparr>)
       (filter (\<lambda>(j, _). j \<noteq> i) (List.enumerate 0 ports))"
    by (auto simp: startup_def bind_eq_Some_conv Let_def split: if_splits)
  moreover have ports: "ports = map port [0..<n]"
    using all_ports_spec [OF p(1)] by (simp add: port_def)
  moreover have "q = port i" using p(2,3) ports by (simp add: checked)
  ultimately show ?thesis
    by (simp add: enumerate_map filter_map o_def port_def)
qed
end
