(* ===== verification/Node_Samples.thy ===== *)
theory Node_Samples
  imports Config Consensus_Samples
begin

text \<open>
  Concrete connections, a node and a table-driven codec for the witnesses of the node's properties.
  The codec stands for \<^verbatim>\<open>serde_json\<close>: it knows a few messages and satisfies \<open>json_ok\<close>.
\<close>

definition faucet_sk :: bytes where
  "faucet_sk = [5]"

definition node_tx :: signed_transaction where
  "node_tx = tx_sign sample_crates faucet_sk
     (drip_txn (pad 32 faucet_sk) maker_key 0 account_info_new)"

text \<open>The same transaction under a signature that does not verify.\<close>

definition forged_tx :: signed_transaction where
  "forged_tx = node_tx\<lparr>st_signature := SignatureString (hex_encode (replicate 64 1))\<rparr>"

definition sample_codec :: "(message \<times> bytes) list" where
  "sample_codec =
     [(Connection (Hello 7), [1]), (Connection End, [2]), (Application Ack, [3]),
      (Application (SubmitTransaction node_tx), [4]), (Application AssetQueryMsg, [5]),
      (Application (AssetQueryResponseMsg (am_assets asset_manager_new)), [6])]"

definition sample_json :: json where
  "sample_json =
     \<lparr>j_message_to_vec = map_of sample_codec,
      j_message_from_slice = map_of (map prod.swap sample_codec),
      j_hotstuff_to_vec = (\<lambda>_. None)\<rparr>"

lemma map_of_swap:
  assumes "distinct (map snd xs)" "map_of xs a = Some b"
  shows "map_of (map prod.swap xs) b = Some a"
proof (rule map_of_is_SomeI)
  show "distinct (map fst (map prod.swap xs))" using assms(1) by (simp add: o_def)
  show "(b, a) \<in> set (map prod.swap xs)" using map_of_SomeD [OF assms(2)] by force
qed

lemma sample_json_ok: "json_ok sample_json"
  using map_of_swap [of sample_codec] by (simp add: json_ok_def sample_json_def sample_codec_def)

lemma sample_json_simps [simp]:
  "j_message_to_vec sample_json (Application AssetQueryMsg) = Some [5]"
  "j_message_to_vec sample_json (Application (AssetQueryResponseMsg (am_assets asset_manager_new))) = Some [6]"
  "j_message_to_vec sample_json (Application (SubmitTransaction node_tx)) = Some [4]"
  "j_message_to_vec sample_json (Application Ack) = Some [3]"
  "j_message_to_vec sample_json (Connection (Hello 7)) = Some [1]"
  by (simp_all add: sample_json_def sample_codec_def)

definition closed_reader :: "bytes \<Rightarrow> reader" where
  "closed_reader bs = \<lparr>rd_bytes = bs, rd_end = UnexpectedEof\<rparr>"

definition fresh_conn :: "bytes \<Rightarrow> conn" where
  "fresh_conn bs = \<lparr>cn_reader = closed_reader bs, cn_writer = \<lparr>wr_bytes = [], wr_room = None\<rparr>\<rparr>"

definition sample_host :: "bytes \<Rightarrow> host" where
  "sample_host bs =
     \<lparr>ho_node = node_new 0 faucet_sk, ho_conns = (\<lambda>_. fresh_conn bs), ho_channels = channels_new\<rparr>"

lemmas node_eval = sample_host_def fresh_conn_def closed_reader_def channels_new_def node_new_def

lemma node_tx_verifies: "verify_sender sample_crates node_tx = Some True"
  unfolding node_tx_def
  by (rule verify_sender_sign [OF sample_crates_hex sample_crates_signs])
    (simp add: drip_txn_def sample_crates_def)

lemma forged_tx_rejected: "verify_sender sample_crates forged_tx = Some False"
proof -
  define sig :: bytes where "sig = replicate 64 1"
  have len: "length sig = 64" by (simp add: sig_def)
  have "string_to_sig sample_crates (hex_encode sig) = Inr sig"
    using string_to_sig_roundtrip [OF sample_crates_hex len]
    by (simp add: sig_to_string_def sample_crates_def)
  moreover have "as_public_key sample_crates (pk_from_bytes sample_crates (pad 32 faucet_sk)) =
      Some (pad 32 faucet_sk)"
    using as_public_key_roundtrip [OF sample_crates_hex, of "pad 32 faucet_sk"]
    by (simp add: sample_crates_def)
  moreover have "\<not> x_verify_strict sample_crates (pad 32 faucet_sk) m sig" for m
    by (rule notI, simp add: sample_crates_def sig_def pad_def faucet_sk_def)
      (drule arg_cong [where f = hd], simp)
  ultimately show ?thesis
    by (simp add: forged_tx_def node_tx_def tx_sign_def drip_txn_def verify_sender_def
        verify_signature_def sig_def Let_def)
qed

text \<open>A node that has just started, with a transaction waiting on its first connection.\<close>

definition sample_system :: system where
  "sample_system = the (run_node sample_crates 0 faucet_sk sample_key {pad 32 sample_key}
     (sample_pacemaker 1) maker_key (\<lambda>_. fresh_conn (frame [4])))"

lemma sample_system_start:
  "run_node sample_crates 0 faucet_sk sample_key {pad 32 sample_key} (sample_pacemaker 1) maker_key
     (\<lambda>_. fresh_conn (frame [4])) = Some sample_system"
  by (simp add: sample_system_def run_node_def replica_new_def ledger_new_def asset_manager_new_def
      index_def create_genesis_block_def split: prod.splits)

lemma sample_system_host:
  "sy_host sample_system = sample_host (frame [4]) \<and> sy_taken sample_system = []"
proof -
  obtain r where "\<lparr>sy_host = sample_host (frame [4]), sy_replica = Some r, sy_taken = []\<rparr> = sample_system"
    using sample_system_start by (auto simp: run_node_def sample_host_def bind_eq_Some_conv)
  then show ?thesis by (metis system.select_convs(1) system.select_convs(3))
qed

lemma ledger_new_market:
  assumes "ledger_new pk = Some s"
  shows "\<exists>m. ch_markets (ls_spot_clearinghouse s) = [m] \<and> get_best_prices m = (None, None)"
  using assms unfolding ledger_new_def
  by (simp add: bind_eq_Some_conv add_market_def get_market_id_from_pair_def create_new_market_def
      add_faucet_account_def clearing_house_new_def spot_market_new_def get_best_prices_def vec_last_def Let_def
      split: prod.splits)
    (auto simp: get_best_prices_def vec_last_def)

lemma sample_system_replica:
  "\<exists>r m. sy_replica sample_system = Some r \<and>
     ch_markets (ls_spot_clearinghouse (hr_ledger_state r)) = [m] \<and> get_best_prices m = (None, None)"
proof -
  have "sy_replica S = replica_new X i sk V pm pk \<and> replica_new X i sk V pm pk \<noteq> None"
    if "run_node X i fk sk V pm pk conns = Some S" for X i fk sk V pm pk conns S
    using that by (auto simp: run_node_def bind_eq_Some_conv)
  from this [OF sample_system_start] obtain r where r: "sy_replica sample_system = Some r"
    and new: "replica_new sample_crates 0 sample_key {pad 32 sample_key} (sample_pacemaker 1) maker_key = Some r"
    by auto
  from new obtain s where "ledger_new maker_key = Some s" "hr_ledger_state r = s"
    by (auto simp: replica_new_def bind_eq_Some_conv create_genesis_block_def Let_def)
  with ledger_new_market r show ?thesis by blast
qed

lemma fresh_conn_receive:
  assumes "j_message_to_vec sample_json msg = Some bs" "length bs < 2 ^ 32"
  shows "receive_message sample_json (fresh_conn (frame bs @ rest)) = (Inr (Some msg), fresh_conn rest)"
  using receive_message_frame [OF sample_json_ok assms, of "fresh_conn (frame bs @ rest)" rest]
  by (simp add: fresh_conn_def closed_reader_def)

lemma sample_receive:
  assumes "j_message_to_vec sample_json msg = Some bs" "length bs < 2 ^ 32"
  shows "host_receive sample_json (sample_host (frame bs)) s =
     (Inr (Some msg), set_conn (sample_host (frame bs)) s (fresh_conn []))"
  using fresh_conn_receive [OF assms, of "[]"] by (simp add: host_receive_def sample_host_def)

text \<open>An environment for a single validator.\<close>

definition sample_env :: environment where
  "sample_env = [''NUM_VALIDATORS'' \<mapsto> ''1'', ''PUBLIC_KEY_0'' \<mapsto> hex_encode (pad 32 sample_key),
     ''SECRET_KEY_0'' \<mapsto> hex_encode (pad 32 sample_key), ''FAUCET_PK'' \<mapsto> hex_encode (pad 32 faucet_sk),
     ''FAUCET_SK'' \<mapsto> hex_encode (pad 32 faucet_sk), ''TICK_DURATION'' \<mapsto> ''1000'',
     ''MULTIPLICATIVE_FACTOR'' \<mapsto> ''2'']"

lemma show_nat_0 [simp]: "show_nat 0 = ''0''"
  by code_simp

lemma parse_samples [simp]:
  "parse_uint 64 ''1'' = Some 1" "parse_uint 64 ''0'' = Some 0" "parse_uint 64 ''1000'' = Some 1000"
  by (simp_all add: parse_uint_def digit_value_def checked_mul_def checked_add_def)

lemma pad_idem [simp]: "pad n (pad n bs) = pad n bs"
  by (simp add: pad_def)

lemma sample_key_bytes [simp]: "x_from_hex sample_crates 32 (hex_encode (pad 32 bs)) = Some (pad 32 bs)"
  "x_key_ok sample_crates (pad 32 bs)" "x_verifying_key sample_crates bs = pad 32 bs"
  by (simp_all add: sample_crates_def hex_roundtrip)

lemma sample_env_simps [simp]:
  "retrieve_num_validators sample_env = Some 1"
  "retrieve_signing_key_checked sample_crates sample_env 0 = Some (pad 32 sample_key)"
  "retrieve_validator_set sample_crates sample_env = Some {pad 32 sample_key}"
  "retrieve_faucet_keys sample_crates sample_env = Some (pad 32 faucet_sk, pad 32 faucet_sk)"
  "pacemaker_from_env (\<lambda>_. Some (\<lambda>_. 2)) sample_env 0 = Some (pacemaker_new 1 1000000000 (\<lambda>_. 2) 0)"
  by (simp_all add: retrieve_num_validators_def retrieve_signing_key_checked_def retrieve_signing_key_def
      retrieve_verifying_key_def retrieve_validator_set_def retrieve_faucet_keys_def public_key_def
      key_bytes_def pacemaker_from_env_def retrieve_tick_duration_def retrieve_multiplicative_factor_def
      sample_env_def)

lemma sample_startup:
  "startup sample_env [''superliquid'', ''node'', ''0''] = Some (0, node_addr 8000, node_addr 6400, [])"
  by (simp add: startup_def node_index_of_def index_def node_port_def checked_add_def)

lemma sample_replica_starts:
  "\<exists>r. replica_from_env sample_crates (\<lambda>_. Some (\<lambda>_. 2)) sample_env 0 0 = Some r"
  by (simp add: replica_from_env_def replica_new_def ledger_new_def asset_manager_new_def index_def
      create_genesis_block_def split: prod.splits)

end
