(* ===== verification/Node_Properties.thy ===== *)
theory Node_Properties
  imports Node_Samples
begin

text \<open>
  Properties of the node, its protocol and its configuration.
\<close>

section \<open>Framing\<close>

text \<open>
  C21. Framing round trip: whatever sequence of payloads shorter than 4 GiB is sent over an undisturbed
  connection that is then closed, the receiver gets exactly these payloads, in order, and then the
  clean end of the stream.\<close>

theorem frames_roundtrip:
  assumes "\<forall>d\<in>set ds. length d < 2 ^ 32" "wr_room w = None" "wr_bytes w = []"
    and "rd_bytes r = wr_bytes (send_all w ds)" "rd_end r = UnexpectedEof"
  shows "receive_all (length ds) r = (ds, Inr None)"
  using assms by (simp add: send_all_frames receive_all_frames)

theorem frames_roundtrip_witness:
  "receive_all (Suc (Suc 0)) (closed_reader (wr_bytes (send_all \<lparr>wr_bytes = [], wr_room = None\<rparr> [[1, 2], []]))) =
   ([[1, 2], []], Inr None)"
  using frames_roundtrip [of "[[1, 2], []]" "\<lparr>wr_bytes = [], wr_room = None\<rparr>"
    "closed_reader (wr_bytes (send_all \<lparr>wr_bytes = [], wr_room = None\<rparr> [[1, 2], []]))"]
  by (simp add: closed_reader_def del: send_all.simps receive_all.simps)

section \<open>Queries\<close>

text \<open>The client calls, by the query they stand for.\<close>

fun retag :: "('a \<Rightarrow> client_response) \<Rightarrow> (io_error + 'a) \<times> conn \<Rightarrow> (io_error + client_response) \<times> conn" where
  "retag f (Inl e, c) = (Inl e, c)"
| "retag f (Inr x, c) = (Inr (f x), c)"

fun ask :: "json \<Rightarrow> conn \<Rightarrow> client_query \<Rightarrow> (io_error + client_response) \<times> conn" where
  "ask J c (AccountQuery pk) = retag AccountQueryReponse (send_account_query J c pk)"
| "ask J c AssetQuery = retag AssetQueryResponse (send_assets_query J c)"
| "ask J c (MarketInfoQuery m) = retag MarketInfoQueryResponse (send_market_info_query J c m)"
| "ask J c MarketsQuery = retag MarketsQueryResponse (send_markets_query J c)"

fun question :: "client_query \<Rightarrow> message" where
  "question (AccountQuery pk) = Application (AccountQueryMsg pk)"
| "question AssetQuery = Application AssetQueryMsg"
| "question (MarketInfoQuery m) = Application (MarketInfoQueryMsg m)"
| "question MarketsQuery = Application MarketsQueryMsg"

fun reply :: "client_response \<Rightarrow> message" where
  "reply (AccountQueryReponse i) = Application (AccountQueryResponseMsg i)"
| "reply (AssetQueryResponse i) = Application (AssetQueryResponseMsg i)"
| "reply (MarketInfoQueryResponse i) = Application (MarketInfoQueryResponseMsg i)"
| "reply (MarketsQueryResponse i) = Application (MarketsQueryResponseMsg i)"

lemma client_dispatch_question:
  "cl_replica_open (ho_channels h) \<Longrightarrow>
   client_dispatch X J (Some r) h s (Some (question q)) =
     go_on (host_send J h s (reply (replica_handle_query r q)))"
  by (cases q) (simp_all add: query_running replica_handle_query_def)

lemma ask_exchange:
  assumes "exchange J c (question q) = (Inr (Some (reply (replica_handle_query r q))), c')"
  shows "ask J c q = (Inr (replica_handle_query r q), c')"
  using assms
  by (cases q) (simp_all add: replica_handle_query_def send_account_query_def send_assets_query_def
      send_markets_query_def send_market_info_query_def)

text \<open>
  C16. Queries are answered with the right type and the right value: when the bytes a client writes for
  a query reach a node whose replica runs, one round of the node's connection loop handles them and
  goes on, and when the bytes it wrote reach the client, the client's call returns exactly what the
  replica's ledger says; the \<open>InvalidData\<close> branches of both sides are not taken.  The four kinds of
  query are covered; the codec only has to read back what it wrote and messages to stay below 4 GiB.\<close>

theorem query_end_to_end:
  assumes "json_ok J" "cl_replica_open (ho_channels h)"
    and "j_message_to_vec J (question q) = Some qb" "length qb < 2 ^ 32"
    and "j_message_to_vec J (reply (replica_handle_query r q)) = Some rb" "length rb < 2 ^ 32"
    and "rd_bytes (cn_reader (ho_conns h s)) = wr_bytes (cn_writer (snd (send_message J c0 (question q))))"
    and "cn_writer c0 = \<lparr>wr_bytes = [], wr_room = None\<rparr>"
    and "cn_writer (ho_conns h s) = \<lparr>wr_bytes = [], wr_room = None\<rparr>"
    and "cn_writer c = \<lparr>wr_bytes = [], wr_room = None\<rparr>"
  shows "\<exists>h'. client_step X J (Some r) h s = Continue h' \<and>
    (rd_bytes (cn_reader c) = wr_bytes (cn_writer (ho_conns h' s)) \<longrightarrow>
      fst (ask J c q) = Inr (replica_handle_query r q))"
proof -
  have sent: "rd_bytes (cn_reader (ho_conns h s)) = frame qb @ []"
    using assms by (simp add: send_message_def send_data_frame)
  define h1 where "h1 = set_conn h s ((ho_conns h s)\<lparr>cn_reader := (cn_reader (ho_conns h s))\<lparr>rd_bytes := []\<rparr>\<rparr>)"
  have recv: "host_receive J h s = (Inr (Some (question q)), h1)"
    using receive_message_frame [OF assms(1,3,4) sent] by (simp add: host_receive_def h1_def)
  have open1: "cl_replica_open (ho_channels h1)"
    using assms(2) by (simp add: h1_def set_conn_def)
  have w1: "cn_writer (ho_conns h1 s) = \<lparr>wr_bytes = [], wr_room = None\<rparr>"
    using assms by (simp add: h1_def set_conn_def)
  define h2 where "h2 = snd (host_send J h1 s (reply (replica_handle_query r q)))"
  have send: "host_send J h1 s (reply (replica_handle_query r q)) = (Inr (), h2)"
    using assms w1 by (simp add: h2_def host_send_def send_message_def)
  then have cont: "client_step X J (Some r) h s = Continue h2"
    using client_dispatch_question [OF open1] by (simp add: client_step_def recv)
  have out: "wr_bytes (cn_writer (ho_conns h2 s)) = frame rb"
    using w1 assms by (simp add: h2_def host_send_def send_message_def send_data_frame set_conn_def)
  have "fst (ask J c q) = Inr (replica_handle_query r q)" if "rd_bytes (cn_reader c) = frame rb"
  proof -
    have room: "wr_room (cn_writer c) = None" using assms by simp
    have rb: "rd_bytes (cn_reader c) = frame rb @ []" using that by simp
    show ?thesis using ask_exchange [OF exchange_answer [OF assms(1,3) room assms(5,6) rb]] by simp
  qed
  with cont out show ?thesis by auto
qed

theorem query_end_to_end_witness:
  "\<exists>h'. client_step sample_crates sample_json (Some (sample_replica 1)) (sample_host (frame [5])) 0 = Continue h' \<and>
    (rd_bytes (cn_reader (fresh_conn (frame [6]))) = wr_bytes (cn_writer (ho_conns h' 0)) \<longrightarrow>
      fst (ask sample_json (fresh_conn (frame [6])) AssetQuery) =
      Inr (replica_handle_query (sample_replica 1) AssetQuery))"
proof (rule query_end_to_end [where ?c0.0 = "fresh_conn []" and qb = "[5]" and rb = "[6]", OF sample_json_ok])
  show "j_message_to_vec sample_json (reply (replica_handle_query (sample_replica 1) AssetQuery)) = Some [6]"
    by (simp add: replica_handle_query_def get_asset_info_def sample_replica_def sample_ledger_def)
  show "rd_bytes (cn_reader (ho_conns (sample_host (frame [5])) 0)) =
      wr_bytes (cn_writer (snd (send_message sample_json (fresh_conn []) (question AssetQuery))))"
    by (simp add: node_eval send_message_def send_data_frame)
qed (simp_all add: node_eval)

section \<open>Transactions\<close>

text \<open>
  C12. A transaction reaches the replica at most once: in every reachable state of a running node, over
  everything its replica has taken from its inbox and everything still waiting there, no two
  transactions have the same content hash, all of them are in the node's list, and the list, the set of
  seen hashes and the table of peers are consistent.  Clients, peers and the network may do anything,
  in any order.\<close>

theorem transactions_forwarded_once:
  assumes "system_reachable X J S"
  shows "distinct (map (content_key X) (inbox_transactions (sy_taken S @ cl_to_replica (ho_channels (sy_host S))))) \<and>
    set (inbox_transactions (sy_taken S @ cl_to_replica (ho_channels (sy_host S)))) \<subseteq>
      set (nd_transactions (ho_node (sy_host S))) \<and>
    node_ok X (ho_node (sy_host S))"
proof -
  have ok: "node_ok X (ho_node (sy_host S))" and sub: "subseq
      (inbox_transactions (sy_taken S @ cl_to_replica (ho_channels (sy_host S))))
      (nd_transactions (ho_node (sy_host S)))"
    using system_reachable_ok [OF assms] by (simp_all add: system_ok_def)
  have "subseq (map (content_key X) (inbox_transactions (sy_taken S @ cl_to_replica (ho_channels (sy_host S)))))
      (map (content_key X) (nd_transactions (ho_node (sy_host S))))"
    by (rule subseq_map [OF sub])
  then have "distinct (map (content_key X)
      (inbox_transactions (sy_taken S @ cl_to_replica (ho_channels (sy_host S)))))"
    by (rule subseq_distinct) (use ok in \<open>simp add: node_ok_def\<close>)
  with ok subseq_set [OF sub] show ?thesis by blast
qed

lemma sample_forwarded:
  "inbox_transactions (cl_to_replica (ho_channels (step_host
     (client_step sample_crates sample_json rep (sample_host (frame [4])) 0)))) = [node_tx]"
proof -
  have "client_step sample_crates sample_json rep (sample_host (frame [4])) 0 =
      go_on_opt (set_conn (sample_host (frame [4])) 0 (fresh_conn [])) (handle_transaction sample_crates
        sample_json (set_conn (sample_host (frame [4])) 0 (fresh_conn [])) node_tx)"
    by (simp add: client_step_def sample_receive [of "Application (SubmitTransaction node_tx)"])
  then show ?thesis
    by (simp add: handle_transaction_def node_tx_verifies note_transaction_def Let_def go_on_opt_def
      broadcast_transaction_def send_to_replica_def set_node_def set_conn_def sample_host_def
      get_peer_connections_as_vec_def node_new_def channels_new_def)
qed

theorem transactions_forwarded_once_witness:
  "\<exists>S. system_reachable sample_crates sample_json S \<and>
    inbox_transactions (sy_taken S @ cl_to_replica (ho_channels (sy_host S))) = [node_tx] \<and>
    node_ok sample_crates (ho_node (sy_host S))"
proof -
  define S where "S = sample_system\<lparr>sy_host := step_host
    (client_step sample_crates sample_json (sy_replica sample_system) (sy_host sample_system) 0)\<rparr>"
  have reach: "system_reachable sample_crates sample_json S"
    unfolding S_def
    by (rule system_reachable.step [OF system_reachable.start [OF sample_system_start] system_step.client])
  moreover have "inbox_transactions (sy_taken S @ cl_to_replica (ho_channels (sy_host S))) = [node_tx]"
    by (simp add: S_def sample_system_host sample_forwarded)
  ultimately show ?thesis using transactions_forwarded_once [OF reach] by blast
qed

text \<open>
  C37. A copy with a wrong signature suppresses the genuine transaction: the node ignores the result of the
  signature check and remembers the hash of the contents, so once it has handled a copy whose
  signature does not verify, the properly signed transaction changes nothing and never reaches the
  replica.\<close>

theorem forged_copy_suppresses:
  assumes "verify_sender X forged = Some False" "verify_sender X genuine = Some True"
    and "st_tx forged = st_tx genuine" "content_key X genuine \<notin> nd_seen_transactions (ho_node h)"
    and "handle_transaction X J h forged = Some (res, h1)" "cl_replica_open (ho_channels h)"
  shows "cl_to_replica (ho_channels h1) = cl_to_replica (ho_channels h) @ [InTransaction forged] \<and>
    handle_transaction X J h1 genuine = Some (Inr (), h1)"
  using assms
  by (auto simp: handle_transaction_def note_transaction_def content_key_def Let_def set_node_def
      broadcast_transaction_def send_to_replica_def)

theorem forged_copy_suppresses_witness:
  "\<exists>res h1. handle_transaction sample_crates sample_json (sample_host []) forged_tx = Some (res, h1) \<and>
    cl_to_replica (ho_channels h1) = [InTransaction forged_tx] \<and>
    handle_transaction sample_crates sample_json h1 node_tx = Some (Inr (), h1)"
proof -
  have run: "\<exists>res h1. handle_transaction sample_crates sample_json (sample_host []) forged_tx = Some (res, h1)"
    by (simp add: handle_transaction_def forged_tx_rejected note_transaction_def node_eval Let_def
        broadcast_transaction_def)
  then obtain res h1 where
    "handle_transaction sample_crates sample_json (sample_host []) forged_tx = Some (res, h1)" by blast
  with forged_copy_suppresses [OF forged_tx_rejected node_tx_verifies, of "sample_host []" sample_json res h1]
  show ?thesis by (simp add: node_eval forged_tx_def)
qed

section \<open>The books of a running node\<close>

text \<open>
  C5. Whatever clients, peers and the network do to a running node, every market of its replica has
  bids and asks sorted by price with the orders of a level in the order of their ids, no two resting
  orders with one id, only ids below the order counter, and a best bid below the best ask.\<close>

theorem reachable_books_uncrossed:
  assumes "system_reachable X J S" "sy_replica S = Some r"
    and "m \<in> set (ch_markets (ls_spot_clearinghouse (hr_ledger_state r)))"
  shows "market_sane m \<and> market_ids_below m (om_next_id (ls_order_manager (hr_ledger_state r))) \<and>
    (\<forall>b a. get_best_prices m = (Some b, Some a) \<longrightarrow> b < a)"
proof -
  have "ledger_sane (hr_ledger_state r)"
    using system_reachable_ok [OF assms(1)] assms(2) by (auto simp: system_ok_def intro: reachable_sane)
  then show ?thesis
    using assms(3) best_prices_uncrossed by (auto simp: ledger_sane_def house_sane_def)
qed

theorem reachable_books_uncrossed_witness:
  "\<exists>r m. sy_replica sample_system = Some r \<and>
     ch_markets (ls_spot_clearinghouse (hr_ledger_state r)) = [m] \<and> market_sane m \<and>
     get_best_prices m = (None, None)"
proof -
  obtain r m where r: "sy_replica sample_system = Some r"
    and m: "ch_markets (ls_spot_clearinghouse (hr_ledger_state r)) = [m]" "get_best_prices m = (None, None)"
    using sample_system_replica by blast
  have "system_reachable sample_crates sample_json sample_system"
    by (rule system_reachable.start [OF sample_system_start])
  from reachable_books_uncrossed [OF this r, of m] r m show ?thesis by simp
qed

section \<open>Connections\<close>

lemma closed_client_step:
  assumes "length (incoming h s) < 4" "rd_end (cn_reader (ho_conns h s)) = UnexpectedEof"
  shows "\<exists>h'. client_step X J answering h s = Continue h' \<and> length (incoming h' s) < 4 \<and>
    rd_end (cn_reader (ho_conns h' s)) = UnexpectedEof"
  using receive_message_closed [OF assms]
  by (auto simp: client_step_def host_receive_def set_conn_def assms(2))

text \<open>
  C39. A client that disconnects without saying so is served forever: once the stream of a client
  connection has ended, with no or only part of a length prefix left, the loop of that connection
  never returns; the end of the stream is taken for an uninteresting message.\<close>

theorem disconnected_client_spins:
  assumes "length (incoming h s) < 4" "rd_end (cn_reader (ho_conns h s)) = UnexpectedEof"
  shows "handle_client_connection X J answering i h s = None"
proof -
  have "\<not> (length (incoming h s) < 4 \<and> rd_end (cn_reader (ho_conns h s)) = UnexpectedEof)"
    if "handle_client_connection X J answering i h s = Some y" for y
  proof (rule handle_client_connection.raw_induct [OF _ that])
    fix loop X J answering i h s y
    assume IH: "\<And>X J answering i h s y. loop X J answering i h s = Some y \<Longrightarrow>
        \<not> (length (incoming h s) < 4 \<and> rd_end (cn_reader (ho_conns h s)) = UnexpectedEof)"
      and eq: "(case client_step X J (answering i) h s of
          Continue h1 \<Rightarrow> loop X J answering (Suc i) h1 s | fin \<Rightarrow> Some fin) = Some y"
    show "\<not> (length (incoming h s) < 4 \<and> rd_end (cn_reader (ho_conns h s)) = UnexpectedEof)"
    proof
      assume "length (incoming h s) < 4 \<and> rd_end (cn_reader (ho_conns h s)) = UnexpectedEof"
      then obtain h' where step: "client_step X J (answering i) h s = Continue h'"
        and closed: "length (incoming h' s) < 4" "rd_end (cn_reader (ho_conns h' s)) = UnexpectedEof"
        using closed_client_step by blast
      from eq step have "loop X J answering (Suc i) h' s = Some y" by simp
      from IH [OF this] closed show False by blast
    qed
  qed
  with assms show ?thesis by (cases "handle_client_connection X J answering i h s") auto
qed

theorem disconnected_client_spins_witness:
  "handle_client_connection sample_crates sample_json (\<lambda>_. None) 0 (sample_host []) 0 = None"
  by (rule disconnected_client_spins) (simp_all add: node_eval)

text \<open>
  C31. The loop of a peer connection ends, and never successfully: whatever finite stream a peer sends, the
  loop returns an error or panics, and the task that runs it removes the peer from the table except
  after a panic, which leaves the dead connection in it.\<close>

theorem peer_connection_ends:
  "(\<exists>e h'. handle_peer_connection X J h s = Return (Inl e) h' \<and>
      pid \<notin> fst ` set (nd_peer_connections (ho_node (peer_task X J h pid s)))) \<or>
   (\<exists>h'. handle_peer_connection X J h s = Panicked h' \<and> peer_task X J h pid s = h')"
proof -
  have "(\<exists>e h'. handle_peer_connection X J h s = Return (Inl e) h') \<or>
      (\<exists>h'. handle_peer_connection X J h s = Panicked h')"
  proof (induction X J h s rule: handle_peer_connection.induct)
    case (1 X J h s)
    have "\<exists>e h'. r = Inl e" if "peer_step X J h s = Return r h'" for r h'
      using that by (auto simp: peer_step_def go_on_opt_def split: prod.splits sum.splits option.splits
          elim!: peer_dispatch.elims dest: go_on_Return)
    with 1 show ?case
      by (cases "peer_step X J h s") (auto simp: handle_peer_connection.simps [of X J h s])
  qed
  then show ?thesis
    by (auto simp: peer_task_def drop_peer_socket_def set_node_def Let_def dom_map_of_conv_image_fst [symmetric]
      AList.delete_conv')
qed

text \<open>
  C33. The back-off of the connecting side is bounded and never overflows: after any number of refused
  attempts it is still trying, having slept 100 ms, 10 s and then one minute each time; \<^verbatim>\<open>100.pow(counts)\<close>
  stays within \<^verbatim>\<open>u32\<close>.\<close>

theorem backoff_bounded:
  "connect_to_peer J h pid (replicate n ConnectFailed) =
     (take n ([100, 10000] @ replicate n 60000), StillTrying h)"
proof -
  have late: "connect_loop J h pid 3 (replicate m ConnectFailed) = (replicate m 60000, StillTrying h)" for m
    by (induction m) (simp_all add: backoff_def backoff_base_def backoff_max_def checked_pow_def)
  have steps: "connect_loop J h pid n (ConnectFailed # as) =
      (case connect_loop J h pid (Suc n) as of (ss, res) \<Rightarrow> (100 ^ n # ss, res))" if "n \<in> {1, 2}" for n as
    using that by (auto simp: backoff_def backoff_base_def backoff_max_def checked_pow_def)
  consider "n = 0" | "n = 1" | m where "n = Suc (Suc m)" by (metis One_nat_def not0_implies_Suc)
  then show ?thesis
  proof cases
    case (3 m)
    have "take m (60000 # 60000 # replicate m 60000) = (replicate m 60000 :: nat list)"
      using take_replicate [of m "Suc (Suc m)" "60000 :: nat"] by simp
    with 3 late [of m] show ?thesis
      by (simp add: connect_to_peer_def steps numeral_2_eq_2 [symmetric] numeral_3_eq_3 [symmetric]
          del: connect_loop.simps)
  qed (simp_all add: connect_to_peer_def steps del: connect_loop.simps(3))
qed

section \<open>Configuration\<close>

text \<open>
  C29. A configured replica is one of its own validators: when the environment is good enough for the
  program to start as node \<open>i\<close> and for its replica to be built, the replica's id is one of the
  pacemaker's ids, the key of its signing key is in its validator set, its validator set is exactly
  the configured keys, and its peers are exactly the other ids.\<close>

theorem configured_replica_is_validator:
  assumes "startup env args = Some (i, client_addr, consensus_addr, peers)"
    and "replica_from_env X parse_f32 env now i = Some r"
  shows "hr_node_id r \<in> set (pa_replica_ids (hr_pacemaker r)) \<and>
    x_verifying_key X (hr_signing_key r) \<in> hr_validator_set r \<and>
    hr_validator_set r = {pk. \<exists>j\<in>set (pa_replica_ids (hr_pacemaker r)). retrieve_verifying_key X env j = Some pk} \<and>
    set (map pi_peer_id peers) = set (pa_replica_ids (hr_pacemaker r)) - {hr_node_id r}"
proof -
  obtain n where n: "retrieve_num_validators env = Some n"
    using assms(1) by (auto simp: startup_def bind_eq_Some_conv)
  from startup_peers [OF assms(1) n] configured_key [OF assms(2) n]
    validator_set_spec [OF configured_key(4) [OF assms(2) n] n]
  show ?thesis by auto
qed

theorem configured_replica_is_validator_witness:
  "\<exists>r. replica_from_env sample_crates (\<lambda>_. Some (\<lambda>_. 2)) sample_env 0 0 = Some r \<and>
    x_verifying_key sample_crates (hr_signing_key r) \<in> hr_validator_set r"
proof -
  obtain r where "replica_from_env sample_crates (\<lambda>_. Some (\<lambda>_. 2)) sample_env 0 0 = Some r"
    using sample_replica_starts by blast
  with configured_replica_is_validator [OF sample_startup this] show ?thesis by blast
qed

end
