(* ===== verification/Floats.thy ===== *)
theory Floats
  imports Complex_Main "HOL-Library.Log_Nat" Config
begin

text \<open>
  The \<open>f64\<close> arithmetic that the console applies to typed amounts and prices: IEEE binary64 values as
  rationals with infinities and a NaN, rounding to nearest with ties to even, the decimal grammar of
  \<^verbatim>\<open>str::parse::<f64>\<close>, and the saturating cast to \<open>u64\<close>.  The two zeros are one value; the sign of a
  zero never matters to the operations used.
\<close>

section \<open>Rounding\<close>

datatype f64 = FFin rat | FInf bool | FNan

text \<open>The binary exponent of a positive rational.\<close>

definition floor_log2 :: "rat \<Rightarrow> int" where
  "floor_log2 x =
     (let (n, d) = quotient_of x;
          k = int (floorlog 2 (nat n)) - int (floorlog 2 (nat d))
      in if 2 powi k \<le> x then k else k - 1)"

definition round_even :: "rat \<Rightarrow> int" where
  "round_even x =
     (let f = \<lfloor>x\<rfloor>; r = x - of_int f
      in if r < 1 / 2 then f else if 1 / 2 < r then f + 1 else if even f then f else f + 1)"

text \<open>Values have 53 significant bits and no bit below \<open>2 powi -1074\<close>.\<close>

definition ulp :: "rat \<Rightarrow> rat" where
  "ulp x = 2 powi (max (floor_log2 x - 52) (- 1074))"

definition f64_nearest :: "rat \<Rightarrow> rat" where
  "f64_nearest x =
     (if x = 0 then 0 else sgn x * (of_int (round_even (\<bar>x\<bar> / ulp \<bar>x\<bar>)) * ulp \<bar>x\<bar>))"

definition f64_of :: "rat \<Rightarrow> f64" where
  "f64_of x = (let y = f64_nearest x in if 2 ^ 1024 \<le> \<bar>y\<bar> then FInf (y < 0) else FFin y)"

section \<open>Operations\<close>

fun f64_mul :: "f64 \<Rightarrow> f64 \<Rightarrow> f64" where
  "f64_mul (FFin x) (FFin y) = f64_of (x * y)"
| "f64_mul (FInf s) (FFin y) = (if y = 0 then FNan else FInf (s \<noteq> (y < 0)))"
| "f64_mul (FFin x) (FInf s) = (if x = 0 then FNan else FInf ((x < 0) \<noteq> s))"
| "f64_mul (FInf s) (FInf t) = FInf (s \<noteq> t)"
| "f64_mul FNan _ = FNan"
| "f64_mul _ FNan = FNan"

text \<open>The division is only ever by a power of ten, which is finite and positive.\<close>

fun f64_div_pos :: "f64 \<Rightarrow> rat \<Rightarrow> f64" where
  "f64_div_pos (FFin x) y = f64_of (x / y)"
| "f64_div_pos v _ = v"

definition f64_of_nat :: "nat \<Rightarrow> f64" where
  "f64_of_nat n = f64_of (of_nat n)"

text \<open>\<^verbatim>\<open>f64::round\<close>: halves go away from zero.\<close>

fun f64_round :: "f64 \<Rightarrow> f64" where
  "f64_round (FFin x) = FFin (sgn x * of_int \<lfloor>\<bar>x\<bar> + 1 / 2\<rfloor>)"
| "f64_round v = v"

text \<open>\<open>as u64\<close> truncates and saturates; NaN becomes zero.\<close>

fun f64_as_u64 :: "f64 \<Rightarrow> nat" where
  "f64_as_u64 (FFin x) = min (nat \<lfloor>x\<rfloor>) (2 ^ 64 - 1)"
| "f64_as_u64 (FInf negative) = (if negative then 0 else 2 ^ 64 - 1)"
| "f64_as_u64 FNan = 0"

fun f64_negative :: "f64 \<Rightarrow> bool" where
  "f64_negative (FFin x) = (x < 0)"
| "f64_negative (FInf negative) = negative"
| "f64_negative FNan = False"

section \<open>Parsing\<close>

definition is_digit :: "char \<Rightarrow> bool" where
  "is_digit c \<longleftrightarrow> digit_value c \<noteq> None"

definition digits_nat :: "string \<Rightarrow> nat" where
  "digits_nat s = foldl (\<lambda>a c. 10 * a + (case digit_value c of Some d \<Rightarrow> d | None \<Rightarrow> 0)) 0 s"

definition parse_sign :: "string \<Rightarrow> bool \<times> string" where
  "parse_sign s =
     (case s of
        [] \<Rightarrow> (False, [])
      | c # cs \<Rightarrow> if c = CHR ''-'' then (True, cs) else if c = CHR ''+'' then (False, cs) else (False, s))"

definition parse_exponent :: "string \<Rightarrow> int option" where
  "parse_exponent s =
     (case s of
        [] \<Rightarrow> Some 0
      | c # cs \<Rightarrow>
          if c = CHR ''e'' \<or> c = CHR ''E'' then
            (let (neg, ds) = parse_sign cs
             in if ds = [] \<or> \<not> list_all is_digit ds then None
                else Some (if neg then - int (digits_nat ds) else int (digits_nat ds)))
          else None)"

definition parse_decimal :: "string \<Rightarrow> rat option" where
  "parse_decimal s =
     (let whole = takeWhile is_digit s; s1 = dropWhile is_digit s;
          (frac, s2) = (case s1 of
             [] \<Rightarrow> ([], [])
           | c # cs \<Rightarrow> if c = CHR ''.'' then (takeWhile is_digit cs, dropWhile is_digit cs) else ([], s1))
      in if whole = [] \<and> frac = [] then None
         else map_option (\<lambda>e. of_nat (digits_nat (whole @ frac)) * 10 powi (e - int (length frac)))
                (parse_exponent s2))"

text \<open>\<^verbatim>\<open>to_ascii_lowercase\<close> and \<^verbatim>\<open>to_ascii_uppercase\<close> of one character.\<close>

definition ascii_lower :: "char \<Rightarrow> char" where
  "ascii_lower c = (let n = of_char c in if 65 \<le> n \<and> n \<le> (90 :: nat) then char_of (n + 32) else c)"

definition ascii_upper :: "char \<Rightarrow> char" where
  "ascii_upper c = (let n = of_char c in if 97 \<le> n \<and> n \<le> (122 :: nat) then char_of (n - 32) else c)"

definition parse_f64 :: "string \<Rightarrow> f64 option" where
  "parse_f64 s =
     (let (neg, t) = parse_sign s; u = map ascii_lower t
      in if u = ''inf'' \<or> u = ''infinity'' then Some (FInf neg)
         else if u = ''nan'' then Some FNan
         else map_option (\<lambda>x. f64_of (if neg then - x else x)) (parse_decimal t))"

section \<open>Bounds\<close>

lemma floorlog2_bounds:
  assumes "0 < n"
  shows "(2::rat) powi (int (floorlog 2 n) - 1) \<le> of_nat n" "of_nat n < (2::rat) powi int (floorlog 2 n)"
proof -
  have "2 ^ (floorlog 2 n - 1) \<le> n" "n < 2 ^ floorlog 2 n" and pos: "0 < floorlog 2 n"
    using floorlog_bounds [of n 2] assms floorlog_eq_zero_iff [of 2 n] by auto
  then have "(of_nat (2 ^ (floorlog 2 n - 1)) :: rat) \<le> of_nat n" "(of_nat n :: rat) < of_nat (2 ^ floorlog 2 n)"
    by (simp_all only: of_nat_le_iff of_nat_less_iff)
  moreover have "int (floorlog 2 n) - 1 = int (floorlog 2 n - 1)" using pos by simp
  ultimately show "(2::rat) powi (int (floorlog 2 n) - 1) \<le> of_nat n" "of_nat n < (2::rat) powi int (floorlog 2 n)"
    by (simp_all only: power_int_of_nat of_nat_power of_nat_numeral)
qed

lemma floor_log2_bounds:
  assumes "0 < x"
  shows "2 powi floor_log2 x \<le> x" "x < 2 powi (floor_log2 x + 1)"
proof -
  obtain n d where nd: "quotient_of x = (n, d)" by force
  have d: "0 < d" and x: "x = of_int n / of_int d" using nd quotient_of_denom_pos quotient_of_div by auto
  have n: "0 < n" using assms x d by (simp add: zero_less_divide_iff)
  define k where "k = int (floorlog 2 (nat n)) - int (floorlog 2 (nat d))"
  note bn = floorlog2_bounds [of "nat n"] and bd = floorlog2_bounds [of "nat d"]
  have "x < 2 powi int (floorlog 2 (nat n)) / 2 powi (int (floorlog 2 (nat d)) - 1)"
    unfolding x using bn bd n d by (intro frac_less) (auto simp: of_nat_nat)
  then have up: "x < 2 powi (k + 1)" by (simp add: k_def power_int_diff power_int_add algebra_simps)
  have "2 powi (int (floorlog 2 (nat n)) - 1) / 2 powi int (floorlog 2 (nat d)) \<le> x"
    unfolding x using bn bd n d by (intro frac_le) (auto simp: of_nat_nat)
  then have low: "2 powi (k - 1) \<le> x" by (simp add: k_def power_int_diff power_int_add algebra_simps)
  show "2 powi floor_log2 x \<le> x" "x < 2 powi (floor_log2 x + 1)"
    using up low by (auto simp: floor_log2_def nd k_def [symmetric] Let_def)
qed

lemma round_even_error: "\<bar>of_int (round_even x) - x\<bar> \<le> 1 / 2"
proof -
  have "of_int \<lfloor>x\<rfloor> \<le> x" "x < of_int \<lfloor>x\<rfloor> + 1" by linarith+
  then show ?thesis by (simp add: round_even_def Let_def abs_le_iff)
qed

lemma ulp_pos [simp]: "0 < ulp x"
  by (simp add: ulp_def)

lemma nearest_error_ulp:
  assumes "0 < x"
  shows "\<bar>f64_nearest x - x\<bar> \<le> ulp x / 2"
proof -
  have "f64_nearest x - x = (of_int (round_even (x / ulp x)) - x / ulp x) * ulp x"
    using assms by (simp add: f64_nearest_def left_diff_distrib less_imp_neq [OF ulp_pos, symmetric])
  also have "\<bar>\<dots>\<bar> \<le> 1 / 2 * ulp x"
    unfolding abs_mult using round_even_error by (intro mult_mono) (auto simp: less_imp_le)
  finally show ?thesis by simp
qed

lemma nearest_error:
  assumes "2 powi - 1022 \<le> x"
  shows "\<bar>f64_nearest x - x\<bar> \<le> x / 2 ^ 53"
proof -
  have x: "0 < x" using assms less_le_trans [of 0 "2 powi - 1022" x] by simp
  have "(2::rat) powi - 1022 < 2 powi (floor_log2 x + 1)"
    using assms floor_log2_bounds(2) [OF x] by simp
  then have "- 1022 \<le> floor_log2 x"
    using power_int_increasing [of "floor_log2 x + 1" "- 1022" "2::rat"] by (cases "- 1022 \<le> floor_log2 x") auto
  then have "max (floor_log2 x - 52) (- 1074) = floor_log2 x - 52" by linarith
  then have "ulp x = 2 powi (floor_log2 x - 52)" by (simp only: ulp_def)
  then have "ulp x * 2 ^ 52 = 2 powi floor_log2 x" by (simp add: power_int_diff)
  then have "ulp x / 2 \<le> x / 2 ^ 53" using floor_log2_bounds(1) [OF x] by (simp add: field_simps)
  with nearest_error_ulp [OF x] show ?thesis by simp
qed

section \<open>Decimals survive scaling\<close>

lemma f64_of_close:
  assumes "1 / 2 ^ 100 \<le> x" "x \<le> 2 ^ 200"
  shows "\<exists>y. f64_of x = FFin y \<and> x * (1 - 1 / 2 ^ 53) \<le> y \<and> y \<le> x * (1 + 1 / 2 ^ 53)"
proof -
  have "(2::rat) powi - 1022 \<le> 2 powi - 100" by (rule power_int_increasing) auto
  also have "\<dots> = 1 / 2 ^ 100" by (simp add: power_int_minus_divide)
  finally have err: "\<bar>f64_nearest x - x\<bar> \<le> x / 2 ^ 53" using assms(1) by (intro nearest_error) simp
  then have close: "x * (1 - 1 / 2 ^ 53) \<le> f64_nearest x" "f64_nearest x \<le> x * (1 + 1 / 2 ^ 53)"
    unfolding right_diff_distrib distrib_left times_divide_eq_right mult_1_right by linarith+
  have "\<bar>f64_nearest x\<bar> < 2 ^ 1024"
  proof -
    have "x * (1 + 1 / 2 ^ 53) \<le> 2 ^ 200 * 2" using assms(2) by (intro mult_mono) auto
    moreover have "0 \<le> x * (1 - 1 / 2 ^ 53)" using assms(1) by (intro mult_nonneg_nonneg) auto
    moreover have "(2::rat) ^ 200 * 2 < 2 ^ 1024" by simp
    ultimately show ?thesis using close by linarith
  qed
  with close show ?thesis by (intro exI [of _ "f64_nearest x"]) (simp add: f64_of_def Let_def)
qed

text \<open>
  A decimal number with \<open>d\<close> fractional digits, read as an \<open>f64\<close>, multiplied by \<open>10 ^ d\<close> and rounded,
  is its digits again as long as these are below \<open>2 ^ 50\<close>.
\<close>

lemma scaled_decimal:
  assumes "u < 2 ^ 50" "d \<le> 19"
  shows "f64_as_u64 (f64_round (f64_mul (f64_of (of_nat u / 10 ^ d)) (f64_of_nat (10 ^ d)))) = u"
proof -
  define e :: rat where "e = 1 / 2 ^ 53"
  define D :: rat where "D = 10 ^ d"
  have D: "1 \<le> D" "D \<le> 10 ^ 19" using power_increasing [OF assms(2), of "10::rat"] by (simp_all add: D_def)
  have D': "1 / 2 ^ 100 \<le> D" "D \<le> 2 ^ 200" using D by (auto intro: order_trans)
  obtain F where F: "f64_of D = FFin F" "D * (1 - e) \<le> F" "F \<le> D * (1 + e)"
    using f64_of_close [OF D'] by (auto simp: e_def)
  have nat: "f64_of_nat (10 ^ d) = FFin F" using F(1) by (simp add: f64_of_nat_def D_def)
  show ?thesis
  proof (cases "u = 0")
    case True
    then show ?thesis by (simp add: nat f64_of_def f64_nearest_def)
  next
    case False
    define x :: rat where "x = of_nat u / D"
    have u: "1 \<le> (of_nat u :: rat)" "(of_nat u :: rat) < 2 ^ 50"
      using False assms(1) of_nat_less_iff [of u "2 ^ 50", where ?'a = rat] by simp_all
    have xD: "x * D = of_nat u" using D(1) by (simp add: x_def)
    have "1 / 10 ^ 19 \<le> x" using u(1) D by (auto simp: x_def intro: frac_le)
    then have x1: "1 / 2 ^ 100 \<le> x" by (rule order_trans [rotated]) simp
    have x2: "x \<le> 2 ^ 200" using u(2) D(1) frac_le [of "of_nat u" "of_nat u" 1 D] by (simp add: x_def)
    obtain X where X: "f64_of x = FFin X" "x * (1 - e) \<le> X" "X \<le> x * (1 + e)"
      using f64_of_close [OF x1 x2] by (auto simp: e_def)
    have e: "0 \<le> e" "e \<le> 1" "0 \<le> 1 - e" by (simp_all add: e_def)
    have x0: "0 \<le> x" using x1 by (rule order_trans [rotated]) simp
    have "0 \<le> x * (1 - e)" using x0 e by (intro mult_nonneg_nonneg)
    then have X0: "0 \<le> X" using X(2) by linarith
    have "0 \<le> D * (1 - e)" using D e by (intro mult_nonneg_nonneg) auto
    then have low: "x * (1 - e) * (D * (1 - e)) \<le> X * F" and up: "X * F \<le> x * (1 + e) * (D * (1 + e))"
      using X F X0 x0 e by (auto intro!: mult_mono)
    have XF: "of_nat u * (1 - (2 * e - e * e)) \<le> X * F" "X * F \<le> of_nat u * (1 + (2 * e + e * e))"
      using low up by (simp_all add: xD [symmetric] algebra_simps)
    have "of_nat u * (1 / 2) \<le> of_nat u * (1 - (2 * e - e * e))" "of_nat u * (1 + (2 * e + e * e)) \<le> of_nat u * 2"
      by (intro mult_left_mono; simp add: e_def)+
    moreover have "(of_nat u :: rat) * 2 \<le> 2 ^ 51" using u(2) by simp
    ultimately have "1 / 2 \<le> X * F" "X * F \<le> 2 ^ 51" using XF u(1) by linarith+
    then have bounds: "1 / 2 ^ 100 \<le> X * F" "X * F \<le> 2 ^ 200" by (auto intro: order_trans)
    obtain R where R: "f64_of (X * F) = FFin R" "X * F * (1 - e) \<le> R" "R \<le> X * F * (1 + e)"
      using f64_of_close [OF bounds] by (auto simp: e_def)
    have "of_nat u * (1 - 4 * e) \<le> of_nat u * ((1 - (2 * e - e * e)) * (1 - e))"
      "of_nat u * ((1 + (2 * e + e * e)) * (1 + e)) \<le> of_nat u * (1 + 4 * e)"
      by (intro mult_left_mono; simp add: e_def)+
    moreover have "of_nat u * ((1 - (2 * e - e * e)) * (1 - e)) \<le> X * F * (1 - e)"
      "X * F * (1 + e) \<le> of_nat u * ((1 + (2 * e + e * e)) * (1 + e))"
      using mult_right_mono [OF XF(1), of "1 - e"] mult_right_mono [OF XF(2), of "1 + e"] e by (simp_all add: mult.assoc)
    moreover have "of_nat u * (4 * e) < 1 / 2" using u(2) by (simp add: e_def)
    ultimately have "of_nat u - 1 / 2 < R" "R < of_nat u + 1 / 2"
      using R(2,3) unfolding right_diff_distrib [of "of_nat u" 1] distrib_left [of "of_nat u" 1] mult_1_right by linarith+
    then have "\<lfloor>\<bar>R\<bar> + 1 / 2\<rfloor> = int u" "0 < R" using u(1) by (auto simp: floor_eq_iff)
    then show ?thesis
      using X(1) R(1) assms(1) by (simp add: nat x_def [symmetric] D_def [symmetric])
  qed
qed

end
