(* ===== verification/Console_Format.thy ===== *)
theory Console_Format
  imports Floats Protocol
begin

text \<open>
  The conversions of the console (\<^verbatim>\<open>console.rs\<close>) between what a user types or reads and the lots and
  price multiples of the exchange, and that a displayed price typed back is the same price.
\<close>

section \<open>The terminal\<close>

text \<open>
  What the console uses of the crate \<open>colored\<close>, a coloured text printed with a minimal width, and of
  the standard library's conversions of floats to text; \<^verbatim>\<open>10f64.powi(n)\<close> has no specified precision.
\<close>

datatype colour = Blue | Green | Red | White

record terminal =
  t_colour :: "colour \<Rightarrow> nat \<Rightarrow> string \<Rightarrow> string"
  t_powi10 :: "nat \<Rightarrow> rat"
  t_show :: "f64 \<Rightarrow> string"
  t_show2 :: "f64 \<Rightarrow> string"

abbreviation coloured :: "terminal \<Rightarrow> colour \<Rightarrow> string \<Rightarrow> string" where
  "coloured T c s \<equiv> t_colour T c 0 s"

section \<open>Amounts and prices\<close>

definition format_asset_balance :: "terminal \<Rightarrow> nat \<Rightarrow> nat \<Rightarrow> string" where
  "format_asset_balance T amt decimals =
     t_show2 T (f64_div_pos (f64_of_nat amt) (t_powi10 T decimals))"

definition amount_to_lots :: "f64 \<Rightarrow> nat \<Rightarrow> nat \<Rightarrow> nat option option" where
  "amount_to_lots amt lot_size decimals =
     (if f64_negative amt then Some None
      else do {
        factor \<leftarrow> checked_pow 64 10 decimals;
        let raw_units = f64_as_u64 (f64_round (f64_mul amt (f64_of_nat factor)));
        lots \<leftarrow> checked_div raw_units lot_size;
        Some (Some lots)
      })"

definition lots_to_amount :: "terminal \<Rightarrow> nat \<Rightarrow> nat \<Rightarrow> nat \<Rightarrow> f64" where
  "lots_to_amount T lots lot_size decimals =
     f64_div_pos (f64_of_nat (lots * lot_size)) (t_powi10 T decimals)"

definition parse_price_to_multiple :: "f64 \<Rightarrow> nat \<Rightarrow> nat \<Rightarrow> nat option option" where
  "parse_price_to_multiple price tick_size tick_decimals = do {
     factor \<leftarrow> checked_pow 64 10 tick_decimals;
     let raw_units = f64_as_u64 (f64_round (f64_mul price (f64_of_nat factor)));
     quotient \<leftarrow> checked_div raw_units tick_size;
     Some (if raw_units mod tick_size \<noteq> 0 then None else Some quotient)
   }"

text \<open>The format \<^verbatim>\<open>{:0>width$}\<close> of a number, and \<^verbatim>\<open>{:<width}\<close> of a text.\<close>

definition pad_zeros :: "nat \<Rightarrow> string \<Rightarrow> string" where
  "pad_zeros width s = replicate (width - length s) (CHR ''0'') @ s"

definition pad_right :: "nat \<Rightarrow> string \<Rightarrow> string" where
  "pad_right width s = s @ replicate (width - length s) (CHR '' '')"

definition format_price :: "nat \<Rightarrow> nat \<Rightarrow> nat \<Rightarrow> string option" where
  "format_price price_multiple tick_size tick_decimals = do {
     raw_price_units \<leftarrow> checked_mul 64 price_multiple tick_size;
     factor \<leftarrow> checked_pow 64 10 tick_decimals;
     let whole = raw_price_units div factor;
     let fractional = raw_price_units mod factor;
     Some (show_nat whole @ ''.'' @ pad_zeros tick_decimals (show_nat fractional))
   }"

definition format_last_executed_price :: "nat option \<Rightarrow> nat \<Rightarrow> nat \<Rightarrow> string option" where
  "format_last_executed_price last_executed_price tick_size tick_decimals =
     (case last_executed_price of
        Some price \<Rightarrow> format_price price tick_size tick_decimals
      | None \<Rightarrow> Some ''None'')"

definition format_level ::
  "terminal \<Rightarrow> level_info option \<Rightarrow> nat \<Rightarrow> nat \<Rightarrow> asset \<Rightarrow> (string \<times> string) option" where
  "format_level T level tick_size tick_decimals asset_info =
     (case level of
        Some level_info \<Rightarrow> do {
          price \<leftarrow> format_price (li_price level_info) tick_size tick_decimals;
          Some (price, t_show T (lots_to_amount T (li_volume level_info) (as_lot_size asset_info)
                                   (as_decimals asset_info)))
        }
      | None \<Rightarrow> Some (''None'', ''None''))"

section \<open>Digits\<close>

lemma foldl_digits:
  fixes v :: "'a \<Rightarrow> nat"
  shows "foldl (\<lambda>a c. 10 * a + v c) b cs = b * 10 ^ length cs + foldl (\<lambda>a c. 10 * a + v c) 0 cs"
proof (induction cs arbitrary: b)
  case (Cons c cs)
  from Cons.IH [of "10 * b + v c"] Cons.IH [of "v c"] show ?case by (simp add: algebra_simps)
qed simp

lemma digits_nat_append: "digits_nat (xs @ ys) = digits_nat xs * 10 ^ length ys + digits_nat ys"
  unfolding digits_nat_def foldl_append by (rule foldl_digits)

lemma digit_char_digit: "d < 10 \<Longrightarrow> is_digit (digit_char d)"
  by (simp add: is_digit_def digit_value_char)

lemma show_nat_digits: "list_all is_digit (show_nat n)"
  by (induction n rule: show_nat.induct) (subst show_nat.simps, simp add: digit_char_digit)

lemma digits_nat_show: "digits_nat (show_nat n) = n"
proof (induction n rule: show_nat.induct)
  case (1 n)
  then show ?case
    by (subst show_nat.simps) (simp add: digits_nat_append, simp add: digits_nat_def digit_value_char)
qed

lemma show_nat_length: "n < 10 ^ d \<Longrightarrow> length (show_nat n) \<le> max 1 d"
proof (induction n arbitrary: d rule: show_nat.induct)
  case (1 n)
  show ?case
  proof (cases "n < 10")
    case False
    then obtain e where "d = Suc e" using "1.prems" by (cases d) auto
    with "1.IH" [OF False, of e] "1.prems" False show ?thesis
      by (subst show_nat.simps) (cases e; auto simp: less_mult_imp_div_less mult.commute)
  qed (simp add: show_nat.simps)
qed

lemma pad_zeros_digits: "list_all is_digit (pad_zeros d (show_nat n))"
  using show_nat_digits [of n] by (auto simp: pad_zeros_def list_all_iff is_digit_def digit_value_def)

lemma digits_nat_pad_zeros: "digits_nat (pad_zeros d (show_nat n)) = n"
proof -
  have "digits_nat (replicate k (CHR ''0'')) = 0" for k
    by (induction k) (simp_all add: digits_nat_def digit_value_def)
  then show ?thesis by (simp add: pad_zeros_def digits_nat_append digits_nat_show)
qed

lemma pad_zeros_length: "n < 10 ^ d \<Longrightarrow> length (pad_zeros d (show_nat n)) = max 1 d"
  using show_nat_length [of n d] show_nat_head [of n] by (auto simp: pad_zeros_def)

section \<open>Displayed prices parse back\<close>

lemma takeWhile_digits:
  assumes "list_all is_digit xs" "\<not> is_digit c"
  shows "takeWhile is_digit (xs @ c # ys) = xs" "dropWhile is_digit (xs @ c # ys) = c # ys"
  using assms by (induction xs) auto

lemma parse_decimal_point:
  assumes "list_all is_digit xs" "list_all is_digit ys" "xs \<noteq> []"
  shows "parse_decimal (xs @ ''.'' @ ys) =
    Some (of_nat (digits_nat xs * 10 ^ length ys + digits_nat ys) / 10 ^ length ys)"
proof -
  have dot: "\<not> is_digit (CHR ''.'')" by (simp add: is_digit_def digit_value_def)
  have all: "takeWhile is_digit ys = ys" "dropWhile is_digit ys = []"
    using assms(2) by (simp_all add: list_all_iff takeWhile_eq_all_conv dropWhile_eq_Nil_conv)
  show ?thesis
    using assms(3) takeWhile_digits [OF assms(1) dot, of ys]
    by (simp add: parse_decimal_def Let_def all parse_exponent_def digits_nat_append power_int_minus_divide)
qed

lemma digit_not_letter:
  assumes "is_digit c"
  shows "c \<noteq> CHR ''-''" "c \<noteq> CHR ''+''" "ascii_lower c \<noteq> CHR ''i''" "ascii_lower c \<noteq> CHR ''n''"
proof -
  have n: "48 \<le> (of_char c :: nat)" "(of_char c :: nat) \<le> 57"
    using assms by (auto simp: is_digit_def digit_value_def Let_def split: if_splits)
  have "ascii_lower c = c" using n by (simp add: ascii_lower_def Let_def)
  with n show "c \<noteq> CHR ''-''" "c \<noteq> CHR ''+''" "ascii_lower c \<noteq> CHR ''i''" "ascii_lower c \<noteq> CHR ''n''" by auto
qed

lemma parse_f64_decimal:
  assumes "is_digit c"
  shows "parse_f64 (c # cs) = map_option f64_of (parse_decimal (c # cs))"
  using digit_not_letter [OF assms] by (auto simp: parse_f64_def parse_sign_def Let_def)

lemma ten_power_64: "(10::nat) ^ d < 2 ^ 64 \<Longrightarrow> d \<le> 19"
  using power_increasing [of 20 d "10::nat"] by (cases "d \<le> 19") auto

lemma format_price_decimal:
  assumes "format_price p t d = Some s"
  shows "parse_f64 s = Some (f64_of (of_nat (p * t) / 10 ^ d))" "d \<le> 19"
proof -
  define w f where "w = p * t div 10 ^ d" and "f = p * t mod 10 ^ d"
  have fit: "(10::nat) ^ d < 2 ^ 64" and s: "s = show_nat w @ ''.'' @ pad_zeros d (show_nat f)"
    using assms by (auto simp: format_price_def checked w_def f_def)
  show "d \<le> 19" by (rule ten_power_64 [OF fit])
  have f: "f < 10 ^ d" by (simp add: f_def)
  define k where "k = length (pad_zeros d (show_nat f))"
  obtain c cs where head: "show_nat w = digit_char c # cs" "c < 10" using show_nat_head by blast
  have "show_nat w \<noteq> []" using head(1) by simp
  from parse_decimal_point [OF show_nat_digits pad_zeros_digits this, of d f]
  have "parse_decimal s = Some (of_nat (w * 10 ^ k + f) / 10 ^ k)"
    unfolding s k_def digits_nat_show digits_nat_pad_zeros .
  moreover have "(of_nat (w * 10 ^ k + f) / 10 ^ k :: rat) = of_nat (p * t) / 10 ^ d"
  proof (cases "d = 0")
    case True
    then show ?thesis using f by (simp add: w_def)
  next
    case False
    then have "k = d" using pad_zeros_length [OF f] by (simp add: k_def)
    moreover have "w * 10 ^ d + f = p * t" unfolding w_def f_def by (rule div_mult_mod_eq)
    ultimately show ?thesis by (simp only:)
  qed
  moreover have "parse_f64 s = map_option f64_of (parse_decimal s)"
    unfolding s head append_Cons by (rule parse_f64_decimal [OF digit_char_digit [OF head(2)]])
  ultimately show "parse_f64 s = Some (f64_of (of_nat (p * t) / 10 ^ d))" by simp
qed

lemma typed_price_exact:
  assumes "u < 2 ^ 50" "d \<le> 19" "0 < t"
  shows "parse_price_to_multiple (f64_of (of_nat u / 10 ^ d)) t d =
    Some (if t dvd u then Some (u div t) else None)"
proof -
  have "(10::nat) ^ d \<le> 10 ^ 19" using assms(2) by (rule power_increasing) simp
  then have "(10::nat) ^ d < 2 ^ 64" by (rule le_less_trans) simp
  with assms show ?thesis
    by (simp add: parse_price_to_multiple_def checked_pow_def checked_div_def scaled_decimal dvd_eq_mod_eq_0)
qed

lemma f64_of_nonneg: "0 \<le> x \<Longrightarrow> \<not> f64_negative (f64_of x)"
proof (cases "x = 0")
  case False
  assume "0 \<le> x"
  then have "0 \<le> x / ulp x" by (simp add: less_imp_le [OF ulp_pos])
  then have "0 \<le> \<lfloor>x / ulp x\<rfloor>" by simp
  then have "0 \<le> round_even (x / ulp x)" by (simp add: round_even_def Let_def)
  with False \<open>0 \<le> x\<close> have "0 \<le> f64_nearest x"
    by (simp add: f64_nearest_def less_imp_le [OF ulp_pos])
  then show ?thesis by (simp add: f64_of_def Let_def)
qed (simp add: f64_of_def f64_nearest_def)

lemma typed_amount_exact:
  assumes "u < 2 ^ 50" "d \<le> 19" "0 < lot_size"
  shows "amount_to_lots (f64_of (of_nat u / 10 ^ d)) lot_size d = Some (Some (u div lot_size))"
proof -
  have "(10::nat) ^ d \<le> 10 ^ 19" using assms(2) by (rule power_increasing) simp
  then have "(10::nat) ^ d < 2 ^ 64" by (rule le_less_trans) simp
  with assms show ?thesis
    by (simp add: amount_to_lots_def checked_pow_def checked_div_def scaled_decimal f64_of_nonneg)
qed

end
