(* ===== verification/Console_IO.thy ===== *)
theory Console_IO
  imports Console_Format
begin

text \<open>
  The actions of the console (\<^verbatim>\<open>console.rs\<close>): functions on a state of connection, standard input and
  standard output that return a value, fail with an I/O error that the callers pass on with \<^verbatim>\<open>?\<close>, or
  panic.  Input text is ASCII; writing to the terminal does not fail.
\<close>

section \<open>State and actions\<close>

record console =
  tm_conn :: conn
  tm_stdin :: "(io_error + string) list"
  tm_stdout :: string
  tm_keys :: "nat \<Rightarrow> bytes"

datatype 'a outcome = Done 'a | Failed io_error | Panicked

type_synonym 'a action = "console \<Rightarrow> 'a outcome \<times> console"

definition return_ok :: "'a \<Rightarrow> 'a action" where
  "return_ok x k = (Done x, k)"

definition and_then :: "'a action \<Rightarrow> ('a \<Rightarrow> 'b action) \<Rightarrow> 'b action" where
  "and_then m f k =
     (case m k of
        (Done x, k1) \<Rightarrow> f x k1
      | (Failed e, k1) \<Rightarrow> (Failed e, k1)
      | (Panicked, k1) \<Rightarrow> (Panicked, k1))"

text \<open>\<^verbatim>\<open>expect\<close> and \<^verbatim>\<open>unwrap\<close>: \<open>None\<close> is a panic.\<close>

definition expect :: "'a option \<Rightarrow> 'a action" where
  "expect v k = (case v of Some x \<Rightarrow> (Done x, k) | None \<Rightarrow> (Panicked, k))"

definition unwrap_io :: "'a action \<Rightarrow> 'a action" where
  "unwrap_io m k = (case m k of (Failed _, k1) \<Rightarrow> (Panicked, k1) | r \<Rightarrow> r)"

definition print_text :: "string \<Rightarrow> unit action" where
  "print_text s k = (Done (), k\<lparr>tm_stdout := tm_stdout k @ s\<rparr>)"

definition println :: "string \<Rightarrow> unit action" where
  "println s = print_text (s @ [CHR 0x0A])"

text \<open>At the end of the input \<^verbatim>\<open>read_line\<close> succeeds with an empty line.\<close>

definition read_line :: "string action" where
  "read_line k =
     (case tm_stdin k of
        [] \<Rightarrow> (Done [], k)
      | Inl e # ls \<Rightarrow> (Failed e, k\<lparr>tm_stdin := ls\<rparr>)
      | Inr l # ls \<Rightarrow> (Done l, k\<lparr>tm_stdin := ls\<rparr>))"

text \<open>A call of the protocol on the console's connection.\<close>

definition request :: "(conn \<Rightarrow> (io_error + 'a) \<times> conn) \<Rightarrow> 'a action" where
  "request call k =
     (case call (tm_conn k) of
        (Inl e, c) \<Rightarrow> (Failed e, k\<lparr>tm_conn := c\<rparr>)
      | (Inr x, c) \<Rightarrow> (Done x, k\<lparr>tm_conn := c\<rparr>))"

fun for_each :: "('a \<Rightarrow> unit action) \<Rightarrow> 'a list \<Rightarrow> unit action" where
  "for_each f [] = return_ok ()"
| "for_each f (x # xs) = and_then (f x) (\<lambda>_. for_each f xs)"

definition say :: "string \<Rightarrow> 'a \<Rightarrow> 'a action" where
  "say s x = and_then (println s) (\<lambda>_. return_ok x)"

section \<open>Text\<close>

definition is_space :: "char \<Rightarrow> bool" where
  "is_space c \<longleftrightarrow> (let n = of_char c :: nat in n = 32 \<or> 9 \<le> n \<and> n \<le> 13)"

definition trim :: "string \<Rightarrow> string" where
  "trim s = rev (dropWhile is_space (rev (dropWhile is_space s)))"

text \<open>\<^verbatim>\<open>split_whitespace\<close>, with the word read so far as an argument.\<close>

fun split_words :: "string \<Rightarrow> string \<Rightarrow> string list" where
  "split_words w [] = (if w = [] then [] else [w])"
| "split_words w (c # cs) =
     (if is_space c then (if w = [] then split_words [] cs else w # split_words [] cs)
      else split_words (w @ [c]) cs)"

definition split_whitespace :: "string \<Rightarrow> string list" where
  "split_whitespace s = split_words [] s"

definition starts_with :: "string \<Rightarrow> string \<Rightarrow> bool" where
  "starts_with s p \<longleftrightarrow> take (length p) s = p"

text \<open>The format \<^verbatim>\<open>{:02x}\<close> of every byte.\<close>

definition byte_hex :: "8 word \<Rightarrow> string" where
  "byte_hex b = (let d = (\<lambda>n. if n < 10 then digit_char n else char_of (87 + n))
                 in [d (unat b div 16), d (unat b mod 16)])"

section \<open>Prompts\<close>

definition ansi_esc :: string where
  "ansi_esc = CHR 0x1B # ''[2J'' @ CHR 0x1B # ''[1;1H''"

definition answered_yes :: "string \<Rightarrow> bool" where
  "answered_yes input \<longleftrightarrow> map ascii_lower (trim input) = ''y'' \<or> map ascii_lower (trim input) = ''yes''"

definition prompt_confirmation :: "bool action" where
  "prompt_confirmation =
     and_then (print_text ''Confirm order? (y/n): '') (\<lambda>_.
     and_then read_line (\<lambda>input. return_ok (answered_yes input)))"

definition prompt_cancel_confirmation :: "order_id \<Rightarrow> bool action" where
  "prompt_cancel_confirmation order_id =
     and_then (print_text (''Cancel order with ID '' @ show_nat order_id @ ''? (y/n): '')) (\<lambda>_.
     and_then read_line (\<lambda>input. return_ok (answered_yes input)))"

definition prompt_ack :: "unit action" where
  "prompt_ack =
     and_then (println (CHR 0x0A # ''Press Enter to return...'')) (\<lambda>_.
     and_then read_line (\<lambda>_. return_ok ()))"

section \<open>Results of actions\<close>

lemma action_simps [simp]:
  "return_ok x k = (Done x, k)"
  "expect (Some x) k = (Done x, k)" "expect None k = (Panicked, k)"
  "print_text s k = (Done (), k\<lparr>tm_stdout := tm_stdout k @ s\<rparr>)"
  "println s k = (Done (), k\<lparr>tm_stdout := tm_stdout k @ s @ [CHR 0x0A]\<rparr>)"
  "say s x k = (Done x, k\<lparr>tm_stdout := tm_stdout k @ s @ [CHR 0x0A]\<rparr>)"
  by (simp_all add: return_ok_def expect_def print_text_def println_def say_def and_then_def)

lemma and_then_Done [simp]: "m k = (Done x, k1) \<Longrightarrow> and_then m f k = f x k1"
  by (simp add: and_then_def)

lemma and_then_Failed [simp]: "m k = (Failed e, k1) \<Longrightarrow> and_then m f k = (Failed e, k1)"
  by (simp add: and_then_def)

lemma and_then_Panicked [simp]: "m k = (Panicked, k1) \<Longrightarrow> and_then m f k = (Panicked, k1)"
  by (simp add: and_then_def)

end
