(* ===== verification/Console.thy ===== *)
theory Console
  imports Console_IO
begin

text \<open>
  The interactive console (\<^verbatim>\<open>console.rs\<close>) and its connection (\<^verbatim>\<open>client.rs\<close>): accounts, displays, the
  handlers that query the node, check the balance and submit a signed transaction, and the three menus.
  The names of the handlers have the prefix \<open>console_\<close> where the exchange has the same names.
\<close>

section \<open>Accounts\<close>

record client_account =
  ca_sk :: bytes
  ca_pk :: bytes
  ca_pk_str :: public_key_string

definition client_account_new :: "crates \<Rightarrow> bytes \<Rightarrow> client_account action" where
  "client_account_new X sk =
     (let pk = x_verifying_key X sk; pk_str = pk_from_public_key X pk; sk_hex = concat (map byte_hex sk)
      in say (CHR 0x22 # sk_hex @ [CHR 0x22]) \<lparr>ca_sk = sk, ca_pk = pk, ca_pk_str = pk_str\<rparr>)"

text \<open>The connection, or the error of \<^verbatim>\<open>TcpStream::connect\<close>.\<close>

definition create_client_connection :: "io_error + conn \<Rightarrow> unit action" where
  "create_client_connection stream k =
     (case stream of Inl e \<Rightarrow> (Failed e, k) | Inr c \<Rightarrow> (Done (), k\<lparr>tm_conn := c\<rparr>))"

section \<open>Displays\<close>

definition display_spot_balances :: "terminal \<Rightarrow> asset list \<Rightarrow> account_balance \<Rightarrow> unit action" where
  "display_spot_balances T asset_infos spot_balance =
     for_each (\<lambda>token_balance.
       case index asset_infos (atb_asset_id token_balance) of
         None \<Rightarrow> println (''Could not find asset info for asset: '' @ show_nat (atb_asset_id token_balance))
       | Some a \<Rightarrow>
           println (''Asset: '' @ coloured T Blue (as_asset_name a) @
             '', Total: '' @ coloured T Blue (format_asset_balance T (atb_total_balance token_balance) (as_decimals a)) @
             '', Available: '' @
             coloured T Blue (format_asset_balance T (atb_available_balance token_balance) (as_decimals a))))
       (ab_asset_balances spot_balance)"

definition display_spot_markets :: "terminal \<Rightarrow> market_info list \<Rightarrow> unit action" where
  "display_spot_markets T markets_info =
     and_then (println ''Spot Markets:'') (\<lambda>_.
     for_each (\<lambda>market. println (coloured T Blue (mi_market_name market) @ '', id: '' @
                                 coloured T Blue (show_nat (mi_market_id market)))) markets_info)"

definition display_spot_actions :: "unit action" where
  "display_spot_actions = for_each println
     [''Available actions:'',
      ''  limit buy <price> <base_amount>   - Place a limit buy order'',
      ''  limit sell <price> <base_amount>  - Place a limit sell order'',
      ''  market buy <quote_amount>          - Market buy (spend quote)'',
      ''  market sell <base_amount>        - Market sell (receive quote)'',
      ''  open                              - View your open orders'',
      ''  cancel <order-id>                 - Cancel order'',
      ''  re                                - Refresh'',
      ''  back                              - Return to previous menu'']"

definition display_market :: "terminal \<Rightarrow> market_info \<Rightarrow> asset \<Rightarrow> unit action" where
  "display_market T market_info base_asset_info =
     (let tick_size = mi_tick market_info; tick_decimals = mi_tick_decimals market_info
      in and_then (expect (format_last_executed_price (mi_last_executed_price market_info) tick_size tick_decimals)) (\<lambda>price.
         and_then (expect (format_level T (mi_best_asks_info market_info) tick_size tick_decimals base_asset_info))
           (\<lambda>(best_ask_price, best_ask_volume).
         and_then (expect (format_level T (mi_best_bids_info market_info) tick_size tick_decimals base_asset_info))
           (\<lambda>(best_bid_price, best_bid_volume).
         for_each println
           [''Market: '' @ coloured T Blue (mi_market_name market_info),
            ''Price: '' @ coloured T White price,
            ''Best Bids: '' @ coloured T Green best_bid_price @ '', Volume: '' @ coloured T Green best_bid_volume,
            ''Best Asks: '' @ coloured T Red best_ask_price @ '', Volume: '' @ coloured T Red best_ask_volume,
            []]))))"

definition available_of :: "account_balance \<Rightarrow> asset_id \<Rightarrow> nat" where
  "available_of ab asset_id =
     (case find_asset_id ab asset_id of Some b \<Rightarrow> atb_available_balance b | None \<Rightarrow> 0)"

definition display_user_available_balance ::
  "terminal \<Rightarrow> account_balance \<Rightarrow> asset \<Rightarrow> asset \<Rightarrow> unit action" where
  "display_user_available_balance T spot_balance base_asset_info quote_asset_info =
     (let base_available = available_of spot_balance (as_asset_id base_asset_info);
          quote_available = available_of spot_balance (as_asset_id quote_asset_info);
          base_amount = coloured T Blue (format_asset_balance T base_available (as_decimals base_asset_info));
          quote_amount = coloured T Blue (format_asset_balance T quote_available (as_decimals quote_asset_info))
      in for_each println
           [''Available: '' @ base_amount @ '' '' @ as_asset_name base_asset_info @ '' | '' @
              quote_amount @ '' '' @ as_asset_name quote_asset_info, []])"

definition display_open_orders :: "terminal \<Rightarrow> limit_order list \<Rightarrow> nat \<Rightarrow> nat \<Rightarrow> asset \<Rightarrow> unit action" where
  "display_open_orders T open_orders tick_size tick_decimals base_asset_info =
     and_then (println ''Open Orders:'') (\<lambda>_.
     and_then (println (pad_right 10 ''OrderID'' @ '' '' @ pad_right 6 ''Side'' @ '' '' @ pad_right 15 ''Price'' @ '' '' @
       pad_right 12 ''Size'' @ '' '' @ pad_right 12 ''Filled'' @ '' '' @ pad_right 12 ''Self Filled'')) (\<lambda>_.
     and_then (for_each (\<lambda>order.
         let side = (case lo_direction order of Buy \<Rightarrow> t_colour T Green 6 ''Buy'' | Sell \<Rightarrow> t_colour T Red 6 ''Sell'');
             shown = (\<lambda>lots. t_show T (lots_to_amount T lots (as_lot_size base_asset_info) (as_decimals base_asset_info)))
         in and_then (expect (format_price (lo_price_multiple order) tick_size tick_decimals)) (\<lambda>price.
            println (pad_right 10 (show_nat (lo_id order)) @ '' '' @ side @ '' '' @ pad_right 15 price @ '' '' @
              pad_right 12 (shown (lo_base_lots order)) @ '' '' @ pad_right 12 (shown (lo_filled_base_lots order)) @ '' '' @
              pad_right 12 (shown (lo_self_filled order))))) open_orders) (\<lambda>_.
     if open_orders = [] then println ''No open orders.'' else return_ok ())))"

definition handle_help :: "terminal \<Rightarrow> unit action" where
  "handle_help T = for_each println
     [coloured T Green ''Commands:'',
      coloured T Blue ''  create, c'' @ ''   '' @ ''Creates a new public key secret key pair'',
      coloured T Blue ''  load <secret key>'' @ ''   '' @ ''Loads an account from a secret key pair'',
      coloured T Blue ''  drip'' @ ''   '' @ ''Request balance from faucet'',
      coloured T Blue ''  transfer <to> <amount>'',
      coloured T Blue ''  quit, q'']"

section \<open>Commands of the main menu\<close>

text \<open>\<open>SigningKey::generate(&mut OsRng)\<close> takes the next of the random keys.\<close>

definition generate_key :: "bytes action" where
  "generate_key k = (Done (tm_keys k 0), k\<lparr>tm_keys := (\<lambda>i. tm_keys k (Suc i))\<rparr>)"

definition handle_create :: "crates \<Rightarrow> client_account action" where
  "handle_create X =
     and_then generate_key (\<lambda>signing_key.
     and_then (client_account_new X signing_key) (\<lambda>account.
     say (''Account created: '' @ pk_as_str (ca_pk_str account)) account))"

definition handle_load :: "crates \<Rightarrow> string \<Rightarrow> client_account action" where
  "handle_load X trimmed =
     and_then (expect (x_from_hex X 32 (trim (drop 5 trimmed)))) (\<lambda>sk_bytes.
     and_then (client_account_new X sk_bytes) (\<lambda>account.
     say (''Account loaded: '' @ pk_as_str (ca_pk_str account)) account))"

definition console_drip :: "crates \<Rightarrow> json \<Rightarrow> string \<Rightarrow> client_account option \<Rightarrow> unit action" where
  "console_drip X J trimmed client =
     (case client of
        None \<Rightarrow> println ''Please create or load an account before transferring.''
      | Some client \<Rightarrow>
          (case split_whitespace (drop 5 trimmed) of
             [part] \<Rightarrow>
               (let drip = (\<lambda>asset_id.
                  and_then (println ''Submitting transaction..'') (\<lambda>_.
                  and_then (expect (pk_to_bytes X (ca_pk_str client))) (\<lambda>pk.
                  and_then (request (\<lambda>c. send_drip J c pk asset_id)) (\<lambda>_.
                  println ''Transaction Submitted''))))
                in if map ascii_upper part = ''SUPE'' then drip 0
                   else if map ascii_upper part = ''USD'' then drip 1
                   else println (''Unknown asset: '' @ map ascii_upper part))
           | _ \<Rightarrow> println ''Usage: drip <SUPE | USD>''))"

text \<open>\<open>send_account_query\<close> for the loaded account.\<close>

definition query_account :: "crates \<Rightarrow> json \<Rightarrow> client_account \<Rightarrow> account_info_with_balances action" where
  "query_account X J client =
     and_then (expect (pk_to_bytes X (ca_pk_str client))) (\<lambda>pk. request (\<lambda>c. send_account_query J c pk))"

text \<open>The test \<open>needed > available_balance\<close>, with its messages; the result tells whether to go on.\<close>

definition check_balance :: "account_balance \<Rightarrow> asset_id \<Rightarrow> nat \<Rightarrow> bool action" where
  "check_balance spot_balances asset_id needed =
     (case find_asset_id spot_balances asset_id of
        None \<Rightarrow> say ''Insufficient balance 0'' False
      | Some token_balance \<Rightarrow>
          if atb_available_balance token_balance < needed
          then say (''Insufficient balance: Available balance '' @ show_nat (atb_available_balance token_balance)) False
          else return_ok True)"

definition console_transfer :: "crates \<Rightarrow> json \<Rightarrow> string \<Rightarrow> client_account option \<Rightarrow> unit action" where
  "console_transfer X J trimmed client =
     (case client of
        None \<Rightarrow> println ''Please create or load an account before transferring.''
      | Some client \<Rightarrow>
          (let parts = split_whitespace (drop 9 trimmed)
           in and_then (if length parts \<noteq> 3 then println ''Usage: transfer <to> <asset_id> <amount>'' else return_ok ()) (\<lambda>_.
              and_then (expect (do { p \<leftarrow> index parts 0; x_from_hex X 32 p })) (\<lambda>to_pk_bytes.
              and_then (expect (if x_key_ok X to_pk_bytes then Some (pk_from_public_key X to_pk_bytes) else None)) (\<lambda>to_pk.
              if to_pk = ca_pk_str client then println ''Can't transfer to self''
              else
                and_then (expect (do { p \<leftarrow> index parts 1; parse_uint 32 p })) (\<lambda>asset_id.
                and_then (expect (do { p \<leftarrow> index parts 2; parse_uint 128 p })) (\<lambda>amt.
                and_then (query_account X J client) (\<lambda>info.
                and_then (check_balance (ab_spot_balances info) asset_id amt) (\<lambda>enough.
                if \<not> enough then return_ok ()
                else
                  and_then (expect (pk_to_bytes X (ca_pk_str client))) (\<lambda>from.
                  and_then (expect (pk_to_bytes X to_pk)) (\<lambda>to.
                  let txn = Transfer \<lparr>tt_from = from, tt_to = to, tt_amount = amt, tt_asset_id = asset_id,
                              tt_status = Pending, tt_nonce = ai_expected_nonce (ab_account_info info)\<rparr>
                  in request (\<lambda>c. send_transaction J c (tx_sign X (ca_sk client) txn)))))))))))))"

definition console_query :: "crates \<Rightarrow> json \<Rightarrow> terminal \<Rightarrow> client_account option \<Rightarrow> asset list \<Rightarrow> unit action" where
  "console_query X J T client asset_infos =
     (case client of
        None \<Rightarrow> println ''Please create or load an account before transferring.''
      | Some client \<Rightarrow>
          and_then (query_account X J client) (\<lambda>info.
          and_then (println (''Account: '' @ coloured T Blue (pk_as_str (ca_pk_str client)))) (\<lambda>_.
          display_spot_balances T asset_infos (ab_spot_balances info))))"

section \<open>Orders\<close>

definition handle_open_orders ::
  "crates \<Rightarrow> json \<Rightarrow> terminal \<Rightarrow> client_account \<Rightarrow> nat \<Rightarrow> nat \<Rightarrow> asset \<Rightarrow> unit action" where
  "handle_open_orders X J T client tick_size tick_decimals base_asset_info =
     and_then (query_account X J client) (\<lambda>info.
     and_then (display_open_orders T (ai_open_orders (ab_account_info info)) tick_size tick_decimals base_asset_info) (\<lambda>_.
     prompt_ack))"

text \<open>Signing and sending, which ends every order handler.\<close>

definition submit_signed :: "crates \<Rightarrow> json \<Rightarrow> client_account \<Rightarrow> unsigned_transaction \<Rightarrow> unit action" where
  "submit_signed X J client txn =
     and_then (println ''Submitting transaction... '') (\<lambda>_.
     and_then (request (\<lambda>c. send_transaction J c (tx_sign X (ca_sk client) txn))) (\<lambda>_.
     and_then (println ''Transaction submitted'') (\<lambda>_. prompt_ack)))"

definition order_txn ::
  "public_key_hash \<Rightarrow> market_id \<Rightarrow> order_direction \<Rightarrow> order_type \<Rightarrow> nonce \<Rightarrow> unsigned_transaction" where
  "order_txn from market_id direction order_type nonce =
     OrderTx \<lparr>ot_from = from, ot_market_id = market_id, ot_direction = direction,
              ot_order_type = order_type, ot_status = Pending, ot_nonce = nonce\<rparr>"

definition console_limit_order ::
  "crates \<Rightarrow> json \<Rightarrow> order_direction \<Rightarrow> nat \<Rightarrow> nat \<Rightarrow> client_account \<Rightarrow> market_info \<Rightarrow> unit action" where
  "console_limit_order X J direction base_amount price client market_info =
     and_then (query_account X J client) (\<lambda>info.
     and_then
       (case direction of
          Buy \<Rightarrow>
            (case find_asset_id (ab_spot_balances info) (mi_quote_asset_id market_info) of
               None \<Rightarrow> say ''Insufficient balance 0'' False
             | Some _ \<Rightarrow>
                 and_then (expect (checked_mul 64 price base_amount)) (\<lambda>quote_needed.
                 check_balance (ab_spot_balances info) (mi_quote_asset_id market_info) quote_needed))
        | Sell \<Rightarrow> check_balance (ab_spot_balances info) (mi_base_asset_id market_info) base_amount) (\<lambda>enough.
     if \<not> enough then return_ok ()
     else
       and_then (expect (pk_to_bytes X (ca_pk_str client))) (\<lambda>from.
       submit_signed X J client (order_txn from (mi_market_id market_info) direction
         (LimitType price base_amount) (ai_expected_nonce (ab_account_info info))))))"

definition console_market_order ::
  "crates \<Rightarrow> json \<Rightarrow> order_direction \<Rightarrow> nat \<Rightarrow> client_account \<Rightarrow> market_info \<Rightarrow> unit action" where
  "console_market_order X J direction amt client market_info =
     and_then (query_account X J client) (\<lambda>info.
     let asset_id = (case direction of Buy \<Rightarrow> mi_quote_asset_id market_info | Sell \<Rightarrow> mi_base_asset_id market_info)
     in and_then (check_balance (ab_spot_balances info) asset_id amt) (\<lambda>enough.
        if \<not> enough then return_ok ()
        else
          and_then (expect (pk_to_bytes X (ca_pk_str client))) (\<lambda>from.
          submit_signed X J client (order_txn from (mi_market_id market_info) direction
            (MarketType amt) (ai_expected_nonce (ab_account_info info))))))"

definition console_cancel_order ::
  "crates \<Rightarrow> json \<Rightarrow> client_account \<Rightarrow> order_id \<Rightarrow> market_id \<Rightarrow> unit action" where
  "console_cancel_order X J client order_id market_id =
     and_then (query_account X J client) (\<lambda>info.
     and_then (expect (pk_to_bytes X (ca_pk_str client))) (\<lambda>from.
     submit_signed X J client (CancelOrder \<lparr>ct_from = from, ct_market_id = market_id, ct_order_id = order_id,
       ct_status = Pending, ct_nonce = ai_expected_nonce (ab_account_info info)\<rparr>)))"

definition fetch_asset_infos :: "json \<Rightarrow> asset list action" where
  "fetch_asset_infos J = request (send_assets_query J)"

end
