(* ===== verification/Console_Menu.thy ===== *)
theory Console_Menu
  imports Console
begin

text \<open>
  The menus of the console (\<^verbatim>\<open>console.rs\<close>): one market, the list of markets and the main loop.  A menu
  is one round and a loop over rounds; the loops may run forever and are \<open>partial_function\<close>s.
\<close>

section \<open>Commands of a market\<close>

datatype market_command =
    BackCommand
  | OpenCommand
  | RefreshCommand
  | LimitCommand order_direction string string
  | MarketCommand order_direction string
  | CancelCommand string
  | UnknownCommand

definition direction_of :: "string \<Rightarrow> order_direction option" where
  "direction_of s = (if s = ''buy'' then Some Buy else if s = ''sell'' then Some Sell else None)"

definition parse_market_command :: "string list \<Rightarrow> market_command" where
  "parse_market_command parts =
     (case parts of
        [c] \<Rightarrow> if c = ''back'' then BackCommand else if c = ''open'' then OpenCommand
               else if c = ''re'' then RefreshCommand else UnknownCommand
      | [c, order_id_str] \<Rightarrow> if c = ''cancel'' then CancelCommand order_id_str else UnknownCommand
      | [c, d, amt] \<Rightarrow>
          (case direction_of d of
             Some direction \<Rightarrow> if c = ''market'' then MarketCommand direction amt else UnknownCommand
           | None \<Rightarrow> UnknownCommand)
      | [c, d, price, base_amount] \<Rightarrow>
          (case direction_of d of
             Some direction \<Rightarrow> if c = ''limit'' then LimitCommand direction price base_amount else UnknownCommand
           | None \<Rightarrow> UnknownCommand)
      | _ \<Rightarrow> UnknownCommand)"

definition f64_or_zero :: "string \<Rightarrow> f64" where
  "f64_or_zero s = (case parse_f64 s of Some x \<Rightarrow> x | None \<Rightarrow> FFin 0)"

definition limit_command ::
  "crates \<Rightarrow> json \<Rightarrow> terminal \<Rightarrow> client_account \<Rightarrow> market_info \<Rightarrow> asset \<Rightarrow> order_direction \<Rightarrow> string \<Rightarrow> string \<Rightarrow>
   unit action" where
  "limit_command X J T client market_info base_asset_info direction price base_amount =
     (let raw_amount = f64_or_zero base_amount; raw_price = f64_or_zero price
      in and_then (expect (amount_to_lots raw_amount (as_lot_size base_asset_info) (as_decimals base_asset_info))) (\<lambda>lots.
         case lots of
           None \<Rightarrow> println ''Invalid base amount''
         | Some amt \<Rightarrow>
             if amt = 0 then println ''Invalid base amount.''
             else
               and_then (expect (parse_price_to_multiple raw_price (mi_tick market_info) (mi_tick_decimals market_info))) (\<lambda>multiple.
               case multiple of
                 None \<Rightarrow> println ''Invalid base amount''
               | Some p \<Rightarrow>
                   if p = 0 then println ''Invalid price.''
                   else
                     and_then (println ((case direction of Buy \<Rightarrow> ''Limit Buy '' | Sell \<Rightarrow> ''Limit Sell '') @
                       t_show T raw_amount @ '' '' @ mi_base_name market_info @ '' at price: '' @ t_show T raw_price)) (\<lambda>_.
                     and_then prompt_confirmation (\<lambda>yes.
                     if yes then console_limit_order X J direction amt p client market_info
                     else println ''Order not submitted.'')))))"

definition market_order_command ::
  "crates \<Rightarrow> json \<Rightarrow> terminal \<Rightarrow> client_account \<Rightarrow> market_info \<Rightarrow> asset \<Rightarrow> asset \<Rightarrow> order_direction \<Rightarrow> string \<Rightarrow>
   unit action" where
  "market_order_command X J T client market_info base_asset_info quote_asset_info direction typed =
     (let raw_amount = f64_or_zero typed;
          asset_info = (case direction of Buy \<Rightarrow> quote_asset_info | Sell \<Rightarrow> base_asset_info)
      in and_then (expect (amount_to_lots raw_amount (as_lot_size asset_info) (as_decimals asset_info))) (\<lambda>lots.
         case lots of
           None \<Rightarrow> println ''Invalid amount''
         | Some amt \<Rightarrow>
             if amt = 0 then println ''Invalid amount.''
             else
               and_then (println (case direction of
                   Buy \<Rightarrow> ''Market Buy: Spend '' @ t_show T raw_amount @ ''  '' @ mi_quote_name market_info
                 | Sell \<Rightarrow> ''Market Sell: Spend '' @ t_show T raw_amount @ '' '' @ mi_base_name market_info)) (\<lambda>_.
               and_then prompt_confirmation (\<lambda>yes.
               if yes then console_market_order X J direction amt client market_info
               else println ''Order not submitted.''))))"

definition cancel_command :: "crates \<Rightarrow> json \<Rightarrow> client_account \<Rightarrow> market_info \<Rightarrow> string \<Rightarrow> unit action" where
  "cancel_command X J client market_info order_id_str =
     (let order_id = (case parse_uint 64 order_id_str of Some n \<Rightarrow> n | None \<Rightarrow> 0)
      in and_then (prompt_cancel_confirmation order_id) (\<lambda>yes.
         if yes then console_cancel_order X J client order_id (mi_market_id market_info)
         else println ''Cancel aborted.''))"

section \<open>One market\<close>

text \<open>What the typed command does; the result is whether the menu goes on.\<close>

definition market_action ::
  "crates \<Rightarrow> json \<Rightarrow> terminal \<Rightarrow> client_account \<Rightarrow> market_info \<Rightarrow> asset \<Rightarrow> asset \<Rightarrow> market_command \<Rightarrow> bool action" where
  "market_action X J T client market_info base_asset_info quote_asset_info command =
     (let go_on = (\<lambda>m :: unit action. and_then m (\<lambda>_. return_ok True))
      in case command of
           BackCommand \<Rightarrow> say ''Returning to previous menu.'' False
         | OpenCommand \<Rightarrow> go_on (handle_open_orders X J T client (mi_tick market_info) (mi_tick_decimals market_info)
                                   base_asset_info)
         | RefreshCommand \<Rightarrow> return_ok True
         | LimitCommand direction price base_amount \<Rightarrow>
             go_on (limit_command X J T client market_info base_asset_info direction price base_amount)
         | MarketCommand direction amt \<Rightarrow>
             go_on (market_order_command X J T client market_info base_asset_info quote_asset_info direction amt)
         | CancelCommand order_id_str \<Rightarrow> go_on (cancel_command X J client market_info order_id_str)
         | UnknownCommand \<Rightarrow>
             say ''Unrecognized command. Type 'back', 'open_orders', or a valid order command.'' True)"

definition market_round ::
  "crates \<Rightarrow> json \<Rightarrow> terminal \<Rightarrow> client_account \<Rightarrow> asset list \<Rightarrow> market_id \<Rightarrow> bool action" where
  "market_round X J T client asset_infos market_id =
     and_then (print_text ansi_esc) (\<lambda>_.
     and_then (request (\<lambda>c. send_market_info_query J c market_id)) (\<lambda>market_info_opt.
     and_then (query_account X J client) (\<lambda>info.
     case market_info_opt of
       None \<Rightarrow> say ''Error fetching market data'' False
     | Some market_info \<Rightarrow>
         (case index asset_infos (mi_base_asset_id market_info) of
            None \<Rightarrow> say (''Error fetching Asset data for '' @ show_nat (mi_base_asset_id market_info)) False
          | Some base_asset_info \<Rightarrow>
              (case index asset_infos (mi_quote_asset_id market_info) of
                 None \<Rightarrow> say (''Error fetching Asset data for '' @ show_nat (mi_quote_asset_id market_info)) False
               | Some quote_asset_info \<Rightarrow>
                   and_then (display_market T market_info base_asset_info) (\<lambda>_.
                   and_then (display_user_available_balance T (ab_spot_balances info) base_asset_info quote_asset_info) (\<lambda>_.
                   and_then display_spot_actions (\<lambda>_.
                   and_then (print_text ''> '') (\<lambda>_.
                   and_then read_line (\<lambda>input.
                   market_action X J T client market_info base_asset_info quote_asset_info
                     (parse_market_command (split_whitespace (trim input)))))))))))))"

partial_function (option) console_market ::
  "crates \<Rightarrow> json \<Rightarrow> terminal \<Rightarrow> client_account \<Rightarrow> asset list \<Rightarrow> market_id \<Rightarrow> console \<Rightarrow>
   (unit outcome \<times> console) option" where
  "console_market X J T client asset_infos market_id k =
     (case market_round X J T client asset_infos market_id k of
        (Done again, k1) \<Rightarrow>
          if again then console_market X J T client asset_infos market_id k1 else Some (Done (), k1)
      | (Failed e, k1) \<Rightarrow> Some (Failed e, k1)
      | (Panicked, k1) \<Rightarrow> Some (Panicked, k1))"

section \<open>The markets\<close>

datatype markets_choice = LeaveMarkets | AgainMarkets | SelectMarket market_id

definition markets_round :: "terminal \<Rightarrow> market_info list \<Rightarrow> markets_choice action" where
  "markets_round T markets_info =
     and_then (display_spot_markets T markets_info) (\<lambda>_.
     and_then (println ''Enter market ID to select, or 'back' to return:'') (\<lambda>_.
     and_then (print_text ''> '') (\<lambda>_.
     and_then read_line (\<lambda>input.
     let trimmed = trim input
     in if map ascii_lower trimmed = ''back'' then say ''Returning to previous menu.'' LeaveMarkets
        else
          (case parse_uint 64 trimmed of
             Some i \<Rightarrow>
               (case find (\<lambda>m. mi_market_id m = i) markets_info of
                  Some market \<Rightarrow> and_then (print_text ansi_esc) (\<lambda>_. return_ok (SelectMarket (mi_market_id market)))
                | None \<Rightarrow> say (''No market with ID '' @ show_nat i @ ''. Try again.'') AgainMarkets)
           | None \<Rightarrow> say ''Invalid input. Enter a numeric ID or 'back'.'' AgainMarkets)))))"

partial_function (option) markets_loop ::
  "crates \<Rightarrow> json \<Rightarrow> terminal \<Rightarrow> client_account \<Rightarrow> asset list \<Rightarrow> market_info list \<Rightarrow> console \<Rightarrow>
   (unit outcome \<times> console) option" where
  "markets_loop X J T client asset_infos markets_info k =
     (case markets_round T markets_info k of
        (Done LeaveMarkets, k1) \<Rightarrow> Some (Done (), k1)
      | (Done AgainMarkets, k1) \<Rightarrow> markets_loop X J T client asset_infos markets_info k1
      | (Done (SelectMarket i), k1) \<Rightarrow> do {
          (res, k2) \<leftarrow> console_market X J T client asset_infos i k1;
          (case res of
             Done _ \<Rightarrow> markets_loop X J T client asset_infos markets_info k2
           | Failed e \<Rightarrow> Some (Failed e, k2)
           | Panicked \<Rightarrow> Some (Panicked, k2))
        }
      | (Failed e, k1) \<Rightarrow> Some (Failed e, k1)
      | (Panicked, k1) \<Rightarrow> Some (Panicked, k1))"

definition handle_markets ::
  "crates \<Rightarrow> json \<Rightarrow> terminal \<Rightarrow> client_account option \<Rightarrow> asset list \<Rightarrow> console \<Rightarrow>
   (unit outcome \<times> console) option" where
  "handle_markets X J T client asset_infos k =
     (case client of
        None \<Rightarrow> Some (println ''Please create or load an account.'' k)
      | Some client \<Rightarrow>
          (case request (send_markets_query J) k of
             (Done markets_info, k1) \<Rightarrow> markets_loop X J T client asset_infos markets_info k1
           | (Failed e, k1) \<Rightarrow> Some (Failed e, k1)
           | (Panicked, k1) \<Rightarrow> Some (Panicked, k1)))"

section \<open>The main loop\<close>

text \<open>After a command: leave, go on with an account, or open the markets.\<close>

datatype next_step = Quit | Next "client_account option" | OpenMarkets

definition console_round ::
  "crates \<Rightarrow> json \<Rightarrow> terminal \<Rightarrow> asset list \<Rightarrow> client_account option \<Rightarrow> next_step action" where
  "console_round X J T asset_infos client =
     and_then (print_text ''> '') (\<lambda>_.
     and_then (unwrap_io read_line) (\<lambda>input.
     let trimmed = trim input; go_on = (\<lambda>m :: unit action. and_then m (\<lambda>_. return_ok (Next client)))
     in if trimmed = ''help'' then go_on (handle_help T)
        else if trimmed = ''create'' \<or> trimmed = ''c'' then
          and_then (handle_create X) (\<lambda>account. return_ok (Next (Some account)))
        else if starts_with trimmed ''load '' then
          and_then (handle_load X trimmed) (\<lambda>account. return_ok (Next (Some account)))
        else if starts_with trimmed ''drip '' then go_on (console_drip X J trimmed client)
        else if trimmed = ''query'' then go_on (console_query X J T client asset_infos)
        else if starts_with trimmed ''transfer '' then go_on (console_transfer X J trimmed client)
        else if trimmed = ''markets'' then return_ok OpenMarkets
        else if trimmed = ''quit'' \<or> trimmed = ''q'' then return_ok Quit
        else go_on (println ''Unknown command. Type `help` for options.'')))"

partial_function (option) console_loop ::
  "crates \<Rightarrow> json \<Rightarrow> terminal \<Rightarrow> asset list \<Rightarrow> client_account option \<Rightarrow> console \<Rightarrow>
   (unit outcome \<times> console) option" where
  "console_loop X J T asset_infos client k =
     (case console_round X J T asset_infos client k of
        (Done Quit, k1) \<Rightarrow> Some (Done (), k1)
      | (Done (Next client'), k1) \<Rightarrow> console_loop X J T asset_infos client' k1
      | (Done OpenMarkets, k1) \<Rightarrow> do {
          (res, k2) \<leftarrow> handle_markets X J T client asset_infos k1;
          (case res of
             Done _ \<Rightarrow> console_loop X J T asset_infos client k2
           | Failed e \<Rightarrow> Some (Failed e, k2)
           | Panicked \<Rightarrow> Some (Panicked, k2))
        }
      | (Failed e, k1) \<Rightarrow> Some (Failed e, k1)
      | (Panicked, k1) \<Rightarrow> Some (Panicked, k1))"

text \<open>The greeting, the connection and the list of assets, which precede the loop.\<close>

definition console_start :: "json \<Rightarrow> io_error + conn \<Rightarrow> asset list action" where
  "console_start J stream =
     and_then (print_text ansi_esc) (\<lambda>_.
     and_then (println ''Superliquid Client Console'') (\<lambda>_.
     and_then (println ''Type `help` to see commands.'') (\<lambda>_.
     and_then (create_client_connection stream) (\<lambda>_. fetch_asset_infos J))))"

definition run_console ::
  "crates \<Rightarrow> json \<Rightarrow> terminal \<Rightarrow> io_error + conn \<Rightarrow> console \<Rightarrow> (unit outcome \<times> console) option" where
  "run_console X J T stream k =
     (case console_start J stream k of
        (Done asset_infos, k1) \<Rightarrow> console_loop X J T asset_infos None k1
      | (Failed e, k1) \<Rightarrow> Some (Failed e, k1)
      | (Panicked, k1) \<Rightarrow> Some (Panicked, k1))"

end
