(* ===== verification/Console_Sends.thy ===== *)
theory Console_Sends
  imports Console_Menu
begin

text \<open>
  What the console may send to the node: rules for the actions in the style of a Hoare logic, in which
  an action is described by a policy on the messages it writes and a predicate on its result, and the
  policy that every handler and every round keeps.
\<close>

section \<open>Policies\<close>

definition writes :: "json \<Rightarrow> (message \<Rightarrow> bool) \<Rightarrow> conn \<Rightarrow> conn \<Rightarrow> bool" where
  "writes J P c c' \<longleftrightarrow> (wr_room (cn_writer c) = None \<longrightarrow>
     wr_room (cn_writer c') = None \<and>
     (\<exists>ms bss. map (j_message_to_vec J) ms = map Some bss \<and> (\<forall>m\<in>set ms. P m) \<and>
        wr_bytes (cn_writer c') = wr_bytes (cn_writer c) @ concat (map frame bss)))"

definition sends :: "json \<Rightarrow> (message \<Rightarrow> bool) \<Rightarrow> 'a action \<Rightarrow> ('a \<Rightarrow> bool) \<Rightarrow> bool" where
  "sends J P m Q \<longleftrightarrow> (\<forall>k. writes J P (tm_conn k) (tm_conn (snd (m k))) \<and>
     (\<forall>x. fst (m k) = Done x \<longrightarrow> Q x))"

lemma writes_refl [simp]: "writes J P c c"
  unfolding writes_def by (auto intro: exI [of _ "[]"])

lemma writes_reader [simp]: "writes J P c (c'\<lparr>cn_reader := r\<rparr>) = writes J P c c'"
  by (simp add: writes_def)

lemma writes_trans:
  assumes "writes J P a b" "writes J P b c"
  shows "writes J P a c"
proof (cases "wr_room (cn_writer a) = None")
  case True
  then obtain ms bss where b: "wr_room (cn_writer b) = None" "map (j_message_to_vec J) ms = map Some bss"
    "\<forall>m\<in>set ms. P m" "wr_bytes (cn_writer b) = wr_bytes (cn_writer a) @ concat (map frame bss)"
    using assms(1) by (auto simp: writes_def)
  with assms(2) obtain ms' bss' where c: "wr_room (cn_writer c) = None" "map (j_message_to_vec J) ms' = map Some bss'"
    "\<forall>m\<in>set ms'. P m" "wr_bytes (cn_writer c) = wr_bytes (cn_writer b) @ concat (map frame bss')"
    by (auto simp: writes_def)
  from b c show ?thesis
    unfolding writes_def by (intro impI conjI exI [of _ "ms @ ms'"] exI [of _ "bss @ bss'"]) auto
next
  case False
  then show ?thesis by (auto simp: writes_def)
qed

lemma writes_send_message: "P msg \<Longrightarrow> writes J P c (snd (send_message J c msg))"
proof (cases "j_message_to_vec J msg")
  case (Some bs)
  assume "P msg"
  with Some show ?thesis
    by (auto simp: writes_def send_message_undisturbed intro!: exI [of _ "[msg]"] exI [of _ "[bs]"])
qed (simp add: send_message_def)

lemma writes_exchange:
  assumes "P msg"
  shows "writes J P c (snd (exchange J c msg))"
proof -
  have "writes J P c' (snd (receive_message J c'))" for c'
    by (simp add: receive_message_def split: prod.splits)
  then show ?thesis
    using writes_send_message [of P msg J c] assms
    by (auto simp: exchange_def intro: writes_trans split: prod.splits sum.splits)
qed

section \<open>Rules\<close>

named_theorems sends_intros \<open>introduction rules for \<open>sends\<close>\<close>

lemma sends_result: "\<lbrakk>sends J P m Q; \<And>x. Q x \<Longrightarrow> R x\<rbrakk> \<Longrightarrow> sends J P m R"
  by (auto simp: sends_def)

lemma sends_and_then [sends_intros]:
  assumes "sends J P m (\<lambda>x. sends J P (f x) R)"
  shows "sends J P (and_then m f) R"
  unfolding sends_def
proof (intro allI)
  fix k
  obtain o1 k1 where m: "m k = (o1, k1)" by force
  have first: "writes J P (tm_conn k) (tm_conn k1)" "\<forall>x. o1 = Done x \<longrightarrow> sends J P (f x) R"
    using assms m unfolding sends_def [of J P m] by (metis fst_conv snd_conv)+
  show "writes J P (tm_conn k) (tm_conn (snd (and_then m f k))) \<and> (\<forall>x. fst (and_then m f k) = Done x \<longrightarrow> R x)"
  proof (cases o1)
    case (Done x)
    with first m show ?thesis by (auto simp: sends_def intro: writes_trans)
  qed (use m first in auto)
qed

lemma sends_basic [sends_intros]:
  "Q x \<Longrightarrow> sends J P (return_ok x) Q" "Q x \<Longrightarrow> sends J P (say s x) Q"
  "Q1 () \<Longrightarrow> sends J P (print_text s) Q1" "Q1 () \<Longrightarrow> sends J P (println s) Q1"
  "(\<And>l. Q2 l) \<Longrightarrow> sends J P read_line Q2" "(\<And>sk. Q3 sk) \<Longrightarrow> sends J P generate_key Q3"
  "(\<And>y. v = Some y \<Longrightarrow> Q y) \<Longrightarrow> sends J P (expect v) Q"
  by (auto simp: sends_def read_line_def generate_key_def expect_def split: list.splits sum.splits option.splits)

lemma sends_unwrap_io [sends_intros]: "sends J P m Q \<Longrightarrow> sends J P (unwrap_io m) Q"
  unfolding sends_def unwrap_io_def by (auto split: prod.splits outcome.splits) (metis fst_conv snd_conv)+

lemma sends_if [sends_intros]:
  "\<lbrakk>b \<Longrightarrow> sends J P m R; \<not> b \<Longrightarrow> sends J P m' R\<rbrakk> \<Longrightarrow> sends J P (if b then m else m') R"
  by simp

lemma sends_case_option [sends_intros]:
  "\<lbrakk>v = None \<Longrightarrow> sends J P m R; \<And>x. v = Some x \<Longrightarrow> sends J P (f x) R\<rbrakk> \<Longrightarrow>
   sends J P (case v of None \<Rightarrow> m | Some x \<Rightarrow> f x) R"
  by (cases v) auto

lemma sends_case_list [sends_intros]:
  "\<lbrakk>xs = [] \<Longrightarrow> sends J P m R; \<And>y ys. xs = y # ys \<Longrightarrow> sends J P (f y ys) R\<rbrakk> \<Longrightarrow>
   sends J P (case xs of [] \<Rightarrow> m | y # ys \<Rightarrow> f y ys) R"
  by (cases xs) auto

lemma sends_case_prod [sends_intros]:
  "(\<And>x y. p = (x, y) \<Longrightarrow> sends J P (f x y) R) \<Longrightarrow> sends J P (case p of (x, y) \<Rightarrow> f x y) R"
  by (cases p) auto

lemma sends_case_direction [sends_intros]:
  "\<lbrakk>sends J P m R; sends J P m' R\<rbrakk> \<Longrightarrow> sends J P (case d of Buy \<Rightarrow> m | Sell \<Rightarrow> m') R"
  by (cases d) auto

lemma sends_for_each [sends_intros]:
  assumes "\<And>x. sends J P (f x) (\<lambda>_. True)" "R ()"
  shows "sends J P (for_each f xs) R"
proof -
  have "sends J P (for_each f xs) (\<lambda>_. True)"
  proof (induction xs)
    case (Cons x xs)
    have "sends J P (f x) (\<lambda>_. sends J P (for_each f xs) (\<lambda>_. True))"
      by (rule sends_result [OF assms(1)]) (rule Cons)
    then show ?case unfolding for_each.simps by (rule sends_and_then)
  qed (simp add: sends_def)
  then show ?thesis by (rule sends_result) (simp add: assms(2))
qed

lemma sends_request:
  assumes "\<And>c. writes J P c (snd (call c))" "\<And>x. Q x"
  shows "sends J P (request call) Q"
  using assms by (auto simp: sends_def request_def split: prod.splits sum.splits) (metis snd_conv)+

lemma query_conn:
  "snd (send_account_query J c pk) = snd (exchange J c (Application (AccountQueryMsg pk)))"
  "snd (send_assets_query J c) = snd (exchange J c (Application AssetQueryMsg))"
  "snd (send_markets_query J c) = snd (exchange J c (Application MarketsQueryMsg))"
  "snd (send_market_info_query J c m) = snd (exchange J c (Application (MarketInfoQueryMsg m)))"
  by (auto simp: send_account_query_def send_assets_query_def send_markets_query_def send_market_info_query_def
      split: prod.splits sum.splits option.splits message.splits app_message.splits)

lemma sends_messages [sends_intros]:
  "\<lbrakk>P (Application (SubmitTransaction tx)); \<And>x. Q1 x\<rbrakk> \<Longrightarrow> sends J P (request (\<lambda>c. send_transaction J c tx)) Q1"
  "\<lbrakk>P (Application (Drip pk a)); \<And>x. Q1 x\<rbrakk> \<Longrightarrow> sends J P (request (\<lambda>c. send_drip J c pk a)) Q1"
  "\<lbrakk>P (Application (AccountQueryMsg pk)); \<And>x. Q2 x\<rbrakk> \<Longrightarrow> sends J P (request (\<lambda>c. send_account_query J c pk)) Q2"
  "\<lbrakk>P (Application AssetQueryMsg); \<And>x. Q3 x\<rbrakk> \<Longrightarrow> sends J P (request (send_assets_query J)) Q3"
  "\<lbrakk>P (Application MarketsQueryMsg); \<And>x. Q4 x\<rbrakk> \<Longrightarrow> sends J P (request (send_markets_query J)) Q4"
  "\<lbrakk>P (Application (MarketInfoQueryMsg m)); \<And>x. Q5 x\<rbrakk> \<Longrightarrow>
    sends J P (request (\<lambda>c. send_market_info_query J c m)) Q5"
  by (rule sends_request; simp add: query_conn writes_exchange send_transaction_def send_drip_def writes_send_message)+

lemmas [sends_intros] = TrueI

section \<open>The policy\<close>

text \<open>
  A loaded account has the key pair of its secret key, and the console sends queries, drips of the two
  assets for a valid key and pending transactions whose signature verifies.
\<close>

definition account_ok :: "crates \<Rightarrow> client_account \<Rightarrow> bool" where
  "account_ok X client \<longleftrightarrow>
     signs X (ca_sk client) \<and> ca_pk_str client = pk_from_public_key X (x_verifying_key X (ca_sk client))"

fun may_send :: "crates \<Rightarrow> message \<Rightarrow> bool" where
  "may_send X (Application (SubmitTransaction tx)) \<longleftrightarrow> verify_sender X tx = Some True \<and> get_status tx = Pending"
| "may_send X (Application (Drip pk asset_id)) \<longleftrightarrow> x_key_ok X pk \<and> asset_id < 2"
| "may_send X (Application (AccountQueryMsg pk)) \<longleftrightarrow> x_key_ok X pk"
| "may_send X (Application (MarketInfoQueryMsg _)) \<longleftrightarrow> True"
| "may_send X (Application MarketsQueryMsg) \<longleftrightarrow> True"
| "may_send X (Application AssetQueryMsg) \<longleftrightarrow> True"
| "may_send X _ \<longleftrightarrow> False"

lemma account_key:
  assumes "hex_ok X" "account_ok X client" "pk_to_bytes X (ca_pk_str client) = Some pk"
  shows "pk = x_verifying_key X (ca_sk client)" "x_key_ok X pk"
  using assms by (auto simp: account_ok_def signs_def hex_ok_def pk_to_bytes_def pk_from_public_key_def)
    (metis option.inject)+

lemma may_submit:
  assumes "hex_ok X" "account_ok X client" "pk_to_bytes X (ca_pk_str client) = Some pk"
    and "unsigned_from txn = pk" "unsigned_status txn = Pending"
  shows "may_send X (Application (SubmitTransaction (tx_sign X (ca_sk client) txn)))"
  using assms account_key [OF assms(1-3)] verify_sender_sign [OF assms(1)]
  by (auto simp: account_ok_def get_status_def tx_sign_def Let_def)

section \<open>The handlers\<close>

lemma query_account_sends [sends_intros]:
  "\<lbrakk>hex_ok X; account_ok X client; \<And>x. Q x\<rbrakk> \<Longrightarrow> sends J (may_send X) (query_account X J client) Q"
  unfolding query_account_def by (intro sends_intros) (auto dest: account_key)

lemma check_balance_sends [sends_intros]: "(\<And>b. Q b) \<Longrightarrow> sends J P (check_balance ab a n) Q"
  unfolding check_balance_def by (intro sends_intros)

lemma prompt_ack_sends [sends_intros]: "Q () \<Longrightarrow> sends J P prompt_ack Q"
  unfolding prompt_ack_def by (intro sends_intros)

lemma prompt_sends [sends_intros]:
  "(\<And>b. Q b) \<Longrightarrow> sends J P prompt_confirmation Q"
  "(\<And>b. Q b) \<Longrightarrow> sends J P (prompt_cancel_confirmation i) Q"
  unfolding prompt_confirmation_def prompt_cancel_confirmation_def by (intro sends_intros; blast)+

lemma display_sends [sends_intros]:
  "Q () \<Longrightarrow> sends J P (display_spot_balances T assets ab) Q"
  "Q () \<Longrightarrow> sends J P (display_spot_markets T markets) Q"
  "Q () \<Longrightarrow> sends J P display_spot_actions Q"
  "Q () \<Longrightarrow> sends J P (display_market T market base) Q"
  "Q () \<Longrightarrow> sends J P (display_user_available_balance T ab base quote) Q"
  "Q () \<Longrightarrow> sends J P (display_open_orders T los t d base) Q"
  "Q () \<Longrightarrow> sends J P (handle_help T) Q"
  unfolding display_spot_balances_def display_spot_markets_def display_spot_actions_def display_market_def
    display_user_available_balance_def display_open_orders_def handle_help_def Let_def
  by (intro sends_intros; assumption)+

lemma client_account_new_sends [sends_intros]:
  "\<lbrakk>signs X sk; \<And>a. account_ok X a \<Longrightarrow> Q a\<rbrakk> \<Longrightarrow> sends J P (client_account_new X sk) Q"
  by (auto simp: sends_def client_account_new_def account_ok_def Let_def)

lemma account_sends [sends_intros]:
  assumes "\<And>sk. signs X sk" "\<And>a. account_ok X a \<Longrightarrow> Q a"
  shows "sends J P (handle_create X) Q" "sends J P (handle_load X s) Q"
  unfolding handle_create_def handle_load_def by (intro sends_intros assms; assumption)+

lemma submit_signed_sends:
  assumes "hex_ok X" "account_ok X client" "pk_to_bytes X (ca_pk_str client) = Some pk"
    and "unsigned_from txn = pk" "unsigned_status txn = Pending" "Q ()"
  shows "sends J (may_send X) (submit_signed X J client txn) Q"
  unfolding submit_signed_def using may_submit [OF assms(1-5)] assms(6) by (intro sends_intros)

lemma console_drip_sends [sends_intros]:
  assumes "hex_ok X" "\<And>a. client = Some a \<Longrightarrow> account_ok X a" "Q ()"
  shows "sends J (may_send X) (console_drip X J s client) Q"
  unfolding console_drip_def Let_def
  by (intro sends_intros assms(3)) (auto dest: account_key [OF assms(1) assms(2)])

lemma console_transfer_sends [sends_intros]:
  assumes "hex_ok X" "\<And>a. client = Some a \<Longrightarrow> account_ok X a" "Q ()"
  shows "sends J (may_send X) (console_transfer X J s client) Q"
  unfolding console_transfer_def Let_def
  by (intro sends_intros may_submit [OF assms(1) assms(2)] assms; simp add: assms(3))

lemma console_order_sends [sends_intros]:
  assumes "hex_ok X" "account_ok X client" "Q ()"
  shows "sends J (may_send X) (console_limit_order X J d b p client m) Q"
    "sends J (may_send X) (console_market_order X J d b client m) Q"
    "sends J (may_send X) (console_cancel_order X J client i mid) Q"
    "sends J (may_send X) (handle_open_orders X J T client t n base) Q"
  unfolding console_limit_order_def console_market_order_def console_cancel_order_def handle_open_orders_def Let_def
  by (intro sends_intros submit_signed_sends [OF assms(1,2)] assms; simp add: order_txn_def)+

lemma console_query_sends [sends_intros]:
  assumes "hex_ok X" "\<And>a. client = Some a \<Longrightarrow> account_ok X a" "Q ()"
  shows "sends J (may_send X) (console_query X J T client assets) Q"
  unfolding console_query_def by (intro sends_intros assms)

section \<open>The rounds\<close>

lemma limit_command_sends [sends_intros]:
  assumes "hex_ok X" "account_ok X client" "Q ()"
  shows "sends J (may_send X) (limit_command X J T client m base d p b) Q"
    "sends J (may_send X) (market_order_command X J T client m base quote d b) Q"
    "sends J (may_send X) (cancel_command X J client m i) Q"
  unfolding limit_command_def market_order_command_def cancel_command_def Let_def
  by (intro sends_intros assms)+

lemma market_action_sends [sends_intros]:
  assumes "hex_ok X" "account_ok X client" "\<And>b. Q b"
  shows "sends J (may_send X) (market_action X J T client m base quote cmd) Q"
  unfolding market_action_def Let_def by (cases cmd; simp only: market_command.case; intro sends_intros assms)

lemma market_round_sends:
  assumes "hex_ok X" "account_ok X client"
  shows "sends J (may_send X) (market_round X J T client assets i) (\<lambda>_. True)"
  unfolding market_round_def by (intro sends_intros assms) simp

lemma markets_round_sends: "sends J P (markets_round T markets) (\<lambda>_. True)"
  unfolding markets_round_def Let_def by (intro sends_intros)

definition keeps_account :: "crates \<Rightarrow> next_step \<Rightarrow> bool" where
  "keeps_account X n \<longleftrightarrow> (\<forall>a. n = Next (Some a) \<longrightarrow> account_ok X a)"

lemma console_round_sends:
  assumes "hex_ok X" "\<And>sk. signs X sk" "\<And>a. client = Some a \<Longrightarrow> account_ok X a"
  shows "sends J (may_send X) (console_round X J T assets client) (keeps_account X)"
  unfolding console_round_def Let_def
  by (intro sends_intros assms; simp add: keeps_account_def assms(3))

end
