(* ===== verification/Console_Session.thy ===== *)
theory Console_Session
  imports Console_Sends
begin

text \<open>
  A session of the console as a machine that makes one round of the current menu at a time.  The
  nested loops of \<open>run_console\<close> return a result exactly when the machine ends with it, and every state the
  machine reaches has only written messages that the policy allows.
\<close>

section \<open>The machine\<close>

datatype place =
    AtMain "client_account option"
  | AtMarkets client_account "market_info list"
  | AtMarket client_account "market_info list" market_id
  | Ended "unit outcome"

fun session_step :: "crates \<Rightarrow> json \<Rightarrow> terminal \<Rightarrow> asset list \<Rightarrow> place \<times> console \<Rightarrow> place \<times> console" where
  "session_step X J T assets (AtMain client, k) =
     (case console_round X J T assets client k of
        (Done Quit, k1) \<Rightarrow> (Ended (Done ()), k1)
      | (Done (Next client'), k1) \<Rightarrow> (AtMain client', k1)
      | (Done OpenMarkets, k1) \<Rightarrow>
          (case client of
             None \<Rightarrow> (AtMain None, snd (println ''Please create or load an account.'' k1))
           | Some a \<Rightarrow>
               (case request (send_markets_query J) k1 of
                  (Done markets, k2) \<Rightarrow> (AtMarkets a markets, k2)
                | (Failed e, k2) \<Rightarrow> (Ended (Failed e), k2)
                | (Panicked, k2) \<Rightarrow> (Ended Panicked, k2)))
      | (Failed e, k1) \<Rightarrow> (Ended (Failed e), k1)
      | (Panicked, k1) \<Rightarrow> (Ended Panicked, k1))"
| "session_step X J T assets (AtMarkets a markets, k) =
     (case markets_round T markets k of
        (Done LeaveMarkets, k1) \<Rightarrow> (AtMain (Some a), k1)
      | (Done AgainMarkets, k1) \<Rightarrow> (AtMarkets a markets, k1)
      | (Done (SelectMarket i), k1) \<Rightarrow> (AtMarket a markets i, k1)
      | (Failed e, k1) \<Rightarrow> (Ended (Failed e), k1)
      | (Panicked, k1) \<Rightarrow> (Ended Panicked, k1))"
| "session_step X J T assets (AtMarket a markets i, k) =
     (case market_round X J T a assets i k of
        (Done again, k1) \<Rightarrow> (if again then AtMarket a markets i else AtMarkets a markets, k1)
      | (Failed e, k1) \<Rightarrow> (Ended (Failed e), k1)
      | (Panicked, k1) \<Rightarrow> (Ended Panicked, k1))"
| "session_step X J T assets (Ended r, k) = (Ended r, k)"

definition session_start :: "json \<Rightarrow> io_error + conn \<Rightarrow> console \<Rightarrow> asset list \<times> place \<times> console" where
  "session_start J stream k =
     (case console_start J stream k of
        (Done assets, k1) \<Rightarrow> (assets, AtMain None, k1)
      | (Failed e, k1) \<Rightarrow> ([], Ended (Failed e), k1)
      | (Panicked, k1) \<Rightarrow> ([], Ended Panicked, k1))"

definition session_after ::
  "crates \<Rightarrow> json \<Rightarrow> terminal \<Rightarrow> io_error + conn \<Rightarrow> console \<Rightarrow> nat \<Rightarrow> place \<times> console" where
  "session_after X J T stream k n =
     (let (assets, pk) = session_start J stream k in (session_step X J T assets ^^ n) pk)"

section \<open>The machine and the loops\<close>

definition resume ::
  "(unit outcome \<times> console) option \<Rightarrow> (console \<Rightarrow> (unit outcome \<times> console) option) \<Rightarrow>
   (unit outcome \<times> console) option" where
  "resume m f = do {
     (res, k) \<leftarrow> m;
     (case res of Done _ \<Rightarrow> f k | Failed e \<Rightarrow> Some (Failed e, k) | Panicked \<Rightarrow> Some (Panicked, k))
   }"

fun session_result :: "crates \<Rightarrow> json \<Rightarrow> terminal \<Rightarrow> asset list \<Rightarrow> place \<times> console \<Rightarrow> (unit outcome \<times> console) option" where
  "session_result X J T assets (AtMain client, k) = console_loop X J T assets client k"
| "session_result X J T assets (AtMarkets a markets, k) =
     resume (markets_loop X J T a assets markets k) (console_loop X J T assets (Some a))"
| "session_result X J T assets (AtMarket a markets i, k) =
     resume (console_market X J T a assets i k) (\<lambda>k1.
       resume (markets_loop X J T a assets markets k1) (console_loop X J T assets (Some a)))"
| "session_result X J T assets (Ended r, k) = Some (r, k)"

lemma resume_simps [simp]:
  "resume (Some (Done u, k)) f = f k" "resume (Some (Failed e, k)) f = Some (Failed e, k)"
  "resume (Some (Panicked, k)) f = Some (Panicked, k)" "resume None f = None"
  by (simp_all add: resume_def)

lemma resume_assoc: "resume (resume m f) g = resume m (\<lambda>k. resume (f k) g)"
proof (cases m)
  case (Some v)
  then show ?thesis by (cases v; cases "fst v") auto
qed simp

lemma bind_resume:
  "(m \<bind> (\<lambda>(res, k). case res of Done u \<Rightarrow> f k | Failed e \<Rightarrow> Some (Failed e, k) | Panicked \<Rightarrow> Some (Panicked, k))) =
   resume m f"
  by (simp add: resume_def)

lemma session_result_step: "session_result X J T assets (session_step X J T assets pk) = session_result X J T assets pk"
proof (induction X J T assets pk rule: session_step.induct)
  case (1 X J T assets client k)
  show ?case
    unfolding session_result.simps(1)
    by (subst console_loop.simps)
      (auto simp: bind_resume handle_markets_def split: prod.splits outcome.splits next_step.splits option.splits)
next
  case (2 X J T assets a markets k)
  show ?case
    unfolding session_result.simps(2)
    by (subst markets_loop.simps)
      (auto simp: bind_resume resume_assoc split: prod.splits outcome.splits markets_choice.splits)
next
  case (3 X J T assets a markets i k)
  show ?case
    unfolding session_result.simps(3)
    by (subst console_market.simps) (auto split: prod.splits outcome.splits)
qed simp

lemma session_result_steps: "session_result X J T assets ((session_step X J T assets ^^ n) pk) = session_result X J T assets pk"
  by (induction n) (simp_all add: session_result_step)

text \<open>Some number of steps leads from one state to another.\<close>

definition leads_to ::
  "crates \<Rightarrow> json \<Rightarrow> terminal \<Rightarrow> asset list \<Rightarrow> place \<times> console \<Rightarrow> place \<times> console \<Rightarrow> bool" where
  "leads_to X J T assets pk qk \<longleftrightarrow> (\<exists>n. (session_step X J T assets ^^ n) pk = qk)"

lemma leads_to_refl [simp]: "leads_to X J T assets pk pk"
  unfolding leads_to_def by (intro exI [of _ 0]) simp

lemma leads_to_step: "leads_to X J T assets (session_step X J T assets pk) qk \<Longrightarrow> leads_to X J T assets pk qk"
  unfolding leads_to_def
proof (elim exE)
  fix n
  assume "(session_step X J T assets ^^ n) (session_step X J T assets pk) = qk"
  then show "\<exists>n. (session_step X J T assets ^^ n) pk = qk"
    by (intro exI [of _ "Suc n"]) (simp add: funpow_swap1)
qed

lemma leads_to_trans: "\<lbrakk>leads_to X J T assets a b; leads_to X J T assets b c\<rbrakk> \<Longrightarrow> leads_to X J T assets a c"
  unfolding leads_to_def by (metis comp_apply funpow_add)

text \<open>Where a menu leads to when its loop returns.\<close>

fun landing :: "place \<Rightarrow> unit outcome \<Rightarrow> place" where
  "landing p (Done _) = p"
| "landing p r = Ended r"

lemma market_ends:
  assumes "console_market X J T a assets i k = Some res"
  shows "leads_to X J T assets (AtMarket a markets i, k) (landing (AtMarkets a markets) (fst res), snd res)"
proof (rule console_market.raw_induct [where P = "\<lambda>X J T a assets i k res.
    leads_to X J T assets (AtMarket a markets i, k) (landing (AtMarkets a markets) (fst res), snd res)", OF _ assms])
  fix self X J T a assets i k res
  assume self: "\<And>X J T a assets i k res. self X J T a assets i k = Some res \<Longrightarrow>
      leads_to X J T assets (AtMarket a markets i, k) (landing (AtMarkets a markets) (fst res), snd res)"
    and body: "(case market_round X J T a assets i k of
        (Done again, k1) \<Rightarrow> if again then self X J T a assets i k1 else Some (Done (), k1)
      | (Failed e, k1) \<Rightarrow> Some (Failed e, k1) | (Panicked, k1) \<Rightarrow> Some (Panicked, k1)) = Some res"
  show "leads_to X J T assets (AtMarket a markets i, k) (landing (AtMarkets a markets) (fst res), snd res)"
    by (rule leads_to_step) (use body self in \<open>auto split: prod.splits outcome.splits if_splits\<close>)
qed

lemma markets_end:
  assumes "markets_loop X J T a assets markets k = Some res"
  shows "leads_to X J T assets (AtMarkets a markets, k) (landing (AtMain (Some a)) (fst res), snd res)"
proof (rule markets_loop.raw_induct [where P = "\<lambda>X J T a assets markets k res.
    leads_to X J T assets (AtMarkets a markets, k) (landing (AtMain (Some a)) (fst res), snd res)", OF _ assms])
  fix self X J T a assets markets k res
  assume self: "\<And>X J T a assets markets k res. self X J T a assets markets k = Some res \<Longrightarrow>
      leads_to X J T assets (AtMarkets a markets, k) (landing (AtMain (Some a)) (fst res), snd res)"
    and body: "(case markets_round T markets k of
        (Done LeaveMarkets, k1) \<Rightarrow> Some (Done (), k1)
      | (Done AgainMarkets, k1) \<Rightarrow> self X J T a assets markets k1
      | (Done (SelectMarket i), k1) \<Rightarrow> console_market X J T a assets i k1 \<bind> (\<lambda>(res, k2).
          case res of Done _ \<Rightarrow> self X J T a assets markets k2
          | Failed e \<Rightarrow> Some (Failed e, k2) | Panicked \<Rightarrow> Some (Panicked, k2))
      | (Failed e, k1) \<Rightarrow> Some (Failed e, k1) | (Panicked, k1) \<Rightarrow> Some (Panicked, k1)) = Some res"
  have select: "leads_to X J T assets (AtMarket a markets i, k1) (landing (AtMain (Some a)) (fst res), snd res)"
    if run: "resume (console_market X J T a assets i k1) (self X J T a assets markets) = Some res" for i k1
  proof -
    obtain r k2 where m: "console_market X J T a assets i k1 = Some (r, k2)"
      using run by (cases "console_market X J T a assets i k1") auto
    from market_ends [OF m, of markets] run m self [of X J T a assets markets k2 res] show ?thesis
      by (cases r) (auto intro: leads_to_trans)
  qed
  show "leads_to X J T assets (AtMarkets a markets, k) (landing (AtMain (Some a)) (fst res), snd res)"
    by (rule leads_to_step) (use body self in \<open>auto simp: bind_resume intro: select
      split: prod.splits outcome.splits markets_choice.splits\<close>)
qed

lemma console_ends:
  assumes "console_loop X J T assets client k = Some res"
  shows "leads_to X J T assets (AtMain client, k) (Ended (fst res), snd res)"
proof (rule console_loop.raw_induct [where P = "\<lambda>X J T assets client k res.
    leads_to X J T assets (AtMain client, k) (Ended (fst res), snd res)", OF _ assms])
  fix self X J T assets client k res
  assume self: "\<And>X J T assets client k res. self X J T assets client k = Some res \<Longrightarrow>
      leads_to X J T assets (AtMain client, k) (Ended (fst res), snd res)"
    and body: "(case console_round X J T assets client k of
        (Done Quit, k1) \<Rightarrow> Some (Done (), k1)
      | (Done (Next client'), k1) \<Rightarrow> self X J T assets client' k1
      | (Done OpenMarkets, k1) \<Rightarrow> handle_markets X J T client assets k1 \<bind> (\<lambda>(res, k2).
          case res of Done _ \<Rightarrow> self X J T assets client k2
          | Failed e \<Rightarrow> Some (Failed e, k2) | Panicked \<Rightarrow> Some (Panicked, k2))
      | (Failed e, k1) \<Rightarrow> Some (Failed e, k1) | (Panicked, k1) \<Rightarrow> Some (Panicked, k1)) = Some res"
  have return_main: "leads_to X J T assets (AtMarkets a markets, k1) (Ended (fst res), snd res)"
    if run: "resume (markets_loop X J T a assets markets k1) (self X J T assets (Some a)) = Some res" for a markets k1
  proof -
    obtain r k2 where m: "markets_loop X J T a assets markets k1 = Some (r, k2)"
      using run by (cases "markets_loop X J T a assets markets k1") auto
    from markets_end [OF m] run m self [of X J T assets "Some a" k2 res] show ?thesis
      by (cases r) (auto intro: leads_to_trans)
  qed
  show "leads_to X J T assets (AtMain client, k) (Ended (fst res), snd res)"
    by (rule leads_to_step) (use body self in \<open>auto simp: bind_resume handle_markets_def intro: return_main
      split: prod.splits outcome.splits next_step.splits option.splits\<close>)
qed

lemma run_console_machine:
  "run_console X J T stream k = Some (r, k') \<longleftrightarrow> (\<exists>n. session_after X J T stream k n = (Ended r, k'))"
proof -
  obtain assets p k1 where start: "session_start J stream k = (assets, p, k1)" by (metis prod_cases3)
  have run: "run_console X J T stream k = session_result X J T assets (p, k1)"
    using start by (auto simp: run_console_def session_start_def split: prod.splits outcome.splits)
  have "session_result X J T assets (p, k1) = Some (r, k') \<longleftrightarrow> leads_to X J T assets (p, k1) (Ended r, k')"
  proof
    assume "session_result X J T assets (p, k1) = Some (r, k')"
    with start show "leads_to X J T assets (p, k1) (Ended r, k')"
      using console_ends [of X J T assets None k1 "(r, k')"]
      by (auto simp: session_start_def split: prod.splits outcome.splits)
  next
    assume "leads_to X J T assets (p, k1) (Ended r, k')"
    then obtain n where n: "(session_step X J T assets ^^ n) (p, k1) = (Ended r, k')" by (auto simp: leads_to_def)
    from session_result_steps [of X J T assets n "(p, k1)"] show "session_result X J T assets (p, k1) = Some (r, k')"
      by (simp add: n)
  qed
  then show ?thesis by (simp add: run leads_to_def session_after_def start)
qed

section \<open>What a session sends\<close>

definition place_ok :: "crates \<Rightarrow> place \<Rightarrow> bool" where
  "place_ok X p \<longleftrightarrow>
     (case p of
        AtMain client \<Rightarrow> (\<forall>a. client = Some a \<longrightarrow> account_ok X a)
      | AtMarkets a _ \<Rightarrow> account_ok X a
      | AtMarket a _ _ \<Rightarrow> account_ok X a
      | Ended _ \<Rightarrow> True)"

lemma sends_run: "\<lbrakk>sends J P m Q; m k = (r, k')\<rbrakk> \<Longrightarrow> writes J P (tm_conn k) (tm_conn k') \<and> (\<forall>x. r = Done x \<longrightarrow> Q x)"
  unfolding sends_def by (metis fst_conv snd_conv)

lemma markets_query_sends: "sends J (may_send X) (request (send_markets_query J)) (\<lambda>_. True)"
  by (intro sends_intros) simp

lemma session_step_sends:
  assumes hex: "hex_ok X" and keys: "\<And>sk. signs X sk" and ok: "place_ok X p"
    and step: "session_step X J T assets (p, k) = (p', k')"
  shows "writes J (may_send X) (tm_conn k) (tm_conn k') \<and> place_ok X p'"
proof (cases p)
  case (AtMain client)
  have acc: "\<And>a. client = Some a \<Longrightarrow> account_ok X a" using ok AtMain by (simp add: place_ok_def)
  obtain r k1 where r: "console_round X J T assets client k = (r, k1)" by force
  note sent = sends_run [OF console_round_sends [OF hex keys acc] r]
  obtain r2 k2 where r2: "request (send_markets_query J) k1 = (r2, k2)" by force
  note sent2 = sends_run [OF markets_query_sends r2, of X]
  show ?thesis
    using sent sent2 step acc r2
    by (auto simp: AtMain r place_ok_def keeps_account_def intro: writes_trans
        split: outcome.splits next_step.splits option.splits)
next
  case (AtMarkets a markets)
  obtain r k1 where r: "markets_round T markets k = (r, k1)" by force
  from sends_run [OF markets_round_sends r, of J "may_send X"] ok step show ?thesis
    by (auto simp: AtMarkets r place_ok_def split: outcome.splits markets_choice.splits)
next
  case (AtMarket a markets i)
  obtain r k1 where r: "market_round X J T a assets i k = (r, k1)" by force
  have "account_ok X a" using ok by (simp add: AtMarket place_ok_def)
  from sends_run [OF market_round_sends [OF hex this] r] this step show ?thesis
    by (auto simp: AtMarket r place_ok_def split: outcome.splits if_splits)
qed (use step ok in auto)

lemma session_steps_send:
  assumes "hex_ok X" "\<And>sk. signs X sk" "place_ok X p"
    and "(session_step X J T assets ^^ n) (p, k) = (p', k')"
  shows "writes J (may_send X) (tm_conn k) (tm_conn k') \<and> place_ok X p'"
  using assms(4)
proof (induction n arbitrary: p' k')
  case (Suc n)
  obtain q k1 where q: "(session_step X J T assets ^^ n) (p, k) = (q, k1)" by force
  with Suc.prems have "session_step X J T assets (q, k1) = (p', k')" by simp
  with session_step_sends [OF assms(1,2)] Suc.IH [OF q] show ?case by (blast intro: writes_trans)
qed (use assms(3) in simp)

lemma session_start_sends:
  assumes "session_start J (Inr c) k = (assets, p, k1)"
  shows "writes J (may_send X) c (tm_conn k1) \<and> place_ok X p"
proof -
  obtain r k2 where r: "console_start J (Inr c) k = (r, k2)" by force
  then obtain out where "request (send_assets_query J) (k\<lparr>tm_stdout := out, tm_conn := c\<rparr>) = (r, k2)"
    unfolding console_start_def create_client_connection_def fetch_asset_infos_def
    by (simp add: and_then_def del: append.simps)
  moreover have "sends J (may_send X) (request (send_assets_query J)) (\<lambda>_. True)" by (intro sends_intros) simp
  ultimately have "writes J (may_send X) c (tm_conn k2)" by (auto dest: sends_run)
  with r assms show ?thesis by (auto simp: session_start_def place_ok_def split: outcome.splits)
qed

text \<open>
  Whatever is typed and whatever the node answers, after any number of rounds the bytes written to a
  fresh connection are the frames of messages that the policy allows.
\<close>

lemma session_sends:
  assumes "hex_ok X" "\<And>sk. signs X sk" "wr_room (cn_writer c) = None" "wr_bytes (cn_writer c) = []"
    and "session_after X J T (Inr c) k n = (p, k')"
  shows "\<exists>ms bss. map (j_message_to_vec J) ms = map Some bss \<and> (\<forall>m\<in>set ms. may_send X m) \<and>
    wr_bytes (cn_writer (tm_conn k')) = concat (map frame bss)"
proof -
  obtain assets q k1 where start: "session_start J (Inr c) k = (assets, q, k1)" by (metis prod_cases3)
  have "(session_step X J T assets ^^ n) (q, k1) = (p, k')" using assms(5) by (simp add: session_after_def start)
  then have "writes J (may_send X) c (tm_conn k')"
    using session_start_sends [OF start] session_steps_send [OF assms(1,2)] by (blast intro: writes_trans)
  with assms(3,4) show ?thesis by (auto simp: writes_def)
qed

section \<open>The end of the input\<close>

lemma console_round_eof:
  assumes "tm_stdin k = []"
  shows "\<exists>out. console_round X J T assets client k = (Done (Next client), k\<lparr>tm_stdout := out\<rparr>)"
  using assms by (simp add: console_round_def unwrap_io_def read_line_def trim_def starts_with_def and_then_def Let_def)
    blast

lemma console_loop_eof:
  assumes "tm_stdin k = []"
  shows "console_loop X J T assets client k = None"
proof (rule ccontr)
  assume "console_loop X J T assets client k \<noteq> None"
  then obtain n q where n: "(session_step X J T assets ^^ n) (AtMain client, k) = (Ended (fst q), snd q)"
    using console_ends unfolding leads_to_def by blast
  have "\<exists>out. (session_step X J T assets ^^ n) (AtMain client, k) = (AtMain client, k\<lparr>tm_stdout := out\<rparr>)"
  proof (induction n)
    case 0
    show ?case by (auto intro: exI [of _ "tm_stdout k"])
  next
    case (Suc n)
    then obtain out where out: "(session_step X J T assets ^^ n) (AtMain client, k) = (AtMain client, k\<lparr>tm_stdout := out\<rparr>)"
      by blast
    from console_round_eof [of "k\<lparr>tm_stdout := out\<rparr>" X J T assets client] assms out show ?case by auto
  qed
  with n show False by auto
qed

end
