(* ===== verification/Console_Properties.thy ===== *)
theory Console_Properties
  imports Console_Session Node_Samples
begin

text \<open>
  Properties of the console: what it sends, its menus, and the prices it shows and reads.
\<close>

section \<open>Samples\<close>

definition sample_terminal :: terminal where
  "sample_terminal = \<lparr>t_colour = (\<lambda>_ _ s. s), t_powi10 = (\<lambda>n. 10 ^ n), t_show = (\<lambda>_. []), t_show2 = (\<lambda>_. [])\<rparr>"

definition sample_console :: console where
  "sample_console = \<lparr>tm_conn = fresh_conn [], tm_stdin = [Inr ''create'', Inr ''query''], tm_stdout = [],
     tm_keys = (\<lambda>i. [of_nat i])\<rparr>"

section \<open>Sessions\<close>

text \<open>
  C13. Whatever a user types and whatever the node answers, after any number of rounds of the console's
  menus everything it has written to its connection is a sequence of frames of queries, of drips of the
  two assets for a valid key, and of pending transactions that pass the check of their sender; this
  rests on the documented round trip of the hexadecimal codec and on the correctness of signatures.\<close>

theorem console_sends_verified:
  assumes "hex_ok X" "\<And>sk. signs X sk" "wr_room (cn_writer c) = None" "wr_bytes (cn_writer c) = []"
    and "session_after X J T (Inr c) k n = (p, k')"
  shows "\<exists>ms bss. map (j_message_to_vec J) ms = map Some bss \<and> (\<forall>m\<in>set ms. may_send X m) \<and>
    wr_bytes (cn_writer (tm_conn k')) = concat (map frame bss)"
  by (rule session_sends [OF assms])

theorem console_sends_verified_witness:
  "\<exists>p k' ms bss. session_after sample_crates sample_json sample_terminal (Inr (fresh_conn [])) sample_console 2 = (p, k') \<and>
     map (j_message_to_vec sample_json) ms = map Some bss \<and> (\<forall>m\<in>set ms. may_send sample_crates m) \<and>
     wr_bytes (cn_writer (tm_conn k')) = concat (map frame bss)"
proof -
  obtain p k' where run: "session_after sample_crates sample_json sample_terminal (Inr (fresh_conn [])) sample_console 2 = (p, k')"
    by force
  have "wr_room (cn_writer (fresh_conn [])) = None" "wr_bytes (cn_writer (fresh_conn [])) = []"
    by (simp_all add: fresh_conn_def)
  from console_sends_verified [OF sample_crates_hex sample_crates_signs this run] run show ?thesis by blast
qed

text \<open>
  C23. The three nested loops of the console return a result exactly when the machine that makes one
  round of the current menu at a time ends with that result: from a market one returns to the list of
  markets, from there to the main menu with the same account, and an error or a panic anywhere ends the
  console.\<close>

theorem console_loops_are_machine:
  "run_console X J T stream k = Some (r, k') \<longleftrightarrow> (\<exists>n. session_after X J T stream k n = (Ended r, k'))"
  by (rule run_console_machine)

text \<open>At the end of its input the main menu repeats forever.\<close>

lemma console_spins_at_eof: "tm_stdin k = [] \<Longrightarrow> console_loop X J T assets client k = None"
  by (rule console_loop_eof)

text \<open>
  The balance check of a sell counts lots where the ledger locks units: with 100 available units and lots
  of 100 units the console submits a sell of 50 lots, which the ledger refuses.\<close>

lemma console_check_counts_lots:
  fixes k
  defines "ab \<equiv> \<lparr>ab_asset_balances = [\<lparr>atb_asset_id = 0, atb_available_balance = 100, atb_total_balance = 100\<rparr>]\<rparr>"
    and "lots \<equiv> \<lparr>mp_base_lot_size = 100, mp_quote_lot_size = 100, mp_tick = 100, mp_tick_decimals = 3\<rparr>"
  shows "fst (check_balance ab 0 50 k) = Done True"
    "map_option fst (lock_limit sample_market ab (sample_order 4 taker_key Sell 11 50) lots) = Some None"
  by (simp_all add: ab_def lots_def check_balance_def find_asset_id_def lock_limit_def exchange_eval)

section \<open>Prices\<close>

text \<open>
  C22. A price that the console displays and the user types back is read as the same price multiple,
  through the decimal text, the conversion to a float and the rounding of its product with the scale,
  for every tick and every price below \<open>2 ^ 50\<close> units of the last decimal.\<close>

theorem displayed_price_parses_back:
  assumes "format_price p tick decimals = Some s" "0 < tick" "p * tick < 2 ^ 50"
  shows "\<exists>x. parse_f64 s = Some x \<and> parse_price_to_multiple x tick decimals = Some (Some p)"
  using format_price_decimal [OF assms(1)] typed_price_exact [of "p * tick" decimals tick] assms by simp

theorem displayed_price_parses_back_witness:
  "format_price 123 100 3 = Some ''12.300'' \<and>
   (\<exists>x. parse_f64 ''12.300'' = Some x \<and> parse_price_to_multiple x 100 3 = Some (Some 123))"
proof -
  have shown: "format_price 123 100 3 = Some ''12.300''"
    by (simp add: format_price_def checked_mul_def checked_pow_def show_nat.simps digit_char_def pad_zeros_def char_of_def bit_0)
  with displayed_price_parses_back [OF shown] show ?thesis by simp
qed

end
