(* ===== verification/Spec2Isabelle.thy ===== *)
theory Spec2Isabelle
  imports Exchange_Properties Ledger_Properties Consensus_Properties Node_Properties Console_Properties
begin

text \<open>
  \<^bold>\<open>Superliquid: a spot exchange replicated by chained HotStuff.\<close>

  The program (\<^verbatim>\<open>src/src\<close>) runs nodes that agree on blocks of signed transactions and execute them on a
  ledger with accounts, a clearing house and order books.  A client connects to a node over TCP and
  sends transactions and queries; the node forwards transactions to its peers and to its replica; the
  replica keeps them in a mempool, proposes and votes for blocks, and applies a block to the ledger
  when it heads a chain of three certified blocks; the ledger executes transfers, orders and
  cancellations; an order is matched in the book of its market and settled in the clearing house.

  \<^bold>\<open>Theories and sources\<close>, in the order of their dependencies.

  \<^item> \<open>Prelude\<close>: checked machine arithmetic (\<open>None\<close> is the overflow panic), casts, vector operations with
    their panics, and lemmas on them; the collection \<open>checked\<close> inverts them.
  \<^item> \<open>Orders\<close> (\<^verbatim>\<open>state/order.rs\<close>, \<^verbatim>\<open>state/asset.rs\<close>), \<open>Precision\<close> (lot and tick conversions of
    \<^verbatim>\<open>spot_clearinghouse.rs\<close>).
  \<^item> \<open>Order_Book\<close> (\<^verbatim>\<open>state/spot_market.rs\<close>): levels, the three hand-written binary searches, and the
    locale \<open>price_priority\<close> for a comparison of prices, interpreted for bids and asks.  \<open>Matching\<close> and
    \<open>Market_Orders\<close>: the loops that match limit and market orders.  \<open>Price_Time\<close>: the reference
    matching by price and time and the refinement of the loops to it.  \<open>Market\<close>: a market with both
    sides and its invariant.  \<open>Market_Sells\<close> and \<open>Market_Buys\<close>: market sells return and refine the
    reference matching, the fills of market buys account for all they report.  \<open>Book_Sanity\<close>: the weaker
    invariant (sorted, uncrossed, distinct ids) that needs no bound on sizes.
  \<^item> \<open>Clearinghouse\<close> (\<^verbatim>\<open>state/spot_clearinghouse.rs\<close>): balances, markets, locking and settlement;
    \<open>Settlement\<close>: the total of every asset over all accounts is preserved by settlement.
  \<^item> \<open>Transactions\<close> (\<^verbatim>\<open>types/transaction.rs\<close>) with the record \<open>crates\<close> of the functions taken from
    \<^verbatim>\<open>hex\<close>, \<^verbatim>\<open>sha2\<close>, \<^verbatim>\<open>ed25519_dalek\<close> and \<^verbatim>\<open>bincode\<close>; \<open>Ledger\<close> (\<^verbatim>\<open>state/state.rs\<close>): the three transaction
    handlers, execution of blocks and queries; \<open>Ledger_Supply\<close>: what a transaction does to supplies;
    \<open>Ledger_Sanity\<close>: every transaction keeps all books sorted and uncrossed.
  \<^item> \<open>Mempool\<close>, \<open>Certificates\<close> (\<^verbatim>\<open>hotstuff/crypto.rs\<close>, with the locale \<open>quorum_system\<close>), \<open>Blocks\<close>, \<open>Messages\<close>
    (\<^verbatim>\<open>message.rs\<close>, \<^verbatim>\<open>message_window.rs\<close>, \<^verbatim>\<open>utils.rs\<close>), \<open>Pacemaker\<close> and \<open>Replica\<close> (\<^verbatim>\<open>hotstuff/replica.rs\<close>): the
    consensus, with one function per handler and \<open>replica_turn\<close> for a round of the event loop;
    \<open>Replica_Safety\<close>: reachable states of a replica and their invariant.
  \<^item> \<open>Network\<close> (\<^verbatim>\<open>network.rs\<close>): frames on byte streams.  \<open>Protocol\<close> (\<^verbatim>\<open>message_protocol.rs\<close>,
    \<^verbatim>\<open>types/message.rs\<close>, \<^verbatim>\<open>replica_sender.rs\<close>): messages, calls and channels, with \<^verbatim>\<open>serde_json\<close> as the
    record \<open>json\<close>.  \<open>Node_State\<close>, \<open>Client_Handler\<close>, \<open>Peer_Handler\<close> (\<^verbatim>\<open>node/\<close>): the tables and tasks of a
    node; \<open>Node_System\<close>: the running node as a step relation over its tasks, its replica and an
    arbitrary network, with the locale \<open>connection_task\<close>.  \<open>Config\<close> (\<^verbatim>\<open>config.rs\<close>, \<^verbatim>\<open>main.rs\<close>): the start
    from the environment.
  \<^item> \<open>Floats\<close>: the \<open>f64\<close> arithmetic and parsing that the console uses, with rounding errors.
    \<open>Console_Format\<close>, \<open>Console_IO\<close>, \<open>Console\<close>, \<open>Console_Menu\<close> (\<^verbatim>\<open>console.rs\<close>, \<^verbatim>\<open>client.rs\<close>): conversions, actions on
    the terminal and the connection, the handlers and the three nested menus.  \<open>Console_Sends\<close>: rules in
    weakest-precondition form for what an action may send.  \<open>Console_Session\<close>: a session as a machine of
    single rounds, equal to the nested loops.
  \<^item> \<open>Exchange_Properties\<close>, \<open>Ledger_Properties\<close>, \<open>Consensus_Properties\<close>, \<open>Node_Properties\<close>,
    \<open>Console_Properties\<close>: the main
    theorems, each with a witness on the concrete values of \<open>Exchange_Samples\<close>, \<open>Crate_Samples\<close>,
    \<open>Ledger_Samples\<close>, \<open>Consensus_Samples\<close> and \<open>Node_Samples\<close>.

  \<^bold>\<open>Correspondence.\<close>  A struct is a record and an enum a datatype with the source's names; unsigned integers
  are natural numbers with the width written at every operation that can overflow, except the length
  prefix of a frame, which is a \<open>32 word\<close>.  A function that may panic returns an option, and \<open>None\<close> is the
  panic; \<^verbatim>\<open>Result\<close> is a sum.  \<^verbatim>\<open>&mut self\<close> is a state argument and result.  A hash map is a partial map, or
  an association list where the code iterates over it and the order is unspecified.  The clock, the
  environment, the floating-point back-off factor, random keys, the colours of the crate \<open>colored\<close> and the
  text of a float are arguments.  Typed text is ASCII, and writing to the terminal does not fail.

  \<^bold>\<open>What is shown.\<close>  Limit orders are matched exactly as price-time priority says and never panic when
  the sizes fit the machine integers, and so are market sells; market buys never spend more than their
  size; in every reachable state of a running node all books are sorted and uncrossed; binary searches equal linear scans; cancellation with a
  copy free of self-filled lots removes exactly the order; settlement conserves every asset on books whose resting orders were never reduced by a self
  trade (and a self-filled maker is shown to break this), transfers never do; executed nonces are consecutive;
  the mempool selects by priority; a replica commits only at the end of a three-chain, votes only for
  good blocks, and two certificates other than the genesis one share a correct signer for \<open>3f+1\<close> validators; in every
  reachable state of a running node each transaction has been handed to the replica at most once, and
  queries are answered with the ledger's value; frames survive the network; the console sends only
  queries, drips and transactions that verify, and reads a price it displayed as the same price.  Several theorems prove
  defects of the code, among them the supply raised by transfers, the ignored vote flag, the ignored
  signature check of the node, the client loop that never ends, the console's menu that spins at the end
  of its input and its balance check that compares lots with units.

  \<^bold>\<open>Loops.\<close>  Loops over a finite structure are structural or have a termination proof (\<open>add_order_loop\<close>,
  \<open>mark_loop\<close>, \<open>merkle_loop\<close>, \<open>handle_peer_connection\<close> and others), so they need no fuel; the loop of a client
  connection and the menus of the console may run forever and are \<open>partial_function\<close>s, where \<open>None\<close> means that they do not return.
  Event loops are one function per round and an inductive reachability relation.

  \<^bold>\<open>Not modelled.\<close>  Logging and macros, the serde glue of
  \<^verbatim>\<open>hexstring.rs\<close> and the client listener's accept loop, which only starts connection loops.  Tasks are
  interleaved at the granularity of one handler call; the capacity of the channels, time-outs of
  sockets and the cryptographic strength of the crates are outside the model, as are the overflow of the
  counter of markets and the result of the replica's message to itself, whose channel is open while the replica runs.
\<close>

end
